theory Spec2Isabelle
  imports Complex_Main "HOL-Library.Sublist"
begin

section \<open>PixelPunk: the AI tagging queue and its executor\<close>

text \<open>
  A shallow embedding of package \<open>ai\<close> of the repository: the queue entry points
  (\<open>InitGlobalTaggingQueue\<close>, \<open>RecoverPendingOnStartup\<close>, \<open>AddFileToQueue\<close>), the executor
  (\<open>AiImageTaggingAndSaveWithBase64\<close>, \<open>processAIResponse\<close>) and the duplicate propagation
  (\<open>propagateAIToDuplicates\<close>).

  The relational store is a record of tables, each table a list of rows in the order the
  database scans them. An \<open>UPDATE ... WHERE\<close> maps over the rows, a \<open>SELECT ... WHERE\<close>
  filters them, \<open>LIMIT n\<close> takes the first \<open>n\<close> rows of the scan. Go strings are byte strings,
  so they are \<open>string\<close>; Go's \<open>int\<close> counters are \<open>int\<close>; \<open>float64\<close> scores are only
  stored and copied by this code, never compared or computed with, and are \<open>real\<close>.
\<close>

subsection \<open>Constants\<close>

text \<open>
  Modelled from the spec: the constants \<open>AITaggingStatus*\<close> of package \<open>common\<close> are used
  by the source but not declared in it. The spec gives the status enumeration as
  \<open>none | pending | processing | done | failed | skipped\<close>; each constant is the string of
  its name.
\<close>

definition AITaggingStatusNone :: string where
  "AITaggingStatusNone = ''none''"

definition AITaggingStatusPending :: string where
  "AITaggingStatusPending = ''pending''"

definition AITaggingStatusProcessing :: string where
  "AITaggingStatusProcessing = ''processing''"

definition AITaggingStatusDone :: string where
  "AITaggingStatusDone = ''done''"

definition AITaggingStatusFailed :: string where
  "AITaggingStatusFailed = ''failed''"

definition AITaggingStatusSkipped :: string where
  "AITaggingStatusSkipped = ''skipped''"

text \<open>\<open>AIMaxRetries\<close> of package \<open>constants\<close>.\<close>

definition AIMaxRetries :: int where
  "AIMaxRetries = 3"

subsection \<open>Rows and tables\<close>

type_synonym file_id = string

text \<open>
  The columns of \<open>models.File\<close> that package \<open>ai\<close> reads or writes (the struct itself is
  not in the source). \<open>f_status\<close> is the moderation status column \<open>status\<close>;
  \<open>f_ai_tagging_status\<close>, \<open>f_ai_tagging_tries\<close> and \<open>f_ai_last_heartbeat_at\<close> are the job
  record of the file.
\<close>

record file_row =
  f_id :: file_id
  f_user_id :: nat
  f_status :: string
  f_original_file_id :: file_id
  f_resolution :: string
  f_description :: string
  f_nsfw :: bool
  f_is_recommended :: bool
  f_category_id :: "nat option"
  f_category_source :: string
  f_ai_tagging_status :: string
  f_ai_tagging_tries :: int
  f_ai_last_heartbeat_at :: int

text \<open>
  \<open>models.FileAIInfo\<close>: the primary key, the unique \<open>file_id\<close> and the stored result. The
  struct is not in the source; its columns are those that the controllers read
  (description, tags, dominant colour, resolution, NSFW flag, score, evaluation and
  categories, colour palette, aspect ratio, composition, object count, semantic
  keywords), with the reason of the detection and the token count of the usage. The JSON
  columns hold the value they encode.
\<close>

record ai_info_row =
  ai_ID :: nat
  ai_FileID :: file_id
  ai_Description :: string
  ai_Tags :: "string list"
  ai_SemanticKeywords :: "string list"
  ai_IsNSFW :: bool
  ai_NSFWScore :: real
  ai_NSFWReason :: string
  ai_NSFWEvaluation :: string
  ai_NSFWCategories :: "real \<times> real \<times> real \<times> real \<times> real"
  ai_Resolution :: string
  ai_AspectRatio :: real
  ai_DominantColor :: string
  ai_ColorPalette :: "string list"
  ai_Composition :: string
  ai_ObjectsCount :: int
  ai_TotalTokens :: int

text \<open>\<open>models.FileGlobalTagRelation\<close>, with the fields the source copies.\<close>

record rel_row =
  rel_FileID :: file_id
  rel_TagID :: nat
  rel_UserID :: nat
  rel_AccessLevel :: string
  rel_Source :: string
  rel_Confidence :: real

record tag_row =
  tag_ID :: nat
  tag_Name :: string

text \<open>\<open>models.FileTaggingLog\<close>; \<open>log_Data\<close> holds the three token counts of the usage.\<close>

record log_row =
  log_FileID :: file_id
  log_Status :: string
  log_Type :: string
  log_Data :: "int \<times> int \<times> int"

subsection \<open>Errors, collaborators and the environment\<close>

datatype error =
    ErrNoDB
  | ErrCreateService
  | ErrFileDeleted
  | ErrRecordNotFound
  | ErrInvalidAIResult
  | ErrAI string
  | ErrNSFWRefused file_id
  | ErrParse string
  | ErrDB string
  | ErrQueueFull

text \<open>
  The functions of the repository that the source calls but does not contain. A call is
  appended to the trace \<open>calls\<close> of the world with its arguments; what the callee writes is
  outside this model. A \<open>go\<close> statement is recorded in the same way: the goroutine runs
  later, and the function that started it does not wait for it.
\<close>

datatype call =
    MarkFileForDeletion file_id
  | MarkFileForReview file_id string
  | CreatePendingVectorRecord file_id string
  | SaveCategoryResultIfNeeded file_id
  | ProcessSingleFile file_id
  | BatchProcessFiles "file_id list"
  | NotifyQueueStatsChange
  | BroadcastToAdmins file_id
  | CallResetStuckPendingFiles int
  | CallEnqueueAllPending int
  | CallCleanOldAIJobs int
  | GoPropagateAIToDuplicates file_id
  | GoStartupRecovery
  | GoStuckLoop
  | GoRetentionLoop

text \<open>The statements whose error the source can see: one site for each.\<close>

datatype site =
    S_updateFileStatus
  | S_updateFileNSFWStatus
  | S_fileExists
  | S_saveFileAIInfo
  | S_updateRecommended
  | S_CreateTagsFromNames
  | S_ReplaceFileTagsTx
  | S_createLog
  | S_propOrig
  | S_propOrigAI
  | S_propDups
  | S_propUpsert
  | S_propDescription
  | S_propCount
  | S_propRels
  | S_propCreateRel
  | S_propUpdate
  | S_recoverPluck
  | S_recoverUpdate
  | S_recoverFind
  | S_enqueueMarkPending
  | S_execSkip
  | S_execFileCheck
  | S_execDone

text \<open>The struct \<open>AITaggingResult\<close> of the source.\<close>

record BasicInfo =
  AspectRatio :: real
  EstimatedSize :: string
  Height :: int
  ImageType :: string
  Resolution :: string
  Width :: int

record Categories =
  AlcoholTobacco :: real
  Gambling :: real
  HateSpeech :: real
  Nudity :: real
  Violence :: real

record ContentSafety =
  Categories :: Categories
  EvaluationResult :: string
  IsNSFW :: bool
  NSFWScore :: real
  NSFWReason :: string

record VisualElements =
  ColorPalette :: "string list"
  Composition :: string
  DominantColor :: string
  ObjectsCount :: int

record AITaggingResult =
  BasicInfo :: BasicInfo
  ContentSafety :: ContentSafety
  Description :: string
  SearchContent :: string
  SemanticKeywords :: "string list"
  IsRecommended :: bool
  Tags :: "string list"
  VisualElements :: VisualElements

text \<open>
  \<open>AIFileResponse\<close> with the fields the source reads (the struct is not in the source);
  \<open>Usage\<close> is a pointer to the three token counts.
\<close>

record AIFileResponse =
  Success :: bool
  ErrMsg :: string
  RawResponse :: string
  Data :: string
  Usage :: "(int \<times> int \<times> int) option"

text \<open>
  Modelled from the spec: \<open>TaggingService\<close> and its task queue are not in the source. The
  spec's task queue is a bounded, de-duplicating queue of file IDs with an in-flight set.
\<close>

record TaskQueue =
  queued :: "file_id list"
  in_flight :: "file_id list"
  capacity :: nat

record TaggingService =
  taskQueue :: "TaskQueue option"
  paused :: bool

text \<open>
  Everything the code reads from outside: whether a database handle exists, which
  statements fail (by site and key, with the error message), the clock, the settings of
  the store (\<open>nsfw_threshold\<close> is read by package \<open>review\<close> only, for its log rows; no
  function of package \<open>ai\<close> reads it), the library functions \<open>strings.ToLower\<close> and \<open>json.Unmarshal\<close> (the latter
  reduced to the \<open>choices[].message.content\<close> strings it decodes, \<open>None\<close> on a decoding
  error), and the results of the collaborators that are not in the source.
\<close>

record env =
  db_available :: bool
  db_err :: "site \<Rightarrow> string \<Rightarrow> string option"
  time_Now :: int
  ai_enabled :: bool
  ai_auto_processing_enabled :: bool
  pending_stuck_threshold_minutes :: int
  ai_job_retention_days :: int
  content_detection_enabled :: bool
  sensitive_content_handling :: string
  ai_analysis_enabled :: bool
  nsfw_threshold :: real
  strings_ToLower :: "string \<Rightarrow> string"
  json_choices :: "string \<Rightarrow> string list option"
  parseAITaggingResult :: "string \<Rightarrow> string + AITaggingResult"
  AIDefaultConfidence :: real
  NewTaggingServiceWithConfig :: "TaggingService option"
  ResetStuckPendingFiles :: "int \<Rightarrow> string + int"
  performAIImageCategorizationOutsideTx :: "file_id \<Rightarrow> string \<Rightarrow> string \<Rightarrow> string + string"
  performAITagging :: "file_id \<Rightarrow> string \<Rightarrow> string \<Rightarrow> string \<Rightarrow> string + AIFileResponse option"

record world =
  files :: "file_row list"
  file_ai_info :: "ai_info_row list"
  file_global_tag_relation :: "rel_row list"
  global_tag :: "tag_row list"
  file_tagging_log :: "log_row list"
  globalTaggingService :: "TaggingService option"
  calls :: "call list"

definition invoke :: "call \<Rightarrow> world \<Rightarrow> world" where
  "invoke c w = w\<lparr>calls := calls w @ [c]\<rparr>"


subsection \<open>Status writes\<close>

text \<open>
  \<open>updateFileStatus\<close>: the update map holds the new status, and \<open>ai_tagging_tries + 1\<close>
  when the status is \<open>failed\<close>; it is applied to the rows with the given id. A statement
  that fails writes nothing and returns its error.
\<close>

definition updateFileStatus :: "env \<Rightarrow> world \<Rightarrow> file_id \<Rightarrow> string \<Rightarrow> string option \<times> world" where
  "updateFileStatus e w fileID status =
     (case db_err e S_updateFileStatus fileID of
        Some m \<Rightarrow> (Some m, w)
      | None \<Rightarrow>
          (None, w\<lparr>files := map (\<lambda>r. if f_id r = fileID
                                      then r\<lparr>f_ai_tagging_status := status,
                                             f_ai_tagging_tries :=
                                               (if status = AITaggingStatusFailed
                                                then f_ai_tagging_tries r + 1
                                                else f_ai_tagging_tries r)\<rparr>
                                      else r) (files w)\<rparr>))"

text \<open>
  The statement \<open>db.Model(&models.File{}).Where("id = ?", id).Update("ai_tagging_status", s)\<close>,
  which the executor issues directly: it writes the status column only.
\<close>

definition set_ai_tagging_status :: "world \<Rightarrow> file_id \<Rightarrow> string \<Rightarrow> world" where
  "set_ai_tagging_status w fileID status =
     w\<lparr>files := map (\<lambda>r. if f_id r = fileID then r\<lparr>f_ai_tagging_status := status\<rparr> else r)
                     (files w)\<rparr>"

definition updateFileNSFWStatus :: "env \<Rightarrow> world \<Rightarrow> file_id \<Rightarrow> bool \<Rightarrow> string option \<times> world" where
  "updateFileNSFWStatus e w fileID nsfw =
     (case db_err e S_updateFileNSFWStatus fileID of
        Some m \<Rightarrow> (Some m, w)
      | None \<Rightarrow>
          (None, w\<lparr>files := map (\<lambda>r. if f_id r = fileID then r\<lparr>f_nsfw := nsfw\<rparr> else r)
                                (files w)\<rparr>))"

definition fileExists :: "env \<Rightarrow> world \<Rightarrow> file_id \<Rightarrow> bool" where
  "fileExists e w fileID =
     (case db_err e S_fileExists fileID of
        Some m \<Rightarrow> False
      | None \<Rightarrow> 0 < length (filter (\<lambda>r. f_id r = fileID) (files w)))"

subsection \<open>String tests\<close>

text \<open>\<open>strings.Contains\<close> on byte strings.\<close>

fun Contains :: "string \<Rightarrow> string \<Rightarrow> bool" where
  "Contains [] substr = (substr = [])"
| "Contains (c # cs) substr = (prefix substr (c # cs) \<or> Contains cs substr)"

definition isDeadlockError :: "env \<Rightarrow> string option \<Rightarrow> bool" where
  "isDeadlockError e err =
     (case err of
        None \<Rightarrow> False
      | Some m \<Rightarrow>
          (let s = strings_ToLower e m
           in Contains s ''deadlock found'' \<or> Contains s ''error 1213''))"

text \<open>The six phrases of \<open>isNSFWRejection\<close>, as their UTF-8 bytes, in the source's order.\<close>

definition rejection_phrases :: "string list" where
  "rejection_phrases =
     [[CHR 0xE6, CHR 0x8A, CHR 0xB1, CHR 0xE6, CHR 0xAD, CHR 0x89],
      [CHR 0xE6, CHR 0x97, CHR 0xA0, CHR 0xE6, CHR 0xB3, CHR 0x95, CHR 0xE5, CHR 0xA4, CHR 0x84,
       CHR 0xE7, CHR 0x90, CHR 0x86],
      [CHR 0xE6, CHR 0x97, CHR 0xA0, CHR 0xE6, CHR 0xB3, CHR 0x95, CHR 0xE5, CHR 0x8D, CHR 0x8F,
       CHR 0xE5, CHR 0x8A, CHR 0xA9],
      [CHR 0xE4, CHR 0xB8, CHR 0x8D, CHR 0xE9, CHR 0x80, CHR 0x82, CHR 0xE5, CHR 0x90, CHR 0x88],
      [CHR 0xE4, CHR 0xB8, CHR 0x8D, CHR 0xE9, CHR 0x80, CHR 0x82, CHR 0xE5, CHR 0xBD, CHR 0x93],
      [CHR 0xE8, CHR 0xBF, CHR 0x9D, CHR 0xE5, CHR 0x8F, CHR 0x8D]]"

definition isNSFWRejection :: "env \<Rightarrow> AIFileResponse \<Rightarrow> bool" where
  "isNSFWRejection e aiResp =
     (if RawResponse aiResp = [] then False
      else (case json_choices e (RawResponse aiResp) of
              None \<Rightarrow> False
            | Some choices \<Rightarrow>
                list_ex (\<lambda>content. list_ex (Contains content) rejection_phrases) choices))"

text \<open>The default review reason of the rejection branch, as its UTF-8 bytes.\<close>

definition default_nsfw_reason :: string where
  "default_nsfw_reason =
     [CHR ''A'', CHR ''I'', CHR 0xE6, CHR 0xA3, CHR 0x80, CHR 0xE6, CHR 0xB5, CHR 0x8B, CHR 0xE5,
      CHR 0x88, CHR 0xB0, CHR 0xE8, CHR 0xBF, CHR 0x9D, CHR 0xE8, CHR 0xA7, CHR 0x84, CHR 0xE5,
      CHR 0x86, CHR 0x85, CHR 0xE5, CHR 0xAE, CHR 0xB9, CHR 0xEF, CHR 0xBC, CHR 0x8C, CHR 0xE8,
      CHR 0xAF, CHR 0xA6, CHR 0xE7, CHR 0xBB, CHR 0x86, CHR 0xE5, CHR 0x8E, CHR 0x9F, CHR 0xE5,
      CHR 0x9B, CHR 0xA0, CHR 0xE4, CHR 0xB8, CHR 0x8D, CHR 0xE5, CHR 0x8F, CHR 0xAF, CHR 0xE7,
      CHR 0x94, CHR 0xA8]"

subsection \<open>Persistence of one result\<close>

text \<open>The next value of an auto-increment primary key.\<close>

definition next_id :: "nat list \<Rightarrow> nat" where
  "next_id ids = Suc (fold max ids 0)"

text \<open>
  \<open>INSERT ... ON CONFLICT (file_id) DO UPDATE\<close> with \<open>UpdateAll\<close>: a row with the same
  \<open>file_id\<close> takes every column of the new row but keeps its primary key; without a
  conflict the row is inserted with a fresh key.
\<close>

definition upsert_ai_info :: "ai_info_row \<Rightarrow> ai_info_row list \<Rightarrow> ai_info_row list" where
  "upsert_ai_info new rows =
     (if list_ex (\<lambda>r. ai_FileID r = ai_FileID new) rows
      then map (\<lambda>r. if ai_FileID r = ai_FileID new then new\<lparr>ai_ID := ai_ID r\<rparr> else r) rows
      else rows @ [new\<lparr>ai_ID := next_id (map ai_ID rows)\<rparr>])"

text \<open>
  Modelled from the spec: \<open>saveFileAIInfo\<close> is not in the source. The spec has the parsed
  result (tags, description, detection score, category breakdown) persisted "via an
  UPSERT keyed by fileID", and the source's comment at the call says the same. The record
  that is written holds every column of the result: its tags and semantic keywords, its
  description, the detection (flag, score, reason, evaluation, the five category scores),
  and the basic and visual attributes; and the total token count of the usage.
\<close>

definition ai_info_of :: "file_id \<Rightarrow> AITaggingResult \<Rightarrow> (int \<times> int \<times> int) option \<Rightarrow> ai_info_row" where
  "ai_info_of fileID result usage =
     \<lparr>ai_ID = 0, ai_FileID = fileID, ai_Description = Description result,
      ai_Tags = Tags result, ai_SemanticKeywords = SemanticKeywords result,
      ai_IsNSFW = IsNSFW (ContentSafety result),
      ai_NSFWScore = NSFWScore (ContentSafety result),
      ai_NSFWReason = NSFWReason (ContentSafety result),
      ai_NSFWEvaluation = EvaluationResult (ContentSafety result),
      ai_NSFWCategories =
        (AlcoholTobacco (Categories (ContentSafety result)),
         Gambling (Categories (ContentSafety result)),
         HateSpeech (Categories (ContentSafety result)),
         Nudity (Categories (ContentSafety result)),
         Violence (Categories (ContentSafety result))),
      ai_Resolution = Resolution (BasicInfo result),
      ai_AspectRatio = AspectRatio (BasicInfo result),
      ai_DominantColor = DominantColor (VisualElements result),
      ai_ColorPalette = ColorPalette (VisualElements result),
      ai_Composition = Composition (VisualElements result),
      ai_ObjectsCount = ObjectsCount (VisualElements result),
      ai_TotalTokens = (case usage of None \<Rightarrow> 0 | Some (p, c, t) \<Rightarrow> t)\<rparr>"

definition saveFileAIInfo ::
  "env \<Rightarrow> world \<Rightarrow> file_id \<Rightarrow> AITaggingResult \<Rightarrow> (int \<times> int \<times> int) option \<Rightarrow> string option \<times> world" where
  "saveFileAIInfo e w fileID result usage =
     (case db_err e S_saveFileAIInfo fileID of
        Some m \<Rightarrow> (Some m, w)
      | None \<Rightarrow>
          (None,
           w\<lparr>file_ai_info := upsert_ai_info (ai_info_of fileID result usage) (file_ai_info w)\<rparr>))"

text \<open>
  Modelled from the spec: \<open>GlobalTagService.CreateTagsFromNames\<close> is not in the source. A
  tag name has one row in the global tag table: a name that has a row yields that row's
  id, a new name gets a row with a fresh id. The spec asks that a second run creates no
  duplicate tag rows.
\<close>

fun create_tags :: "string list \<Rightarrow> tag_row list \<Rightarrow> nat list \<times> tag_row list" where
  "create_tags [] tags = ([], tags)"
| "create_tags (n # ns) tags =
     (case find (\<lambda>t. tag_Name t = n) tags of
        Some t \<Rightarrow> (let (ids, tags') = create_tags ns tags in (tag_ID t # ids, tags'))
      | None \<Rightarrow>
          (let i = next_id (map tag_ID tags);
               (ids, tags') = create_tags ns (tags @ [\<lparr>tag_ID = i, tag_Name = n\<rparr>])
           in (i # ids, tags')))"

definition CreateTagsFromNames ::
  "env \<Rightarrow> world \<Rightarrow> string list \<Rightarrow> nat \<Rightarrow> string \<Rightarrow> (string + nat list) \<times> world" where
  "CreateTagsFromNames e w names userID source =
     (case db_err e S_CreateTagsFromNames source of
        Some m \<Rightarrow> (Inl m, w)
      | None \<Rightarrow>
          (let (ids, tags') = create_tags names (global_tag w)
           in (Inr ids, w\<lparr>global_tag := tags'\<rparr>)))"

text \<open>
  Modelled from the spec: \<open>FileGlobalTagService.ReplaceFileTagsTx\<close> is not in the source.
  It replaces the tag associations of the file: the file's rows are deleted and one row
  is written for each tag id, with the given source and confidence. The call passes
  neither a user nor an access level; those columns are left at their zero values.
\<close>

definition ReplaceFileTagsTx ::
  "env \<Rightarrow> world \<Rightarrow> file_id \<Rightarrow> nat list \<Rightarrow> string \<Rightarrow> real \<Rightarrow> string option \<times> world" where
  "ReplaceFileTagsTx e w fileID tagIDs source confidence =
     (case db_err e S_ReplaceFileTagsTx fileID of
        Some m \<Rightarrow> (Some m, w)
      | None \<Rightarrow>
          (None,
           w\<lparr>file_global_tag_relation :=
               filter (\<lambda>r. rel_FileID r \<noteq> fileID) (file_global_tag_relation w) @
               map (\<lambda>t. \<lparr>rel_FileID = fileID, rel_TagID = t, rel_UserID = 0,
                         rel_AccessLevel = [], rel_Source = source,
                         rel_Confidence = confidence\<rparr>) tagIDs\<rparr>))"

definition processAndSaveTags ::
  "env \<Rightarrow> world \<Rightarrow> file_row \<Rightarrow> string list \<Rightarrow> string option \<times> world" where
  "processAndSaveTags e w file tags =
     (if length tags = 0 then (None, w)
      else (case CreateTagsFromNames e w tags (f_user_id file) ''ai'' of
              (Inl m, w1) \<Rightarrow> (Some m, w1)
            | (Inr tagIDs, w1) \<Rightarrow>
                (case ReplaceFileTagsTx e w1 (f_id file) tagIDs ''ai'' (AIDefaultConfidence e) of
                   (Some m, w2) \<Rightarrow> (Some m, w2)
                 | (None, w2) \<Rightarrow> (None, w2))))"

subsection \<open>\<open>processAIResponse\<close>\<close>

text \<open>
  The error path that four save steps of \<open>processAIResponse\<close> share: a deadlock on a file
  that is gone returns \<open>errFileDeleted\<close>; anything else marks the job failed and returns
  the error.
\<close>

definition save_failed :: "env \<Rightarrow> world \<Rightarrow> file_id \<Rightarrow> string \<Rightarrow> error option \<times> world" where
  "save_failed e w fileID m =
     (if isDeadlockError e (Some m) \<and> \<not> fileExists e w fileID then (Some ErrFileDeleted, w)
      else (Some (ErrDB m), snd (updateFileStatus e w fileID AITaggingStatusFailed)))"

text \<open>
  Lines 427 to 463: the response is nil or unsuccessful. A refusal over sensitive content,
  when content detection is on, is handled by mode and ends with status \<open>done\<close> and an
  error; any other unsuccessful response ends with status \<open>failed\<close> and an error.
\<close>

definition processAIResponse_unsuccessful ::
  "env \<Rightarrow> world \<Rightarrow> file_row \<Rightarrow> AIFileResponse option \<Rightarrow> bool \<Rightarrow> string \<Rightarrow> error option \<times> world" where
  "processAIResponse_unsuccessful e w file aiResp contentDetectionEnabled sensitiveContentHandling =
     (let errMsg = (case aiResp of
                      None \<Rightarrow> ErrInvalidAIResult
                    | Some r \<Rightarrow> if ErrMsg r \<noteq> [] then ErrAI (ErrMsg r) else ErrInvalidAIResult)
      in case aiResp of
           None \<Rightarrow> (Some errMsg, snd (updateFileStatus e w (f_id file) AITaggingStatusFailed))
         | Some r \<Rightarrow>
             if contentDetectionEnabled \<and> isNSFWRejection e r then
               (let w1 =
                      (if sensitiveContentHandling = ''auto_delete''
                       then invoke (MarkFileForDeletion (f_id file)) w
                       else (let w' = snd (updateFileNSFWStatus e w (f_id file) True)
                             in if sensitiveContentHandling = ''pending_review''
                                then invoke (MarkFileForReview (f_id file)
                                               (if ErrMsg r \<noteq> [] then ErrMsg r
                                                else default_nsfw_reason)) w'
                                else w'))
                in (Some (ErrNSFWRefused (f_id file)),
                    snd (updateFileStatus e w1 (f_id file) AITaggingStatusDone)))
             else (Some errMsg, snd (updateFileStatus e w (f_id file) AITaggingStatusFailed)))"

text \<open>
  Lines 488 to 496: the recommendation is written back only when the result recommends
  the file. A failed update is logged and the function goes on, unless it was a deadlock
  on a file that is gone.
\<close>

definition processAIResponse_recommended ::
  "env \<Rightarrow> world \<Rightarrow> file_row \<Rightarrow> AITaggingResult \<Rightarrow> error option \<times> world" where
  "processAIResponse_recommended e w file result =
     (if IsRecommended result then
        (case db_err e S_updateRecommended (f_id file) of
           Some m \<Rightarrow>
             (if isDeadlockError e (Some m) \<and> \<not> fileExists e w (f_id file)
              then (Some ErrFileDeleted, w) else (None, w))
         | None \<Rightarrow>
             (None,
              w\<lparr>files := map (\<lambda>row. if f_id row = f_id file
                                     then row\<lparr>f_is_recommended := True\<rparr> else row)
                               (files w)\<rparr>))
      else (None, w))"

text \<open>
  Lines 498 to 541: the tag rows. \<open>processAndSaveTags\<close> is called when content detection
  is off or the result is not NSFW, and for an NSFW result under \<open>pending_review\<close> and
  under the default mode; under \<open>auto_delete\<close> an NSFW file is marked for deletion and
  \<open>processAndSaveTags\<close> is not called. The result \<open>None\<close> means that the function goes on.
\<close>

definition processAIResponse_tags ::
  "env \<Rightarrow> world \<Rightarrow> file_row \<Rightarrow> AITaggingResult \<Rightarrow> bool \<Rightarrow> string \<Rightarrow> error option \<times> world" where
  "processAIResponse_tags e w file result contentDetectionEnabled sensitiveContentHandling =
     (if \<not> contentDetectionEnabled \<or> \<not> IsNSFW (ContentSafety result) then
        (case processAndSaveTags e w file (Tags result) of
           (Some m, w1) \<Rightarrow> save_failed e w1 (f_id file) m
         | (None, w1) \<Rightarrow> (None, w1))
      else if sensitiveContentHandling = ''auto_delete'' then
        (None, invoke (MarkFileForDeletion (f_id file)) w)
      else if sensitiveContentHandling = ''pending_review'' then
        (case processAndSaveTags e
                (invoke (MarkFileForReview (f_id file) (NSFWReason (ContentSafety result))) w)
                file (Tags result) of
           (Some m, w1) \<Rightarrow> save_failed e w1 (f_id file) m
         | (None, w1) \<Rightarrow> (None, w1))
      else
        (case processAndSaveTags e w file (Tags result) of
           (Some m, w1) \<Rightarrow> save_failed e w1 (f_id file) m
         | (None, w1) \<Rightarrow> (None, w1)))"

text \<open>
  Lines 543 to 586: the NSFW flag of the file, status \<open>done\<close>, the pending vector record,
  the usage log row, and the goroutine that propagates to duplicates.
\<close>

definition processAIResponse_finish ::
  "env \<Rightarrow> world \<Rightarrow> file_row \<Rightarrow> AIFileResponse \<Rightarrow> AITaggingResult \<Rightarrow> bool \<Rightarrow> error option \<times> world" where
  "processAIResponse_finish e w file r result contentDetectionEnabled =
     (case (if contentDetectionEnabled \<and> IsNSFW (ContentSafety result)
            then updateFileNSFWStatus e w (f_id file) True else (None, w)) of
        (Some m, w1) \<Rightarrow> save_failed e w1 (f_id file) m
      | (None, w1) \<Rightarrow>
          (let w2 = snd (updateFileStatus e w1 (f_id file) AITaggingStatusDone);
               w3 = (if Description result \<noteq> []
                     then invoke (CreatePendingVectorRecord (f_id file) (Description result)) w2
                     else w2);
               w4 = (case Usage r of
                       None \<Rightarrow> w3
                     | Some u \<Rightarrow>
                         (case db_err e S_createLog (f_id file) of
                            Some m \<Rightarrow> w3
                          | None \<Rightarrow>
                              w3\<lparr>file_tagging_log := file_tagging_log w3 @
                                    [\<lparr>log_FileID = f_id file, log_Status = AITaggingStatusDone,
                                      log_Type = ''tagging.ai_completed'', log_Data = u\<rparr>]\<rparr>))
           in (None, invoke (GoPropagateAIToDuplicates (f_id file)) w4)))"

text \<open>
  The whole function. The parameters \<open>base64Data\<close> and \<open>imageFormat\<close> of the source are
  not used by its body and are left out. \<open>parseAITaggingResult\<close> is not in the source: it
  is the parameter of that name, which yields an error or a result.
\<close>

definition processAIResponse ::
  "env \<Rightarrow> world \<Rightarrow> file_row \<Rightarrow> AIFileResponse option \<Rightarrow> bool \<Rightarrow> string \<Rightarrow> error option \<times> world" where
  "processAIResponse e w file aiResp contentDetectionEnabled sensitiveContentHandling =
     (case aiResp of
        None \<Rightarrow>
          processAIResponse_unsuccessful e w file aiResp contentDetectionEnabled
            sensitiveContentHandling
      | Some r \<Rightarrow>
          if \<not> Success r then
            processAIResponse_unsuccessful e w file aiResp contentDetectionEnabled
              sensitiveContentHandling
          else
            (case parseAITaggingResult e (Data r) of
               Inl m \<Rightarrow>
                 (Some (ErrParse m), snd (updateFileStatus e w (f_id file) AITaggingStatusFailed))
             | Inr parsed \<Rightarrow>
                 (let result = (if f_resolution file \<noteq> []
                                then parsed\<lparr>BasicInfo :=
                                              (BasicInfo parsed)\<lparr>Resolution := f_resolution file\<rparr>\<rparr>
                                else parsed)
                  in case saveFileAIInfo e w (f_id file) result (Usage r) of
                       (Some m, w1) \<Rightarrow> save_failed e w1 (f_id file) m
                     | (None, w1) \<Rightarrow>
                         (case processAIResponse_recommended e w1 file result of
                            (Some err, w2) \<Rightarrow> (Some err, w2)
                          | (None, w2) \<Rightarrow>
                              (case processAIResponse_tags e w2 file result
                                      contentDetectionEnabled sensitiveContentHandling of
                                 (Some err, w3) \<Rightarrow> (Some err, w3)
                               | (None, w3) \<Rightarrow>
                                   processAIResponse_finish e w3 file r result
                                     contentDetectionEnabled)))))"

subsection \<open>\<open>propagateAIToDuplicates\<close>\<close>

text \<open>The zero value of \<open>models.FileAIInfo\<close>, which \<open>origAI\<close> keeps when no row is read.\<close>

definition zero_ai_info :: ai_info_row where
  "zero_ai_info =
     \<lparr>ai_ID = 0, ai_FileID = [], ai_Description = [], ai_Tags = [], ai_SemanticKeywords = [],
      ai_IsNSFW = False, ai_NSFWScore = 0, ai_NSFWReason = [], ai_NSFWEvaluation = [],
      ai_NSFWCategories = (0, 0, 0, 0, 0), ai_Resolution = [], ai_AspectRatio = 0,
      ai_DominantColor = [], ai_ColorPalette = [], ai_Composition = [], ai_ObjectsCount = 0,
      ai_TotalTokens = 0\<rparr>"

text \<open>
  The record \<open>clone\<close> that is upserted for a duplicate, and the relation \<open>nr\<close> that is
  created for it from a relation of the original.
\<close>

definition dup_ai_info :: "ai_info_row \<Rightarrow> file_id \<Rightarrow> ai_info_row" where
  "dup_ai_info origAI dupID = origAI\<lparr>ai_ID := 0, ai_FileID := dupID\<rparr>"

definition dup_relation :: "file_id \<Rightarrow> rel_row \<Rightarrow> rel_row" where
  "dup_relation dupID r =
     \<lparr>rel_FileID = dupID, rel_TagID = rel_TagID r, rel_UserID = rel_UserID r,
      rel_AccessLevel = rel_AccessLevel r, rel_Source = rel_Source r,
      rel_Confidence = rel_Confidence r\<rparr>"

text \<open>
  The body of the loop, for one duplicate: the upsert of the cloned AI record and the
  description, the copy of the tag associations when the duplicate has none, and the
  update that sets the job status to \<open>done\<close> (with the category of the original, if it has
  one). Every error of the body is discarded by the source: a failed statement is skipped.
\<close>

definition propagate_dup ::
  "env \<Rightarrow> file_row \<Rightarrow> ai_info_row \<Rightarrow> file_id \<Rightarrow> file_row \<Rightarrow> world \<Rightarrow> world" where
  "propagate_dup e orig origAI originalID dup w =
     (let w1 =
            (if ai_FileID origAI \<noteq> [] then
               (let clone = dup_ai_info origAI (f_id dup);
                    wa = (case db_err e S_propUpsert (f_id dup) of
                            Some m \<Rightarrow> w
                          | None \<Rightarrow> w\<lparr>file_ai_info := upsert_ai_info clone (file_ai_info w)\<rparr>)
                in if ai_Description clone \<noteq> [] then
                     (case db_err e S_propDescription (f_id dup) of
                        Some m \<Rightarrow> wa
                      | None \<Rightarrow>
                          wa\<lparr>files := map (\<lambda>r. if f_id r = f_id dup
                                                then r\<lparr>f_description := ai_Description clone\<rparr>
                                                else r) (files wa)\<rparr>)
                   else wa)
             else w);
          w2 =
            (if db_err e S_propCount (f_id dup) = None \<and>
                length (filter (\<lambda>r. rel_FileID r = f_id dup) (file_global_tag_relation w1)) = 0
             then
               (case db_err e S_propRels (f_id dup) of
                  Some m \<Rightarrow> w1
                | None \<Rightarrow>
                    (let rels = filter (\<lambda>r. rel_FileID r = originalID)
                                  (file_global_tag_relation w1)
                     in w1\<lparr>file_global_tag_relation :=
                             file_global_tag_relation w1 @
                             map (dup_relation (f_id dup))
                               (filter (\<lambda>r. db_err e S_propCreateRel (f_id dup) = None) rels)\<rparr>))
             else w1)
      in case db_err e S_propUpdate (f_id dup) of
           Some m \<Rightarrow> w2
         | None \<Rightarrow>
             w2\<lparr>files :=
                  map (\<lambda>r. if f_id r = f_id dup
                           then (case f_category_id orig of
                                   None \<Rightarrow> r\<lparr>f_ai_tagging_status := AITaggingStatusDone\<rparr>
                                 | Some c \<Rightarrow>
                                     r\<lparr>f_ai_tagging_status := AITaggingStatusDone,
                                       f_category_id := Some c,
                                       f_category_source := f_category_source orig\<rparr>)
                           else r) (files w2)\<rparr>)"

text \<open>
  The duplicates are the files whose \<open>original_file_id\<close> is the given id and whose status
  is not \<open>pending_deletion\<close>. The function returns nothing: without a database handle,
  without the original's row, or when the query for the duplicates fails, it does nothing.
\<close>

definition duplicates_of :: "world \<Rightarrow> file_id \<Rightarrow> file_row list" where
  "duplicates_of w originalID =
     filter (\<lambda>r. f_original_file_id r = originalID \<and> f_status r \<noteq> ''pending_deletion'')
       (files w)"

definition propagateAIToDuplicates :: "env \<Rightarrow> world \<Rightarrow> file_id \<Rightarrow> world" where
  "propagateAIToDuplicates e w originalID =
     (if \<not> db_available e then w
      else (case (if db_err e S_propOrig originalID = None
                  then find (\<lambda>r. f_id r = originalID) (files w) else None) of
              None \<Rightarrow> w
            | Some orig \<Rightarrow>
                (let origAI =
                       (if db_err e S_propOrigAI originalID = None
                        then (case find (\<lambda>a. ai_FileID a = originalID) (file_ai_info w) of
                                None \<Rightarrow> zero_ai_info
                              | Some a \<Rightarrow> a)
                        else zero_ai_info)
                 in if db_err e S_propDups originalID \<noteq> None then w
                    else (let dups = duplicates_of w originalID
                          in if length dups = 0 then w
                             else fold (propagate_dup e orig origAI originalID) dups w))))"

text \<open>
  Notions for stating what the propagation does: the AI record that the function reads
  for the original; that a file has a clone of it (a record for the file exists, and every
  record of the file is the clone but for its primary key); the tag associations after
  the copy for one duplicate; and the row of a duplicate after the body of the loop has
  run for it without a failed statement.
\<close>

definition original_ai_info :: "world \<Rightarrow> file_id \<Rightarrow> ai_info_row" where
  "original_ai_info w originalID =
     (case find (\<lambda>a. ai_FileID a = originalID) (file_ai_info w) of
        None \<Rightarrow> zero_ai_info
      | Some a \<Rightarrow> a)"

definition has_clone :: "ai_info_row \<Rightarrow> file_id \<Rightarrow> ai_info_row list \<Rightarrow> bool" where
  "has_clone origAI dupID rows \<longleftrightarrow>
     list_ex (\<lambda>a. ai_FileID a = dupID) rows \<and>
     list_all (\<lambda>a. ai_FileID a = dupID \<longrightarrow> a\<lparr>ai_ID := 0\<rparr> = dup_ai_info origAI dupID) rows"

definition copy_relations :: "file_id \<Rightarrow> file_id \<Rightarrow> rel_row list \<Rightarrow> rel_row list" where
  "copy_relations originalID dupID rels =
     (if filter (\<lambda>r. rel_FileID r = dupID) rels = []
      then rels @ map (dup_relation dupID) (filter (\<lambda>r. rel_FileID r = originalID) rels)
      else rels)"

definition dup_file_row :: "file_row \<Rightarrow> ai_info_row \<Rightarrow> file_row \<Rightarrow> file_row" where
  "dup_file_row orig origAI r =
     (let r1 = (if ai_FileID origAI \<noteq> [] \<and> ai_Description origAI \<noteq> []
                then r\<lparr>f_description := ai_Description origAI\<rparr> else r)
      in case f_category_id orig of
           None \<Rightarrow> r1\<lparr>f_ai_tagging_status := AITaggingStatusDone\<rparr>
         | Some c \<Rightarrow>
             r1\<lparr>f_ai_tagging_status := AITaggingStatusDone, f_category_id := Some c,
                f_category_source := f_category_source orig\<rparr>)"

subsection \<open>\<open>AiImageTaggingAndSaveWithBase64\<close>\<close>

text \<open>
  The executor for one file. The two provider calls (\<open>performAIImageCategorizationOutsideTx\<close>
  and \<open>performAITagging\<close>) are not in the source; their outcome is a parameter: an error
  message or a value. \<open>buildTaggingContext\<close> only reshapes the category result, which is
  passed on as it is. An error of \<open>saveCategoryResultIfNeeded\<close> or of \<open>processAIResponse\<close>
  is logged and the function goes on.
\<close>

definition AiImageTaggingAndSaveWithBase64 ::
  "env \<Rightarrow> world \<Rightarrow> file_row \<Rightarrow> string \<Rightarrow> string \<Rightarrow> error option \<times> world" where
  "AiImageTaggingAndSaveWithBase64 e w file base64Data imageFormat =
     (if \<not> db_available e then (Some ErrNoDB, w)
      else if \<not> ai_analysis_enabled e then
        (case db_err e S_execSkip (f_id file) of
           Some m \<Rightarrow> (Some (ErrDB m), w)
         | None \<Rightarrow> (None, set_ai_tagging_status w (f_id file) AITaggingStatusSkipped))
      else
        (case performAIImageCategorizationOutsideTx e (f_id file) base64Data imageFormat of
           Inl m \<Rightarrow>
             (None, (case db_err e S_execSkip (f_id file) of
                       Some m' \<Rightarrow> w
                     | None \<Rightarrow> set_ai_tagging_status w (f_id file) AITaggingStatusSkipped))
         | Inr categoryResult \<Rightarrow>
             (case performAITagging e (f_id file) base64Data imageFormat categoryResult of
                Inl m \<Rightarrow>
                  (None, (case db_err e S_execSkip (f_id file) of
                            Some m' \<Rightarrow> w
                          | None \<Rightarrow> set_ai_tagging_status w (f_id file) AITaggingStatusSkipped))
              | Inr aiResponse \<Rightarrow>
                  (case db_err e S_execFileCheck (f_id file) of
                     Some m \<Rightarrow> (Some (ErrDB m), w)
                   | None \<Rightarrow>
                       if filter (\<lambda>r. f_id r = f_id file) (files w) = []
                       then (Some ErrFileDeleted, w)
                       else
                         (let w1 = invoke (SaveCategoryResultIfNeeded (f_id file)) w;
                              w2 = snd (processAIResponse e w1 file aiResponse
                                          (content_detection_enabled e)
                                          (sensitive_content_handling e))
                          in case db_err e S_execDone (f_id file) of
                               Some m \<Rightarrow> (Some (ErrDB m), w2)
                             | None \<Rightarrow>
                                 (None,
                                  set_ai_tagging_status w2 (f_id file) AITaggingStatusDone))))))"

subsection \<open>The queue service\<close>

text \<open>
  Modelled from the spec: \<open>EnqueueUnique\<close> is not in the source. By the spec it "fails
  silently (already-queued, not an error) if the ID is currently queued or in-flight" and
  "fails with QueueFull if the queue is saturated".
\<close>

definition EnqueueUnique :: "TaskQueue \<Rightarrow> file_id \<Rightarrow> error option \<times> TaskQueue" where
  "EnqueueUnique q fileID =
     (if fileID \<in> set (queued q) \<or> fileID \<in> set (in_flight q) then (None, q)
      else if capacity q \<le> length (queued q) then (Some ErrQueueFull, q)
      else (None, q\<lparr>queued := queued q @ [fileID]\<rparr>))"

text \<open>
  \<open>InitGlobalTaggingQueue\<close>. \<open>NewTaggingServiceWithConfig\<close> is not in the source: the service
  it returns (or nil) is a parameter. \<open>Pause\<close> sets the pause flag. The three goroutines
  are recorded as started.
\<close>

definition InitGlobalTaggingQueue :: "env \<Rightarrow> world \<Rightarrow> error option \<times> world" where
  "InitGlobalTaggingQueue e w =
     (if globalTaggingService w \<noteq> None then (None, w)
      else if \<not> ai_enabled e then (None, w)
      else if \<not> db_available e then (Some ErrNoDB, w)
      else (case NewTaggingServiceWithConfig e of
              None \<Rightarrow> (Some ErrCreateService, w)
            | Some svc \<Rightarrow>
                (let svc' = (if \<not> ai_auto_processing_enabled e then svc\<lparr>paused := True\<rparr>
                             else svc)
                 in (None,
                     invoke GoRetentionLoop
                       (invoke GoStuckLoop
                          (invoke GoStartupRecovery
                             (w\<lparr>globalTaggingService := Some svc'\<rparr>)))))))"

text \<open>
  \<open>AddFileToQueue\<close>. \<open>ProcessSingleFile\<close>, \<open>notifyQueueStatsChange\<close> and the broadcast to the
  administrators are calls to code that is not in the source.
\<close>

definition AddFileToQueue :: "env \<Rightarrow> world \<Rightarrow> file_row \<Rightarrow> error option \<times> world" where
  "AddFileToQueue e w file =
     (let w0 = (case globalTaggingService w of
                  None \<Rightarrow> snd (InitGlobalTaggingQueue e w)
                | Some s \<Rightarrow> w)
      in case globalTaggingService w0 of
           None \<Rightarrow> (None, w0)
         | Some svc \<Rightarrow>
             if \<not> db_available e then (Some ErrNoDB, w0)
             else
               (let w1 = (case db_err e S_enqueueMarkPending (f_id file) of
                            Some m \<Rightarrow> w0
                          | None \<Rightarrow>
                              w0\<lparr>files :=
                                    map (\<lambda>r. if f_id r = f_id file
                                             then r\<lparr>f_ai_tagging_status := AITaggingStatusPending,
                                                    f_ai_last_heartbeat_at := time_Now e\<rparr>
                                             else r) (files w0)\<rparr>)
                in case taskQueue svc of
                     Some q \<Rightarrow>
                       (case EnqueueUnique q (f_id file) of
                          (Some err, q') \<Rightarrow>
                            if paused svc then (None, w1)
                            else (None, invoke (ProcessSingleFile (f_id file)) w1)
                        | (None, q') \<Rightarrow>
                            (let w2 = invoke NotifyQueueStatsChange
                                        (w1\<lparr>globalTaggingService :=
                                              Some (svc\<lparr>taskQueue := Some q'\<rparr>)\<rparr>)
                             in if paused svc then (None, invoke (BroadcastToAdmins (f_id file)) w2)
                                else (None, w2)))
                   | None \<Rightarrow>
                       if paused svc then (None, w1)
                       else (None, invoke (ProcessSingleFile (f_id file)) w1)))"

text \<open>
  The body of the stuck-job loop for one tick of its ticker, and the period of the ticker
  in seconds. \<open>ResetStuckPendingFiles\<close> and \<open>EnqueueAllPending\<close> are not in the source: the
  count or error of the former is a parameter, and both are recorded as calls. The loop
  never returns; \<open>stuck_loop\<close> runs it for the ticks that are delivered, each with the
  settings read at that tick.
\<close>

definition stuck_ticker_seconds :: int where
  "stuck_ticker_seconds = 60"

definition stuck_tick :: "env \<Rightarrow> world \<Rightarrow> world" where
  "stuck_tick e w =
     (case globalTaggingService w of
        None \<Rightarrow> w
      | Some s \<Rightarrow>
          (let threshold = pending_stuck_threshold_minutes e;
               w1 = invoke (CallResetStuckPendingFiles threshold) w
           in case ResetStuckPendingFiles e threshold of
                Inl m \<Rightarrow> w1
              | Inr count \<Rightarrow>
                  if count > 0 then
                    (if \<not> paused s then invoke (CallEnqueueAllPending 1000) w1 else w1)
                  else w1))"

definition stuck_loop :: "env list \<Rightarrow> world \<Rightarrow> world" where
  "stuck_loop ticks w = fold stuck_tick ticks w"

text \<open>
  \<open>RecoverPendingOnStartup\<close>. The transaction either commits both of its statements or
  none: on an error the world is the one before. \<open>BatchProcessFiles\<close> is not in the source.
\<close>

definition RecoverPendingOnStartup :: "env \<Rightarrow> world \<Rightarrow> int \<Rightarrow> (int \<times> error option) \<times> world" where
  "RecoverPendingOnStartup e w limit =
     (if \<not> db_available e then ((0, Some ErrNoDB), w)
      else (case db_err e S_recoverPluck [] of
              Some m \<Rightarrow> ((0, Some (ErrDB m)), w)
            | None \<Rightarrow>
                (let q = filter (\<lambda>r. f_ai_tagging_status r = AITaggingStatusPending) (files w);
                     affectedIDs = map f_id (if limit > 0 then take (nat limit) q else q)
                 in if length affectedIDs = 0 then ((0, None), w)
                    else (case db_err e S_recoverUpdate [] of
                            Some m \<Rightarrow> ((0, Some (ErrDB m)), w)
                          | None \<Rightarrow>
                              (let w1 = w\<lparr>files :=
                                            map (\<lambda>r. if f_id r \<in> set affectedIDs
                                                     then r\<lparr>f_ai_tagging_status := AITaggingStatusNone,
                                                            f_ai_tagging_tries := 0\<rparr>
                                                     else r) (files w)\<rparr>;
                                   images = filter (\<lambda>r. f_id r \<in> set affectedIDs) (files w1);
                                   w2 = (if globalTaggingService w1 \<noteq> None \<and>
                                            db_err e S_recoverFind [] = None \<and>
                                            length images > 0
                                         then invoke (BatchProcessFiles (map f_id images)) w1
                                         else w1)
                               in ((int (length affectedIDs), None), w2))))))"

subsection \<open>Concrete inputs\<close>

text \<open>
  Two parsed results: one with a high score that the provider did not flag, one with a
  low score that it flagged; and the responses that carry them.
\<close>

definition result_unflagged :: AITaggingResult where
  "result_unflagged =
     \<lparr>BasicInfo = \<lparr>AspectRatio = 1, EstimatedSize = ''1MB'', Height = 100, ImageType = ''photo'',
                    Resolution = ''100x100'', Width = 100\<rparr>,
      ContentSafety = \<lparr>Categories = \<lparr>AlcoholTobacco = 0, Gambling = 0, HateSpeech = 0,
                                       Nudity = 9 / 10, Violence = 0\<rparr>,
                        EvaluationResult = ''ok'', IsNSFW = False, NSFWScore = 9 / 10,
                        NSFWReason = []\<rparr>,
      Description = ''a cat'', SearchContent = ''a cat'', SemanticKeywords = [''cat''],
      IsRecommended = False, Tags = [''cat''],
      VisualElements = \<lparr>ColorPalette = [], Composition = [], DominantColor = [],
                         ObjectsCount = 1\<rparr>\<rparr>"

definition result_flagged :: AITaggingResult where
  "result_flagged =
     \<lparr>BasicInfo = \<lparr>AspectRatio = 1, EstimatedSize = ''1MB'', Height = 100, ImageType = ''photo'',
                    Resolution = ''100x100'', Width = 100\<rparr>,
      ContentSafety = \<lparr>Categories = \<lparr>AlcoholTobacco = 0, Gambling = 0, HateSpeech = 0,
                                       Nudity = 3 / 10, Violence = 0\<rparr>,
                        EvaluationResult = ''nsfw'', IsNSFW = True, NSFWScore = 3 / 10,
                        NSFWReason = ''beachwear''\<rparr>,
      Description = ''a beach'', SearchContent = ''a beach'', SemanticKeywords = [''beach''],
      IsRecommended = False, Tags = [''beach''],
      VisualElements = \<lparr>ColorPalette = [], Composition = [], DominantColor = [],
                         ObjectsCount = 1\<rparr>\<rparr>"

definition resp_unflagged :: AIFileResponse where
  "resp_unflagged =
     \<lparr>Success = True, ErrMsg = [], RawResponse = ''{}'', Data = ''unflagged'', Usage = None\<rparr>"

definition resp_flagged :: AIFileResponse where
  "resp_flagged =
     \<lparr>Success = True, ErrMsg = [], RawResponse = ''{}'', Data = ''flagged'', Usage = None\<rparr>"

text \<open>
  An unsuccessful response in the provider's reply format, whose single choice starts
  with the first rejection phrase: the content of the choice, and the JSON text around it.
\<close>

definition refusal_content :: string where
  "refusal_content = [CHR 0xE6, CHR 0x8A, CHR 0xB1, CHR 0xE6, CHR 0xAD, CHR 0x89, CHR ''!'']"

definition refusal_raw :: string where
  "refusal_raw =
     [CHR ''{'', CHR 0x22] @ ''choices'' @ [CHR 0x22] @ '':[{'' @ [CHR 0x22] @ ''message'' @
     [CHR 0x22] @ '':{'' @ [CHR 0x22] @ ''content'' @ [CHR 0x22] @ '':'' @ [CHR 0x22] @
     refusal_content @ [CHR 0x22] @ ''}}]}''"

definition resp_refusal :: AIFileResponse where
  "resp_refusal =
     \<lparr>Success = False, ErrMsg = [], RawResponse = refusal_raw, Data = [], Usage = None\<rparr>"

text \<open>
  An environment in which the database works, AI and content detection are enabled, the
  mode is \<open>auto_delete\<close> and the threshold is 0.6. Its decoder knows the refusal above
  and the empty object, and fails on any other text; its parser knows the two results
  above.
\<close>

definition env0 :: env where
  "env0 =
     \<lparr>db_available = True, db_err = (\<lambda>s k. None), time_Now = 1000, ai_enabled = True,
      ai_auto_processing_enabled = True, pending_stuck_threshold_minutes = 5,
      ai_job_retention_days = 14, content_detection_enabled = True,
      sensitive_content_handling = ''auto_delete'', ai_analysis_enabled = True,
      nsfw_threshold = 6 / 10, strings_ToLower = (\<lambda>s. s),
      json_choices =
        (\<lambda>s. if s = refusal_raw then Some [refusal_content]
              else if s = ''{}'' then Some [] else None),
      parseAITaggingResult =
        (\<lambda>d. if d = ''unflagged'' then Inr result_unflagged
              else if d = ''flagged'' then Inr result_flagged
              else Inl ''unexpected end of JSON input''),
      AIDefaultConfidence = 8 / 10,
      NewTaggingServiceWithConfig =
        Some \<lparr>taskQueue = Some \<lparr>queued = [], in_flight = [], capacity = 8\<rparr>, paused = False\<rparr>,
      ResetStuckPendingFiles = (\<lambda>t. Inr 0),
      performAIImageCategorizationOutsideTx = (\<lambda>f b i. Inr ''animals''),
      performAITagging = (\<lambda>f b i c. Inr (Some resp_unflagged))\<rparr>"

definition mk_file :: "file_id \<Rightarrow> file_id \<Rightarrow> string \<Rightarrow> string \<Rightarrow> int \<Rightarrow> file_row" where
  "mk_file i orig st ai tries =
     \<lparr>f_id = i, f_user_id = 1, f_status = st, f_original_file_id = orig, f_resolution = [],
      f_description = [], f_nsfw = False, f_is_recommended = False, f_category_id = None,
      f_category_source = [], f_ai_tagging_status = ai, f_ai_tagging_tries = tries,
      f_ai_last_heartbeat_at = 0\<rparr>"

definition file_A :: file_row where
  "file_A = mk_file ''A'' [] ''active'' ''pending'' 0"

text \<open>One pending file, nothing else, no service.\<close>

definition world0 :: world where
  "world0 =
     \<lparr>files = [file_A], file_ai_info = [], file_global_tag_relation = [], global_tag = [],
      file_tagging_log = [], globalTaggingService = None, calls = []\<rparr>"

text \<open>
  The original \<open>A\<close> after its job, with one AI record and one tag, and three files that
  record \<open>A\<close> as their original: \<open>B\<close> has a tag of its own, \<open>C\<close> is pending deletion,
  \<open>D\<close> has nothing yet.
\<close>

definition world_dups :: world where
  "world_dups =
     \<lparr>files = [mk_file ''A'' [] ''active'' ''done'' 0,
               mk_file ''B'' ''A'' ''active'' ''none'' 0,
               mk_file ''C'' ''A'' ''pending_deletion'' ''none'' 0,
               mk_file ''D'' ''A'' ''active'' ''none'' 0],
      file_ai_info = [(ai_info_of ''A'' result_unflagged None)\<lparr>ai_ID := 1\<rparr>],
      file_global_tag_relation =
        [\<lparr>rel_FileID = ''A'', rel_TagID = 1, rel_UserID = 1, rel_AccessLevel = ''public'',
          rel_Source = ''ai'', rel_Confidence = 8 / 10\<rparr>,
         \<lparr>rel_FileID = ''B'', rel_TagID = 2, rel_UserID = 1, rel_AccessLevel = ''public'',
          rel_Source = ''user'', rel_Confidence = 1\<rparr>],
      global_tag = [\<lparr>tag_ID = 1, tag_Name = ''cat''\<rparr>, \<lparr>tag_ID = 2, tag_Name = ''pet''\<rparr>],
      file_tagging_log = [], globalTaggingService = None, calls = []\<rparr>"

text \<open>Services: a running one with room, and one whose queue takes nothing.\<close>

definition svc_running :: TaggingService where
  "svc_running = \<lparr>taskQueue = Some \<lparr>queued = [], in_flight = [], capacity = 8\<rparr>, paused = False\<rparr>"

definition svc_full :: TaggingService where
  "svc_full = \<lparr>taskQueue = Some \<lparr>queued = [], in_flight = [], capacity = 0\<rparr>, paused = False\<rparr>"

definition svc_full_paused :: TaggingService where
  "svc_full_paused = \<lparr>taskQueue = Some \<lparr>queued = [], in_flight = [], capacity = 0\<rparr>, paused = True\<rparr>"

text \<open>Two pending jobs with used retry budgets and one failed job.\<close>

definition world_pending :: world where
  "world_pending =
     world0\<lparr>files := [mk_file ''A'' [] ''active'' ''pending'' 2,
                       mk_file ''B'' [] ''active'' ''pending'' 1,
                       mk_file ''C'' [] ''active'' ''failed'' 3]\<rparr>"

text \<open>The environment with AI switched off, and the one whose provider is down.\<close>

definition env_disabled :: env where
  "env_disabled = env0\<lparr>ai_enabled := False\<rparr>"

definition env_provider_down :: env where
  "env_provider_down =
     env0\<lparr>performAIImageCategorizationOutsideTx := (\<lambda>f b i. Inl ''timeout'')\<rparr>"

section \<open>Properties\<close>

lemmas AITaggingStatus_defs =
  AITaggingStatusNone_def AITaggingStatusPending_def AITaggingStatusProcessing_def
  AITaggingStatusDone_def AITaggingStatusFailed_def AITaggingStatusSkipped_def

subsection \<open>Status writes and the tries counter\<close>

lemma updateFileStatus_tries:
  "map f_ai_tagging_tries (files (snd (updateFileStatus e w fileID status))) =
     map (\<lambda>r. if fst (updateFileStatus e w fileID status) = None \<and> f_id r = fileID \<and>
                  status = AITaggingStatusFailed
               then f_ai_tagging_tries r + 1 else f_ai_tagging_tries r) (files w)"
  by (auto simp: updateFileStatus_def split: option.splits)

lemma updateFileStatus_seq_tries:
  "db_err e S_updateFileStatus fileID = None \<Longrightarrow>
   map f_ai_tagging_tries
     (files (fold (\<lambda>status w. snd (updateFileStatus e w fileID status)) statuses w)) =
   map (\<lambda>r. if f_id r = fileID
             then f_ai_tagging_tries r + int (count_list statuses AITaggingStatusFailed)
             else f_ai_tagging_tries r) (files w)"
proof (induction statuses arbitrary: w)
  case Nil
  then show ?case by simp
next
  case (Cons s ss)
  have step: "files (snd (updateFileStatus e w fileID s)) =
      map (\<lambda>r. if f_id r = fileID
                then r\<lparr>f_ai_tagging_status := s,
                       f_ai_tagging_tries := (if s = AITaggingStatusFailed
                                              then f_ai_tagging_tries r + 1
                                              else f_ai_tagging_tries r)\<rparr>
                else r) (files w)"
    using Cons.prems by (simp add: updateFileStatus_def)
  show ?case
    using Cons.IH [OF Cons.prems, of "snd (updateFileStatus e w fileID s)"]
    by (simp add: step comp_def cong: if_cong)
qed

subsection \<open>Frames of the statements\<close>

lemma updateFileStatus_frame [simp]:
  "calls (snd (updateFileStatus e w i s)) = calls w"
  "file_ai_info (snd (updateFileStatus e w i s)) = file_ai_info w"
  "file_global_tag_relation (snd (updateFileStatus e w i s)) = file_global_tag_relation w"
  "global_tag (snd (updateFileStatus e w i s)) = global_tag w"
  "file_tagging_log (snd (updateFileStatus e w i s)) = file_tagging_log w"
  "globalTaggingService (snd (updateFileStatus e w i s)) = globalTaggingService w"
  by (simp_all add: updateFileStatus_def split: option.splits)

lemma updateFileNSFWStatus_frame [simp]:
  "calls (snd (updateFileNSFWStatus e w i b)) = calls w"
  "file_ai_info (snd (updateFileNSFWStatus e w i b)) = file_ai_info w"
  "file_global_tag_relation (snd (updateFileNSFWStatus e w i b)) = file_global_tag_relation w"
  "global_tag (snd (updateFileNSFWStatus e w i b)) = global_tag w"
  "file_tagging_log (snd (updateFileNSFWStatus e w i b)) = file_tagging_log w"
  "globalTaggingService (snd (updateFileNSFWStatus e w i b)) = globalTaggingService w"
  "map f_ai_tagging_tries (files (snd (updateFileNSFWStatus e w i b))) = map f_ai_tagging_tries (files w)"
  "map f_ai_tagging_status (files (snd (updateFileNSFWStatus e w i b))) = map f_ai_tagging_status (files w)"
  "map f_id (files (snd (updateFileNSFWStatus e w i b))) = map f_id (files w)"
  by (auto simp: updateFileNSFWStatus_def split: option.splits)

lemma invoke_frame [simp]:
  "calls (invoke c w) = calls w @ [c]"
  "files (invoke c w) = files w"
  "file_ai_info (invoke c w) = file_ai_info w"
  "file_global_tag_relation (invoke c w) = file_global_tag_relation w"
  "global_tag (invoke c w) = global_tag w"
  "file_tagging_log (invoke c w) = file_tagging_log w"
  "globalTaggingService (invoke c w) = globalTaggingService w"
  by (simp_all add: invoke_def)

lemma updateFileStatus_ids [simp]:
  "map f_id (files (snd (updateFileStatus e w i s))) = map f_id (files w)"
  by (auto simp: updateFileStatus_def split: option.splits)

lemma updateFileStatus_other_tries:
  "s \<noteq> AITaggingStatusFailed \<Longrightarrow>
   map f_ai_tagging_tries (files (snd (updateFileStatus e w i s))) = map f_ai_tagging_tries (files w)"
  by (auto simp: updateFileStatus_def split: option.splits)

lemma updateFileStatus_written:
  assumes ok: "db_err e S_updateFileStatus i = None"
    and row: "row \<in> set (files (snd (updateFileStatus e w i s)))"
    and i: "f_id row = i"
  shows "f_ai_tagging_status row = s"
proof -
  from row ok obtain r where r: "r \<in> set (files w)"
    and eq: "row = (if f_id r = i
                    then r\<lparr>f_ai_tagging_status := s,
                           f_ai_tagging_tries := (if s = AITaggingStatusFailed
                                                  then f_ai_tagging_tries r + 1
                                                  else f_ai_tagging_tries r)\<rparr>
                    else r)"
    by (auto simp: updateFileStatus_def)
  show ?thesis
  proof (cases "f_id r = i")
    case True
    with eq show ?thesis by simp
  next
    case False
    with eq i show ?thesis by simp
  qed
qed

subsection \<open>The refusal branch\<close>

lemma processAIResponse_refusal:
  assumes "contentDetectionEnabled" "\<not> Success r" "isNSFWRejection e r"
  shows "processAIResponse e w file (Some r) contentDetectionEnabled mode =
     (Some (ErrNSFWRefused (f_id file)),
      snd (updateFileStatus e
             (if mode = ''auto_delete'' then invoke (MarkFileForDeletion (f_id file)) w
              else if mode = ''pending_review''
                   then invoke (MarkFileForReview (f_id file)
                                  (if ErrMsg r \<noteq> [] then ErrMsg r else default_nsfw_reason))
                          (snd (updateFileNSFWStatus e w (f_id file) True))
                   else snd (updateFileNSFWStatus e w (f_id file) True))
             (f_id file) AITaggingStatusDone))"
  using assms
  by (simp add: processAIResponse_def processAIResponse_unsuccessful_def Let_def)

text \<open>
  C9. With content detection on, an unsuccessful response that \<open>isNSFWRejection\<close>
  recognises as a refusal makes \<open>processAIResponse\<close> return an error although it writes
  the status \<open>done\<close>: the error is returned in every mode, no tries counter changes, and
  when the status write goes through every row of the file has status \<open>done\<close>.
\<close>

theorem C9_refusal_done_and_error:
  assumes "contentDetectionEnabled" "\<not> Success r" "isNSFWRejection e r"
  shows "fst (processAIResponse e w file (Some r) contentDetectionEnabled mode) =
           Some (ErrNSFWRefused (f_id file)) \<and>
         map f_ai_tagging_tries
           (files (snd (processAIResponse e w file (Some r) contentDetectionEnabled mode))) =
           map f_ai_tagging_tries (files w) \<and>
         (db_err e S_updateFileStatus (f_id file) = None \<longrightarrow>
            (\<forall>row \<in> set (files (snd (processAIResponse e w file (Some r)
                                       contentDetectionEnabled mode))).
               f_id row = f_id file \<longrightarrow> f_ai_tagging_status row = AITaggingStatusDone))"
proof -
  have done_not_failed: "AITaggingStatusDone \<noteq> AITaggingStatusFailed"
    by (simp add: AITaggingStatus_defs)
  note eq = processAIResponse_refusal [OF assms, of w "file" mode]
  have 1: "fst (processAIResponse e w file (Some r) contentDetectionEnabled mode) =
           Some (ErrNSFWRefused (f_id file))"
    by (simp add: eq)
  have 2: "map f_ai_tagging_tries
           (files (snd (processAIResponse e w file (Some r) contentDetectionEnabled mode))) =
           map f_ai_tagging_tries (files w)"
    by (simp add: eq updateFileStatus_other_tries [OF done_not_failed])
  have 3: "f_ai_tagging_status row = AITaggingStatusDone"
    if "db_err e S_updateFileStatus (f_id file) = None"
      "row \<in> set (files (snd (processAIResponse e w file (Some r) contentDetectionEnabled mode)))"
      "f_id row = f_id file" for row
    using that(2) unfolding eq snd_conv by (rule updateFileStatus_written [OF that(1) _ that(3)])
  from 1 2 3 show ?thesis by blast
qed

theorem C9_refusal_done_and_error_witness:
  "content_detection_enabled env0 \<and> \<not> Success resp_refusal \<and> isNSFWRejection env0 resp_refusal \<and>
   db_err env0 S_updateFileStatus (f_id file_A) = None \<and>
   fst (processAIResponse env0 world0 file_A (Some resp_refusal) True ''pending_review'') =
     Some (ErrNSFWRefused ''A'') \<and>
   map f_ai_tagging_status
     (files (snd (processAIResponse env0 world0 file_A (Some resp_refusal) True ''pending_review''))) =
     [''done''] \<and>
   map f_ai_tagging_tries
     (files (snd (processAIResponse env0 world0 file_A (Some resp_refusal) True ''pending_review''))) =
     [0]"
proof -
  have a: "content_detection_enabled env0" by (simp add: env0_def)
  have b: "\<not> Success resp_refusal" by (simp add: resp_refusal_def)
  have c: "isNSFWRejection env0 resp_refusal"
    by (simp add: isNSFWRejection_def env0_def resp_refusal_def rejection_phrases_def
        refusal_raw_def refusal_content_def)
  have d: "db_err env0 S_updateFileStatus (f_id file_A) = None" by (simp add: env0_def)
  have f: "files world0 = [file_A]" by (simp add: world0_def)
  have g: "f_id file_A = ''A''" "f_ai_tagging_tries file_A = 0"
    by (simp_all add: file_A_def mk_file_def)
  from C9_refusal_done_and_error [OF _ b c, of True world0 file_A "''pending_review''"] d f g
  have 1: "fst (processAIResponse env0 world0 file_A (Some resp_refusal) True ''pending_review'') =
     Some (ErrNSFWRefused ''A'')"
    and 2: "map f_ai_tagging_tries
     (files (snd (processAIResponse env0 world0 file_A (Some resp_refusal) True ''pending_review''))) =
     [0]"
    and 3: "\<forall>row \<in> set (files (snd (processAIResponse env0 world0 file_A (Some resp_refusal) True
        ''pending_review''))). f_id row = ''A'' \<longrightarrow> f_ai_tagging_status row = AITaggingStatusDone"
    by simp_all
  have 4: "map f_id
     (files (snd (processAIResponse env0 world0 file_A (Some resp_refusal) True ''pending_review''))) =
     [''A'']"
    by (simp add: processAIResponse_refusal [OF _ b c] f g)
  from 3 4 have 5: "map f_ai_tagging_status
     (files (snd (processAIResponse env0 world0 file_A (Some resp_refusal) True ''pending_review''))) =
     [''done'']"
    by (cases "files (snd (processAIResponse env0 world0 file_A (Some resp_refusal) True
        ''pending_review''))") (auto simp: AITaggingStatus_defs)
  from a b c d 1 2 5 show ?thesis by blast
qed

subsection \<open>The successful run of \<open>processAIResponse\<close>\<close>

lemma saveFileAIInfo_frame [simp]:
  "calls (snd (saveFileAIInfo e w i res u)) = calls w"
  "files (snd (saveFileAIInfo e w i res u)) = files w"
  "file_global_tag_relation (snd (saveFileAIInfo e w i res u)) = file_global_tag_relation w"
  "global_tag (snd (saveFileAIInfo e w i res u)) = global_tag w"
  "file_tagging_log (snd (saveFileAIInfo e w i res u)) = file_tagging_log w"
  "globalTaggingService (snd (saveFileAIInfo e w i res u)) = globalTaggingService w"
  by (simp_all add: saveFileAIInfo_def split: option.splits)

lemma CreateTagsFromNames_frame [simp]:
  "calls (snd (CreateTagsFromNames e w ns u src)) = calls w"
  "files (snd (CreateTagsFromNames e w ns u src)) = files w"
  "file_global_tag_relation (snd (CreateTagsFromNames e w ns u src)) = file_global_tag_relation w"
  "file_ai_info (snd (CreateTagsFromNames e w ns u src)) = file_ai_info w"
  "file_tagging_log (snd (CreateTagsFromNames e w ns u src)) = file_tagging_log w"
  "globalTaggingService (snd (CreateTagsFromNames e w ns u src)) = globalTaggingService w"
  by (simp_all add: CreateTagsFromNames_def split: option.splits prod.splits)

lemma ReplaceFileTagsTx_frame [simp]:
  "calls (snd (ReplaceFileTagsTx e w i ts src c)) = calls w"
  "files (snd (ReplaceFileTagsTx e w i ts src c)) = files w"
  "global_tag (snd (ReplaceFileTagsTx e w i ts src c)) = global_tag w"
  "file_ai_info (snd (ReplaceFileTagsTx e w i ts src c)) = file_ai_info w"
  "file_tagging_log (snd (ReplaceFileTagsTx e w i ts src c)) = file_tagging_log w"
  "globalTaggingService (snd (ReplaceFileTagsTx e w i ts src c)) = globalTaggingService w"
  by (simp_all add: ReplaceFileTagsTx_def split: option.splits)

lemma processAndSaveTags_snd:
  "snd (processAndSaveTags e w file tags) =
     (if tags = [] then w
      else case fst (CreateTagsFromNames e w tags (f_user_id file) ''ai'') of
             Inl m \<Rightarrow> snd (CreateTagsFromNames e w tags (f_user_id file) ''ai'')
           | Inr ids \<Rightarrow>
               snd (ReplaceFileTagsTx e (snd (CreateTagsFromNames e w tags (f_user_id file) ''ai''))
                      (f_id file) ids ''ai'' (AIDefaultConfidence e)))"
  by (simp add: processAndSaveTags_def split: prod.splits sum.splits option.splits)

lemma processAndSaveTags_frame [simp]:
  "calls (snd (processAndSaveTags e w file tags)) = calls w"
  "files (snd (processAndSaveTags e w file tags)) = files w"
  "file_ai_info (snd (processAndSaveTags e w file tags)) = file_ai_info w"
  "file_tagging_log (snd (processAndSaveTags e w file tags)) = file_tagging_log w"
  "globalTaggingService (snd (processAndSaveTags e w file tags)) = globalTaggingService w"
  by (simp_all add: processAndSaveTags_snd split: sum.splits)

lemma pair_eqD: "p = (a, b) \<Longrightarrow> a = fst p \<and> b = snd p"
  by simp

lemma save_failed_not_None: "save_failed e w i m \<noteq> (None, w')"
  by (simp add: save_failed_def)

lemma recommended_frame:
  assumes "processAIResponse_recommended e w file result = (None, w')"
  shows "calls w' = calls w" "file_ai_info w' = file_ai_info w"
    "file_global_tag_relation w' = file_global_tag_relation w" "global_tag w' = global_tag w"
  using assms
  by (auto simp: processAIResponse_recommended_def split: if_splits option.splits)

lemma tags_stage_calls:
  assumes "processAIResponse_tags e w file result cde mode = (None, w')"
  shows "calls w' = calls w @
           (if cde \<and> IsNSFW (ContentSafety result)
            then (if mode = ''auto_delete'' then [MarkFileForDeletion (f_id file)]
                  else if mode = ''pending_review''
                       then [MarkFileForReview (f_id file) (NSFWReason (ContentSafety result))]
                       else [])
            else [])"
proof -
  have tags: "calls w1 = calls w0"
    if "processAndSaveTags e w0 file (Tags result) = (None, w1)" for w0 w1
    using processAndSaveTags_frame(1) [of e w0 "file" "Tags result"] that by simp
  show ?thesis
  proof (cases "\<not> cde \<or> \<not> IsNSFW (ContentSafety result)")
    case True
    with assms show ?thesis
      by (auto simp: processAIResponse_tags_def save_failed_not_None
          split: prod.splits option.splits dest: tags)
  next
    case False
    with assms show ?thesis
      by (auto simp: processAIResponse_tags_def save_failed_not_None
          split: prod.splits option.splits if_splits dest: tags)
  qed
qed

lemma finish_calls:
  assumes "processAIResponse_finish e w file r result cde = (None, w')"
  shows "calls w' = calls w @
           (if Description result \<noteq> []
            then [CreatePendingVectorRecord (f_id file) (Description result)] else []) @
           [GoPropagateAIToDuplicates (f_id file)]"
    and "file_global_tag_relation w' = file_global_tag_relation w"
    and "global_tag w' = global_tag w"
  using assms
  by (auto simp: processAIResponse_finish_def save_failed_not_None Let_def
      split: prod.splits option.splits if_splits dest!: pair_eqD)


lemma processAIResponse_success_decomp:
  assumes "Success r" and "parseAITaggingResult e (Data r) = Inr parsed"
    and "processAIResponse e w file (Some r) cde mode = (None, w')"
    and "result = (if f_resolution file \<noteq> []
                   then parsed\<lparr>BasicInfo := (BasicInfo parsed)\<lparr>Resolution := f_resolution file\<rparr>\<rparr>
                   else parsed)"
  obtains w1 w2 w3 where
    "saveFileAIInfo e w (f_id file) result (Usage r) = (None, w1)"
    "processAIResponse_recommended e w1 file result = (None, w2)"
    "processAIResponse_tags e w2 file result cde mode = (None, w3)"
    "processAIResponse_finish e w3 file r result cde = (None, w')"
proof -
  obtain a w1 where 1: "saveFileAIInfo e w (f_id file) result (Usage r) = (a, w1)"
    by (cases "saveFileAIInfo e w (f_id file) result (Usage r)")
  obtain b w2 where 2: "processAIResponse_recommended e w1 file result = (b, w2)"
    by (cases "processAIResponse_recommended e w1 file result")
  obtain c w3 where 3: "processAIResponse_tags e w2 file result cde mode = (c, w3)"
    by (cases "processAIResponse_tags e w2 file result cde mode")
  from assms(1,2,3) 1 have a: "a = None"
    by (cases a) (simp_all add: processAIResponse_def assms(4) [symmetric] save_failed_not_None)
  from assms(1,2,3) 1 2 a have b: "b = None"
    by (cases b) (simp_all add: processAIResponse_def assms(4) [symmetric])
  from assms(1,2,3) 1 2 3 a b have c: "c = None"
    by (cases c) (simp_all add: processAIResponse_def assms(4) [symmetric])
  from assms(1,2,3) 1 2 3 a b c
  have 4: "processAIResponse_finish e w3 file r result cde = (None, w')"
    by (simp add: processAIResponse_def assms(4) [symmetric])
  from 1 2 3 4 a b c that show thesis by simp
qed

lemma result_fields:
  "ContentSafety (if c then parsed\<lparr>BasicInfo := b\<rparr> else parsed) = ContentSafety parsed"
  "Description (if c then parsed\<lparr>BasicInfo := b\<rparr> else parsed) = Description parsed"
  "Tags (if c then parsed\<lparr>BasicInfo := b\<rparr> else parsed) = Tags parsed"
  by simp_all

lemma processAIResponse_success_calls:
  assumes "Success r" and "parseAITaggingResult e (Data r) = Inr parsed"
    and "processAIResponse e w file (Some r) cde mode = (None, w')"
  shows "calls w' = calls w @
           (if cde \<and> IsNSFW (ContentSafety parsed)
            then (if mode = ''auto_delete'' then [MarkFileForDeletion (f_id file)]
                  else if mode = ''pending_review''
                       then [MarkFileForReview (f_id file) (NSFWReason (ContentSafety parsed))]
                       else [])
            else []) @
           (if Description parsed \<noteq> []
            then [CreatePendingVectorRecord (f_id file) (Description parsed)] else []) @
           [GoPropagateAIToDuplicates (f_id file)]"
proof -
  define result where
    "result = (if f_resolution file \<noteq> []
               then parsed\<lparr>BasicInfo := (BasicInfo parsed)\<lparr>Resolution := f_resolution file\<rparr>\<rparr>
               else parsed)"
  have f: "ContentSafety result = ContentSafety parsed" "Description result = Description parsed"
    by (simp_all add: result_def)
  from assms result_def show ?thesis
  proof (rule processAIResponse_success_decomp)
    fix w1 w2 w3
    assume 1: "saveFileAIInfo e w (f_id file) result (Usage r) = (None, w1)"
      and 2: "processAIResponse_recommended e w1 file result = (None, w2)"
      and 3: "processAIResponse_tags e w2 file result cde mode = (None, w3)"
      and 4: "processAIResponse_finish e w3 file r result cde = (None, w')"
    have c1: "calls w1 = calls w"
      using saveFileAIInfo_frame(1) [of e w "f_id file" result "Usage r"] 1 by simp
    have c2: "calls w2 = calls w1" by (rule recommended_frame(1) [OF 2])
    show ?thesis
      by (simp add: finish_calls(1) [OF 4] tags_stage_calls [OF 3] c2 c1 f)
  qed
qed

subsection \<open>Three runs on concrete inputs\<close>

lemmas eval_defs =
  processAIResponse_def processAIResponse_recommended_def processAIResponse_tags_def
  processAIResponse_finish_def processAIResponse_unsuccessful_def save_failed_def
  saveFileAIInfo_def ai_info_of_def upsert_ai_info_def next_id_def processAndSaveTags_def
  CreateTagsFromNames_def ReplaceFileTagsTx_def updateFileStatus_def
  updateFileNSFWStatus_def invoke_def Let_def
  env0_def world0_def file_A_def mk_file_def resp_flagged_def resp_unflagged_def
  result_flagged_def result_unflagged_def AITaggingStatusDone_def AITaggingStatusFailed_def

lemma eval_flagged_auto_delete:
  "processAIResponse env0 world0 file_A (Some resp_flagged) True ''auto_delete'' =
   (None,
    world0\<lparr>files := [file_A\<lparr>f_nsfw := True, f_ai_tagging_status := ''done''\<rparr>],
           file_ai_info :=
             [(ai_info_of ''A'' result_flagged None)\<lparr>ai_ID := 1\<rparr>],
           calls := [MarkFileForDeletion ''A'', CreatePendingVectorRecord ''A'' ''a beach'',
                     GoPropagateAIToDuplicates ''A'']\<rparr>)"
  by (simp add: eval_defs)

lemma eval_unflagged_auto_delete:
  "processAIResponse env0 world0 file_A (Some resp_unflagged) True ''auto_delete'' =
   (None,
    world0\<lparr>files := [file_A\<lparr>f_ai_tagging_status := ''done''\<rparr>],
           file_ai_info :=
             [(ai_info_of ''A'' result_unflagged None)\<lparr>ai_ID := 1\<rparr>],
           file_global_tag_relation :=
             [\<lparr>rel_FileID = ''A'', rel_TagID = 1, rel_UserID = 0, rel_AccessLevel = [],
               rel_Source = ''ai'', rel_Confidence = 8 / 10\<rparr>],
           global_tag := [\<lparr>tag_ID = 1, tag_Name = ''cat''\<rparr>],
           calls := [CreatePendingVectorRecord ''A'' ''a cat'', GoPropagateAIToDuplicates ''A'']\<rparr>)"
  by (simp add: eval_defs)

lemma eval_flagged_mark_only:
  "processAIResponse env0 world0 file_A (Some resp_flagged) True ''mark_only'' =
   (None,
    world0\<lparr>files := [file_A\<lparr>f_nsfw := True, f_ai_tagging_status := ''done''\<rparr>],
           file_ai_info :=
             [(ai_info_of ''A'' result_flagged None)\<lparr>ai_ID := 1\<rparr>],
           file_global_tag_relation :=
             [\<lparr>rel_FileID = ''A'', rel_TagID = 1, rel_UserID = 0, rel_AccessLevel = [],
               rel_Source = ''ai'', rel_Confidence = 8 / 10\<rparr>],
           global_tag := [\<lparr>tag_ID = 1, tag_Name = ''beach''\<rparr>],
           calls := [CreatePendingVectorRecord ''A'' ''a beach'', GoPropagateAIToDuplicates ''A'']\<rparr>)"
  by (simp add: eval_defs)

subsection \<open>The decision under \<open>auto_delete\<close>\<close>

text \<open>
  C1 (amended). \<open>processAIResponse\<close> takes no threshold and does not read the score.
  Under mode \<open>auto_delete\<close>, a run over a successful response that parses and that
  returns nil marks the file for deletion exactly when content detection is enabled and
  the parsed result has \<open>is_nsfw\<close> set; it never sends the file to review.
\<close>

theorem C1_auto_delete_follows_the_flag:
  assumes "Success r" and "parseAITaggingResult e (Data r) = Inr parsed"
    and "processAIResponse e w file (Some r) contentDetectionEnabled ''auto_delete'' = (None, w')"
  shows "(MarkFileForDeletion (f_id file) \<in> set (drop (length (calls w)) (calls w')) \<longleftrightarrow>
            contentDetectionEnabled \<and> IsNSFW (ContentSafety parsed)) \<and>
         (\<forall>reason. MarkFileForReview (f_id file) reason \<notin> set (drop (length (calls w)) (calls w')))"
  unfolding processAIResponse_success_calls [OF assms] by simp


theorem C1_auto_delete_follows_the_flag_witness:
  "Success resp_flagged \<and> parseAITaggingResult env0 (Data resp_flagged) = Inr result_flagged \<and>
   fst (processAIResponse env0 world0 file_A (Some resp_flagged) True ''auto_delete'') = None \<and>
   IsNSFW (ContentSafety result_flagged) \<and>
   MarkFileForDeletion (f_id file_A) \<in>
     set (drop (length (calls world0))
            (calls (snd (processAIResponse env0 world0 file_A (Some resp_flagged) True
                           ''auto_delete''))))"
proof -
  have 1: "Success resp_flagged" by (simp add: resp_flagged_def)
  have 2: "parseAITaggingResult env0 (Data resp_flagged) = Inr result_flagged"
    by (simp add: env0_def resp_flagged_def)
  have 3: "IsNSFW (ContentSafety result_flagged)" by (simp add: result_flagged_def)
  from C1_auto_delete_follows_the_flag [OF 1 2 eval_flagged_auto_delete] 1 2 3
  show ?thesis by (simp add: eval_flagged_auto_delete)
qed

text \<open>
  The claim as the spec states it fails: with mode \<open>auto_delete\<close>, content detection on
  and threshold 0.6, a result with score 0.9 that is not flagged is not marked for
  deletion, and a result with score 0.3 that is flagged is.
\<close>

theorem C1_score_above_threshold_not_deleted:
  "sensitive_content_handling env0 = ''auto_delete'' \<and>
   nsfw_threshold env0 \<le> NSFWScore (ContentSafety result_unflagged) \<and>
   parseAITaggingResult env0 (Data resp_unflagged) = Inr result_unflagged \<and>
   MarkFileForDeletion ''A'' \<notin>
     set (calls (snd (processAIResponse env0 world0 file_A (Some resp_unflagged)
                        (content_detection_enabled env0) (sensitive_content_handling env0)))) \<and>
   NSFWScore (ContentSafety result_flagged) < nsfw_threshold env0 \<and>
   parseAITaggingResult env0 (Data resp_flagged) = Inr result_flagged \<and>
   MarkFileForDeletion ''A'' \<in>
     set (calls (snd (processAIResponse env0 world0 file_A (Some resp_flagged)
                        (content_detection_enabled env0) (sensitive_content_handling env0))))"
proof -
  have s: "sensitive_content_handling env0 = ''auto_delete''" "content_detection_enabled env0"
    "nsfw_threshold env0 = 6 / 10"
    "parseAITaggingResult env0 (Data resp_unflagged) = Inr result_unflagged"
    "parseAITaggingResult env0 (Data resp_flagged) = Inr result_flagged"
    by (simp_all add: env0_def resp_unflagged_def resp_flagged_def)
  have r: "NSFWScore (ContentSafety result_unflagged) = 9 / 10"
    "NSFWScore (ContentSafety result_flagged) = 3 / 10"
    by (simp_all add: result_unflagged_def result_flagged_def)
  show ?thesis
    by (simp add: s r eval_flagged_auto_delete eval_unflagged_auto_delete)
qed

subsection \<open>Tags of a flagged file\<close>

lemma processAndSaveTags_rels:
  assumes "processAndSaveTags e w0 file tags = (None, w1)"
  shows "tags \<noteq> [] \<Longrightarrow>
         file_global_tag_relation w1 =
           filter (\<lambda>rel. rel_FileID rel \<noteq> f_id file) (file_global_tag_relation w0) @
           map (\<lambda>t. \<lparr>rel_FileID = f_id file, rel_TagID = t, rel_UserID = 0,
                     rel_AccessLevel = [], rel_Source = ''ai'',
                     rel_Confidence = AIDefaultConfidence e\<rparr>)
             (fst (create_tags tags (global_tag w0)))"
  using assms
  by (auto simp: processAndSaveTags_def CreateTagsFromNames_def ReplaceFileTagsTx_def
      split: prod.splits sum.splits option.splits if_splits)

lemma tags_stage_rels:
  assumes "processAIResponse_tags e w file result cde mode = (None, w')"
  shows "cde \<Longrightarrow> IsNSFW (ContentSafety result) \<Longrightarrow> mode = ''auto_delete'' \<Longrightarrow>
           file_global_tag_relation w' = file_global_tag_relation w \<and>
           global_tag w' = global_tag w"
    and "\<not> (cde \<and> IsNSFW (ContentSafety result) \<and> mode = ''auto_delete'') \<Longrightarrow>
         Tags result \<noteq> [] \<Longrightarrow>
           file_global_tag_relation w' =
             filter (\<lambda>rel. rel_FileID rel \<noteq> f_id file) (file_global_tag_relation w) @
             map (\<lambda>t. \<lparr>rel_FileID = f_id file, rel_TagID = t, rel_UserID = 0,
                       rel_AccessLevel = [], rel_Source = ''ai'',
                       rel_Confidence = AIDefaultConfidence e\<rparr>)
               (fst (create_tags (Tags result) (global_tag w)))"
proof -
  show "cde \<Longrightarrow> IsNSFW (ContentSafety result) \<Longrightarrow> mode = ''auto_delete'' \<Longrightarrow>
           file_global_tag_relation w' = file_global_tag_relation w \<and>
           global_tag w' = global_tag w"
    using assms by (auto simp: processAIResponse_tags_def)
next
  assume n: "\<not> (cde \<and> IsNSFW (ContentSafety result) \<and> mode = ''auto_delete'')"
    and t: "Tags result \<noteq> []"
  have saved: "file_global_tag_relation w1 =
             filter (\<lambda>rel. rel_FileID rel \<noteq> f_id file) (file_global_tag_relation w0) @
             map (\<lambda>t. \<lparr>rel_FileID = f_id file, rel_TagID = t, rel_UserID = 0,
                       rel_AccessLevel = [], rel_Source = ''ai'',
                       rel_Confidence = AIDefaultConfidence e\<rparr>)
               (fst (create_tags (Tags result) (global_tag w0)))"
    if "processAndSaveTags e w0 file (Tags result) = (None, w1)" for w0 w1
    by (rule processAndSaveTags_rels [OF that t])
  from assms n show "file_global_tag_relation w' =
             filter (\<lambda>rel. rel_FileID rel \<noteq> f_id file) (file_global_tag_relation w) @
             map (\<lambda>t. \<lparr>rel_FileID = f_id file, rel_TagID = t, rel_UserID = 0,
                       rel_AccessLevel = [], rel_Source = ''ai'',
                       rel_Confidence = AIDefaultConfidence e\<rparr>)
               (fst (create_tags (Tags result) (global_tag w)))"
    by (auto simp: processAIResponse_tags_def save_failed_not_None
        split: prod.splits option.splits if_splits dest: saved)
qed

subsection \<open>A provider failure in the executor\<close>

lemma set_ai_tagging_status_frame [simp]:
  "calls (set_ai_tagging_status w i s) = calls w"
  "map f_ai_tagging_tries (files (set_ai_tagging_status w i s)) = map f_ai_tagging_tries (files w)"
  "map f_id (files (set_ai_tagging_status w i s)) = map f_id (files w)"
  by (auto simp: set_ai_tagging_status_def)

lemma set_ai_tagging_status_written:
  assumes "row \<in> set (files (set_ai_tagging_status w i s))" and "f_id row = i"
  shows "f_ai_tagging_status row = s"
proof -
  from assms(1) obtain r where "r \<in> set (files w)"
    and eq: "row = (if f_id r = i then r\<lparr>f_ai_tagging_status := s\<rparr> else r)"
    by (auto simp: set_ai_tagging_status_def)
  show ?thesis
  proof (cases "f_id r = i")
    case True
    with eq show ?thesis by simp
  next
    case False
    with eq assms(2) show ?thesis by simp
  qed
qed

lemma provider_failure_result:
  assumes "db_available e" and "ai_analysis_enabled e"
    and "case performAIImageCategorizationOutsideTx e (f_id file) base64Data imageFormat of
           Inl m \<Rightarrow> True
         | Inr c \<Rightarrow> isl (performAITagging e (f_id file) base64Data imageFormat c)"
  shows "AiImageTaggingAndSaveWithBase64 e w file base64Data imageFormat =
           (None, if db_err e S_execSkip (f_id file) = None
                  then set_ai_tagging_status w (f_id file) AITaggingStatusSkipped else w)"
  using assms
  by (simp add: AiImageTaggingAndSaveWithBase64_def isl_def split: sum.splits option.splits)
    auto

text \<open>
  C3 (amended). When the categorisation call or the tagging call of the provider returns
  an error, \<open>AiImageTaggingAndSaveWithBase64\<close> returns nil, not an error; it leaves every
  tries counter as it was, calls nothing else, and (when its status write goes through)
  leaves the job with the terminal status \<open>skipped\<close>.
\<close>

theorem C3_provider_failure_skips:
  assumes "db_available e" and "ai_analysis_enabled e"
    and "case performAIImageCategorizationOutsideTx e (f_id file) base64Data imageFormat of
           Inl m \<Rightarrow> True
         | Inr c \<Rightarrow> isl (performAITagging e (f_id file) base64Data imageFormat c)"
  shows "fst (AiImageTaggingAndSaveWithBase64 e w file base64Data imageFormat) = None \<and>
         map f_ai_tagging_tries
           (files (snd (AiImageTaggingAndSaveWithBase64 e w file base64Data imageFormat))) =
           map f_ai_tagging_tries (files w) \<and>
         calls (snd (AiImageTaggingAndSaveWithBase64 e w file base64Data imageFormat)) = calls w \<and>
         (db_err e S_execSkip (f_id file) = None \<longrightarrow>
            (\<forall>row \<in> set (files (snd (AiImageTaggingAndSaveWithBase64 e w file base64Data
                                       imageFormat))).
               f_id row = f_id file \<longrightarrow> f_ai_tagging_status row = AITaggingStatusSkipped))"
  unfolding provider_failure_result [OF assms]
  by (auto dest: set_ai_tagging_status_written)

theorem C3_provider_failure_skips_witness:
  "db_available env_provider_down \<and> ai_analysis_enabled env_provider_down \<and>
   performAIImageCategorizationOutsideTx env_provider_down (f_id file_A) ''img'' ''png'' =
     Inl ''timeout'' \<and>
   db_err env_provider_down S_execSkip (f_id file_A) = None \<and>
   fst (AiImageTaggingAndSaveWithBase64 env_provider_down world0 file_A ''img'' ''png'') = None \<and>
   map f_ai_tagging_tries
     (files (snd (AiImageTaggingAndSaveWithBase64 env_provider_down world0 file_A ''img'' ''png''))) =
     [0] \<and>
   map f_ai_tagging_status
     (files (snd (AiImageTaggingAndSaveWithBase64 env_provider_down world0 file_A ''img'' ''png''))) =
     [''skipped'']"
proof -
  have 1: "db_available env_provider_down" "ai_analysis_enabled env_provider_down"
    "db_err env_provider_down S_execSkip (f_id file_A) = None"
    by (simp_all add: env_provider_down_def env0_def)
  have 2: "performAIImageCategorizationOutsideTx env_provider_down (f_id file_A) ''img'' ''png'' =
     Inl ''timeout''"
    by (simp add: env_provider_down_def)
  have 3: "case performAIImageCategorizationOutsideTx env_provider_down (f_id file_A) ''img''
                  ''png'' of
             Inl m \<Rightarrow> True
           | Inr c \<Rightarrow> isl (performAITagging env_provider_down (f_id file_A) ''img'' ''png'' c)"
    by (simp add: 2)
  have 4: "map f_ai_tagging_tries (files world0) = [0]"
    by (simp add: world0_def file_A_def mk_file_def)
  have 5: "map f_ai_tagging_status
     (files (snd (AiImageTaggingAndSaveWithBase64 env_provider_down world0 file_A ''img'' ''png''))) =
     [''skipped'']"
    by (subst provider_failure_result [OF 1(1,2) 3])
      (simp add: env_provider_down_def env0_def set_ai_tagging_status_def world0_def
        file_A_def mk_file_def AITaggingStatusSkipped_def)
  from C3_provider_failure_skips [OF 1(1,2) 3, of world0] 1 2 4 5 show ?thesis by simp
qed

text \<open>
  The claim as the spec states it fails: with the provider down, the first and only
  failure of a file with no tries so far ends in nil and status \<open>skipped\<close>.
\<close>

theorem C3_provider_failure_returns_nil_and_skips:
  "performAIImageCategorizationOutsideTx env_provider_down ''A'' ''img'' ''png'' = Inl ''timeout'' \<and>
   f_ai_tagging_tries file_A = 0 \<and> f_ai_tagging_tries file_A < AIMaxRetries \<and>
   AiImageTaggingAndSaveWithBase64 env_provider_down world0 file_A ''img'' ''png'' =
     (None, world0\<lparr>files := [file_A\<lparr>f_ai_tagging_status := AITaggingStatusSkipped\<rparr>]\<rparr>)"
  by (simp add: AiImageTaggingAndSaveWithBase64_def env_provider_down_def env0_def
      set_ai_tagging_status_def world0_def file_A_def mk_file_def AIMaxRetries_def)

subsection \<open>Enqueueing a file\<close>

lemma updated_rowE:
  assumes "row \<in> set (map (\<lambda>r. if f_id r = i then upd r else r) xs)" and "f_id row = i"
  obtains r where "r \<in> set xs" and "row = upd r"
  using assms by (induction xs) (auto split: if_splits)

lemma AddFileToQueue_no_service:
  assumes "globalTaggingService w = None" and "\<not> ai_enabled e"
  shows "AddFileToQueue e w file = (None, w)"
  using assms by (simp add: AddFileToQueue_def InitGlobalTaggingQueue_def)

lemma AddFileToQueue_service:
  assumes "globalTaggingService w = Some svc" and "db_available e"
  shows "fst (AddFileToQueue e w file) = None"
    and "calls (snd (AddFileToQueue e w file)) =
           calls w @
           (case taskQueue svc of
              None \<Rightarrow> (if paused svc then [] else [ProcessSingleFile (f_id file)])
            | Some q \<Rightarrow>
                (case fst (EnqueueUnique q (f_id file)) of
                   Some err \<Rightarrow> (if paused svc then [] else [ProcessSingleFile (f_id file)])
                 | None \<Rightarrow>
                     NotifyQueueStatsChange #
                     (if paused svc then [BroadcastToAdmins (f_id file)] else [])))"
    and "files (snd (AddFileToQueue e w file)) =
           (case db_err e S_enqueueMarkPending (f_id file) of
              Some m \<Rightarrow> files w
            | None \<Rightarrow>
                map (\<lambda>r. if f_id r = f_id file
                         then r\<lparr>f_ai_tagging_status := AITaggingStatusPending,
                                f_ai_last_heartbeat_at := time_Now e\<rparr>
                         else r) (files w))"
  using assms
  by (simp_all add: AddFileToQueue_def Let_def invoke_def split: option.splits prod.splits)

text \<open>
  C2 (amended). Without a service and with AI disabled, \<open>AddFileToQueue\<close> returns nil and
  writes nothing: the job is not marked skipped. With a service and a database, it
  returns nil, first marks the job pending (when that write goes through), and then:
  if the queue rejects the id, or there is no queue, the file is processed directly by
  \<open>ProcessSingleFile\<close> only when the service is not paused; while it is paused nothing is
  run, and the file stays pending. An accepted id is only announced.
\<close>

theorem C2_enqueue_outcomes:
  "(globalTaggingService w = None \<and> \<not> ai_enabled e \<longrightarrow> AddFileToQueue e w file = (None, w)) \<and>
   (globalTaggingService w = Some svc \<and> db_available e \<longrightarrow>
      fst (AddFileToQueue e w file) = None \<and>
      (db_err e S_enqueueMarkPending (f_id file) = None \<longrightarrow>
         (\<forall>row \<in> set (files (snd (AddFileToQueue e w file))).
            f_id row = f_id file \<longrightarrow> f_ai_tagging_status row = AITaggingStatusPending)) \<and>
      calls (snd (AddFileToQueue e w file)) =
        calls w @
        (case taskQueue svc of
           None \<Rightarrow> (if paused svc then [] else [ProcessSingleFile (f_id file)])
         | Some q \<Rightarrow>
             (case fst (EnqueueUnique q (f_id file)) of
                Some err \<Rightarrow> (if paused svc then [] else [ProcessSingleFile (f_id file)])
              | None \<Rightarrow>
                  NotifyQueueStatsChange #
                  (if paused svc then [BroadcastToAdmins (f_id file)] else []))))"
proof -
  have pending: "f_ai_tagging_status row = AITaggingStatusPending"
    if svc: "globalTaggingService w = Some svc" and db: "db_available e"
      and ok: "db_err e S_enqueueMarkPending (f_id file) = None"
      and row: "row \<in> set (files (snd (AddFileToQueue e w file)))"
      and i: "f_id row = f_id file" for row
  proof -
    from row ok
    have "row \<in> set (map (\<lambda>r. if f_id r = f_id file
                                then r\<lparr>f_ai_tagging_status := AITaggingStatusPending,
                                       f_ai_last_heartbeat_at := time_Now e\<rparr>
                                else r) (files w))"
      by (simp add: AddFileToQueue_service(3) [OF svc db])
    then obtain r where "row = r\<lparr>f_ai_tagging_status := AITaggingStatusPending,
                                    f_ai_last_heartbeat_at := time_Now e\<rparr>"
      using i by (rule updated_rowE)
    then show ?thesis by simp
  qed
  show ?thesis
    using AddFileToQueue_no_service [of w e "file"]
      AddFileToQueue_service(1,2) [of w svc e "file"] pending
    by blast
qed

theorem C2_enqueue_outcomes_witness:
  "(globalTaggingService world0 = None \<and> \<not> ai_enabled env_disabled) \<and>
   AddFileToQueue env_disabled world0 file_A = (None, world0) \<and>
   (globalTaggingService (world0\<lparr>globalTaggingService := Some svc_full\<rparr>) = Some svc_full \<and>
    db_available env0) \<and>
   db_err env0 S_enqueueMarkPending (f_id file_A) = None \<and>
   fst (EnqueueUnique \<lparr>queued = [], in_flight = [], capacity = 0\<rparr> (f_id file_A)) =
     Some ErrQueueFull \<and>
   \<not> paused svc_full \<and>
   fst (AddFileToQueue env0 (world0\<lparr>globalTaggingService := Some svc_full\<rparr>) file_A) = None \<and>
   calls (snd (AddFileToQueue env0 (world0\<lparr>globalTaggingService := Some svc_full\<rparr>) file_A)) =
     [ProcessSingleFile ''A'']"
proof -
  have 1: "globalTaggingService world0 = None" "\<not> ai_enabled env_disabled"
    "db_available env0" "db_err env0 S_enqueueMarkPending (f_id file_A) = None"
    "calls world0 = []" "f_id file_A = ''A''"
    by (simp_all add: world0_def env_disabled_def env0_def file_A_def mk_file_def)
  have 2: "taskQueue svc_full = Some \<lparr>queued = [], in_flight = [], capacity = 0\<rparr>"
    "\<not> paused svc_full"
    by (simp_all add: svc_full_def)
  have 3: "fst (EnqueueUnique \<lparr>queued = [], in_flight = [], capacity = 0\<rparr> (f_id file_A)) =
     Some ErrQueueFull"
    by (simp add: EnqueueUnique_def)
  from C2_enqueue_outcomes [of world0 env_disabled file_A svc_full]
    C2_enqueue_outcomes [of "world0\<lparr>globalTaggingService := Some svc_full\<rparr>" env0 file_A svc_full]
    1 2 3
  show ?thesis by simp
qed

text \<open>
  The claim as the spec states it fails twice: a paused service whose queue is full
  leaves the file pending and runs nothing; and with AI disabled and no service the job
  of \<open>B\<close> keeps the status \<open>none\<close>, it is not marked skipped.
\<close>

theorem C2_paused_or_disabled_not_run_not_skipped:
  "paused svc_full_paused \<and>
   fst (EnqueueUnique \<lparr>queued = [], in_flight = [], capacity = 0\<rparr> ''A'') = Some ErrQueueFull \<and>
   AddFileToQueue env0 (world0\<lparr>globalTaggingService := Some svc_full_paused\<rparr>) file_A =
     (None, world0\<lparr>files := [file_A\<lparr>f_ai_last_heartbeat_at := 1000\<rparr>],
                   globalTaggingService := Some svc_full_paused\<rparr>) \<and>
   calls (world0\<lparr>files := [file_A\<lparr>f_ai_last_heartbeat_at := 1000\<rparr>],
                 globalTaggingService := Some svc_full_paused\<rparr>) = [] \<and>
   \<not> ai_enabled env_disabled \<and> globalTaggingService world_dups = None \<and>
   AddFileToQueue env_disabled world_dups (mk_file ''B'' ''A'' ''active'' ''none'' 0) =
     (None, world_dups) \<and>
   map f_ai_tagging_status (files world_dups) = [''done'', ''none'', ''none'', ''none'']"
  by (simp add: AddFileToQueue_def InitGlobalTaggingQueue_def EnqueueUnique_def Let_def
      env_disabled_def env0_def world0_def world_dups_def svc_full_paused_def file_A_def
      mk_file_def AITaggingStatus_defs)

subsection \<open>The stuck-job loop\<close>

text \<open>
  C8 (amended). The ticker of the stuck-job loop has a period of 60 seconds. A tick
  without a service does nothing. A tick with a service calls \<open>ResetStuckPendingFiles\<close>
  with the configured threshold, and then runs the sweep \<open>EnqueueAllPending(1000)\<close>
  exactly when the reset returned no error and a positive count and the service is not
  paused: so the sweep follows within the same tick whenever a job was reclaimed.
\<close>

theorem C8_stuck_tick:
  "stuck_ticker_seconds = 60 \<and>
   (globalTaggingService w = None \<longrightarrow> stuck_tick e w = w) \<and>
   (globalTaggingService w = Some s \<longrightarrow>
      stuck_tick e w =
        w\<lparr>calls := calls w @
               CallResetStuckPendingFiles (pending_stuck_threshold_minutes e) #
               (case ResetStuckPendingFiles e (pending_stuck_threshold_minutes e) of
                  Inl m \<Rightarrow> []
                | Inr count \<Rightarrow>
                    if 0 < count \<and> \<not> paused s then [CallEnqueueAllPending 1000] else [])\<rparr>)"
  by (simp add: stuck_ticker_seconds_def stuck_tick_def invoke_def Let_def split: sum.splits)

theorem C8_stuck_tick_witness:
  "globalTaggingService world0 = None \<and> stuck_tick env0 world0 = world0 \<and>
   globalTaggingService (world0\<lparr>globalTaggingService := Some svc_running\<rparr>) = Some svc_running \<and>
   ResetStuckPendingFiles (env0\<lparr>ResetStuckPendingFiles := (\<lambda>t. Inr 2)\<rparr>) 5 = Inr 2 \<and>
   \<not> paused svc_running \<and>
   calls (stuck_tick (env0\<lparr>ResetStuckPendingFiles := (\<lambda>t. Inr 2)\<rparr>)
            (world0\<lparr>globalTaggingService := Some svc_running\<rparr>)) =
     [CallResetStuckPendingFiles 5, CallEnqueueAllPending 1000]"
  using C8_stuck_tick [of world0 env0 svc_running]
    C8_stuck_tick [of "world0\<lparr>globalTaggingService := Some svc_running\<rparr>"
      "env0\<lparr>ResetStuckPendingFiles := (\<lambda>t. Inr 2)\<rparr>" svc_running]
  by (simp add: world0_def env0_def svc_running_def)

text \<open>
  The claim as the spec states it fails: a tick on a running service that reclaims nothing
  runs no sweep, and a tick without a service does not even call the reset.
\<close>

theorem C8_no_sweep_when_nothing_reset:
  "\<not> paused svc_running \<and> ResetStuckPendingFiles env0 5 = Inr 0 \<and>
   pending_stuck_threshold_minutes env0 = 5 \<and>
   calls (stuck_tick env0 (world0\<lparr>globalTaggingService := Some svc_running\<rparr>)) =
     [CallResetStuckPendingFiles 5] \<and>
   globalTaggingService world0 = None \<and> calls (stuck_tick env0 world0) = []"
  by (simp add: stuck_tick_def invoke_def Let_def world0_def env0_def svc_running_def)

subsection \<open>Startup recovery\<close>

lemma RecoverPendingOnStartup_result:
  assumes run: "RecoverPendingOnStartup e w limit = ((n, err), w')"
    and pend: "pend = filter (\<lambda>r. f_ai_tagging_status r = AITaggingStatusPending) (files w)"
    and sel: "sel = map f_id (if 0 < limit then take (nat limit) pend else pend)"
  shows "err = None \<Longrightarrow>
           n = int (length sel) \<and>
           files w' = map (\<lambda>r. if f_id r \<in> set sel
                                then r\<lparr>f_ai_tagging_status := AITaggingStatusNone,
                                       f_ai_tagging_tries := 0\<rparr>
                                else r) (files w)"
    and "err \<noteq> None \<Longrightarrow> n = 0 \<and> w' = w"
proof -
  have unfold: "RecoverPendingOnStartup e w limit =
     (if \<not> db_available e then ((0, Some ErrNoDB), w)
      else (case db_err e S_recoverPluck [] of
              Some m \<Rightarrow> ((0, Some (ErrDB m)), w)
            | None \<Rightarrow>
                if length sel = 0 then ((0, None), w)
                else (case db_err e S_recoverUpdate [] of
                        Some m \<Rightarrow> ((0, Some (ErrDB m)), w)
                      | None \<Rightarrow>
                          (let w1 = w\<lparr>files :=
                                        map (\<lambda>r. if f_id r \<in> set sel
                                                 then r\<lparr>f_ai_tagging_status := AITaggingStatusNone,
                                                        f_ai_tagging_tries := 0\<rparr>
                                                 else r) (files w)\<rparr>;
                               images = filter (\<lambda>r. f_id r \<in> set sel) (files w1);
                               w2 = (if globalTaggingService w1 \<noteq> None \<and>
                                        db_err e S_recoverFind [] = None \<and>
                                        length images > 0
                                     then invoke (BatchProcessFiles (map f_id images)) w1
                                     else w1)
                           in ((int (length sel), None), w2)))))"
    unfolding RecoverPendingOnStartup_def Let_def sel pend by (rule refl)
  let ?upd = "map (\<lambda>r. if f_id r \<in> set sel
                          then r\<lparr>f_ai_tagging_status := AITaggingStatusNone,
                                 f_ai_tagging_tries := 0\<rparr>
                          else r) (files w)"
  consider (nodb) "\<not> db_available e"
    | (pluck) m where "db_available e" "db_err e S_recoverPluck [] = Some m"
    | (nothing) "db_available e" "db_err e S_recoverPluck [] = None" "sel = []"
    | (update) m where "db_available e" "db_err e S_recoverPluck [] = None" "sel \<noteq> []"
        "db_err e S_recoverUpdate [] = Some m"
    | (ok) "db_available e" "db_err e S_recoverPluck [] = None" "sel \<noteq> []"
        "db_err e S_recoverUpdate [] = None"
    by (cases "db_err e S_recoverPluck []"; cases "db_err e S_recoverUpdate []") blast+
  then have ab: "(err = None \<longrightarrow> n = int (length sel) \<and> files w' = ?upd) \<and>
                 (err \<noteq> None \<longrightarrow> n = 0 \<and> w' = w)"
  proof cases
    case nodb
    then have "RecoverPendingOnStartup e w limit = ((0, Some ErrNoDB), w)"
      by (simp add: unfold)
    with run show ?thesis by auto
  next
    case (pluck m)
    then have "RecoverPendingOnStartup e w limit = ((0, Some (ErrDB m)), w)"
      by (simp add: unfold)
    with run show ?thesis by auto
  next
    case nothing
    note facts = this
    then have "RecoverPendingOnStartup e w limit = ((0, None), w)"
      by (simp add: unfold)
    with run facts show ?thesis by auto
  next
    case (update m)
    then have "RecoverPendingOnStartup e w limit = ((0, Some (ErrDB m)), w)"
      by (simp add: unfold)
    with run show ?thesis by auto
  next
    case ok
    then have "fst (RecoverPendingOnStartup e w limit) = (int (length sel), None)"
      and "files (snd (RecoverPendingOnStartup e w limit)) = ?upd"
      by (simp_all add: unfold Let_def)
    with run show ?thesis by auto
  qed
  from ab have a: "n = int (length sel) \<and> files w' = ?upd" if "err = None"
    using that by blast
  from ab have b: "n = 0 \<and> w' = w" if "err \<noteq> None"
    using that by blast
  from a show "err = None \<Longrightarrow>
           n = int (length sel) \<and>
           files w' = map (\<lambda>r. if f_id r \<in> set sel
                                then r\<lparr>f_ai_tagging_status := AITaggingStatusNone,
                                       f_ai_tagging_tries := 0\<rparr>
                                else r) (files w)" .
  from b show "err \<noteq> None \<Longrightarrow> n = 0 \<and> w' = w" .
qed

text \<open>
  C10 (amended). \<open>RecoverPendingOnStartup\<close> selects the pending files, the first \<open>limit\<close>
  of them when \<open>limit\<close> is positive and all of them otherwise. When it returns without
  an error, its count is the number of selected files, every row with a selected id has
  status \<open>none\<close> and tries 0, and every other row is as before. When it returns an error
  nothing has been written: both statements are in one transaction.
\<close>

theorem C10_recovery_resets_selection:
  assumes "RecoverPendingOnStartup e w limit = ((n, err), w')"
  shows "let pend = filter (\<lambda>r. f_ai_tagging_status r = AITaggingStatusPending) (files w);
             sel = map f_id (if 0 < limit then take (nat limit) pend else pend)
         in (err = None \<longrightarrow>
               n = int (length sel) \<and> (0 < limit \<longrightarrow> n \<le> limit) \<and>
               set sel \<subseteq> f_id ` set pend \<and>
               files w' = map (\<lambda>r. if f_id r \<in> set sel
                                    then r\<lparr>f_ai_tagging_status := AITaggingStatusNone,
                                           f_ai_tagging_tries := 0\<rparr>
                                    else r) (files w)) \<and>
            (err \<noteq> None \<longrightarrow> n = 0 \<and> w' = w)"
proof -
  define pend where "pend = filter (\<lambda>r. f_ai_tagging_status r = AITaggingStatusPending) (files w)"
  define sel where "sel = map f_id (if 0 < limit then take (nat limit) pend else pend)"
  note res = RecoverPendingOnStartup_result [OF assms pend_def sel_def]
  have len: "int (length sel) \<le> limit" if "0 < limit"
    using that by (simp add: sel_def)
  have sub: "set sel \<subseteq> f_id ` set pend"
    by (auto simp: sel_def dest: in_set_takeD)
  from res len sub
  have "(err = None \<longrightarrow>
               n = int (length sel) \<and> (0 < limit \<longrightarrow> n \<le> limit) \<and>
               set sel \<subseteq> f_id ` set pend \<and>
               files w' = map (\<lambda>r. if f_id r \<in> set sel
                                    then r\<lparr>f_ai_tagging_status := AITaggingStatusNone,
                                           f_ai_tagging_tries := 0\<rparr>
                                    else r) (files w)) \<and>
            (err \<noteq> None \<longrightarrow> n = 0 \<and> w' = w)"
    by blast
  then show ?thesis
    unfolding Let_def pend_def sel_def .
qed

lemma eval_recover_limit_1:
  "RecoverPendingOnStartup env0 world_pending 1 =
     ((1, None),
      world0\<lparr>files := [mk_file ''A'' [] ''active'' ''none'' 0,
                        mk_file ''B'' [] ''active'' ''pending'' 1,
                        mk_file ''C'' [] ''active'' ''failed'' 3]\<rparr>)"
  by (simp add: RecoverPendingOnStartup_def Let_def env0_def world_pending_def world0_def
      mk_file_def AITaggingStatus_defs)

theorem C10_recovery_resets_selection_witness:
  "RecoverPendingOnStartup env0 world_pending 1 =
     ((1, None),
      world0\<lparr>files := [mk_file ''A'' [] ''active'' ''none'' 0,
                        mk_file ''B'' [] ''active'' ''pending'' 1,
                        mk_file ''C'' [] ''active'' ''failed'' 3]\<rparr>) \<and>
   (1::int) \<le> 1 \<and>
   map f_ai_tagging_tries (files world_pending) = [2, 1, 3] \<and>
   map f_ai_tagging_tries
     (files (world0\<lparr>files := [mk_file ''A'' [] ''active'' ''none'' 0,
                               mk_file ''B'' [] ''active'' ''pending'' 1,
                               mk_file ''C'' [] ''active'' ''failed'' 3]\<rparr>)) = [0, 1, 3]"
proof -
  note t = C10_recovery_resets_selection [OF eval_recover_limit_1, unfolded Let_def,
      THEN conjunct1, rule_format, OF refl]
  have a: "(1::int) \<le> 1"
    by (rule t [THEN conjunct2, THEN conjunct1, THEN mp, OF zero_less_one])
  have b: "map f_ai_tagging_tries (files world_pending) = [2, 1, 3]"
    by (simp add: world_pending_def mk_file_def)
  have c: "map f_ai_tagging_tries
     (files (world0\<lparr>files := [mk_file ''A'' [] ''active'' ''none'' 0,
                               mk_file ''B'' [] ''active'' ''pending'' 1,
                               mk_file ''C'' [] ''active'' ''failed'' 3]\<rparr>)) = [0, 1, 3]"
    by (simp add: mk_file_def)
  from eval_recover_limit_1 a b c show ?thesis by (intro conjI)
qed

text \<open>
  The claim as the spec states it fails for a limit that is not positive: with limit 0 the
  two pending files are both selected and reset.
\<close>

theorem C10_limit_zero_selects_all:
  "fst (RecoverPendingOnStartup env0 world_pending 0) = (2, None) \<and> \<not> (2 \<le> (0::int)) \<and>
   map f_ai_tagging_status (files world_pending) = [''pending'', ''pending'', ''failed''] \<and>
   map f_ai_tagging_status (files (snd (RecoverPendingOnStartup env0 world_pending 0))) =
     [''none'', ''none'', ''failed'']"
  by (simp add: RecoverPendingOnStartup_def Let_def env0_def world_pending_def world0_def
      mk_file_def AITaggingStatus_defs invoke_def)

subsection \<open>The loop body of the propagation\<close>

lemma dup_file_row_simps [simp]:
  "f_id (dup_file_row orig origAI r) = f_id r"
  "f_original_file_id (dup_file_row orig origAI r) = f_original_file_id r"
  "f_status (dup_file_row orig origAI r) = f_status r"
  "f_ai_tagging_tries (dup_file_row orig origAI r) = f_ai_tagging_tries r"
  "f_ai_tagging_status (dup_file_row orig origAI r) = AITaggingStatusDone"
  "dup_file_row orig origAI (dup_file_row orig origAI r) = dup_file_row orig origAI r"
  by (simp_all add: dup_file_row_def Let_def split: option.splits)

lemma propagate_dup_frame [simp]:
  "calls (propagate_dup e orig origAI originalID dup w) = calls w"
  "global_tag (propagate_dup e orig origAI originalID dup w) = global_tag w"
  "file_tagging_log (propagate_dup e orig origAI originalID dup w) = file_tagging_log w"
  "globalTaggingService (propagate_dup e orig origAI originalID dup w) = globalTaggingService w"
  by (simp_all add: propagate_dup_def Let_def split: option.splits)

lemma propagate_dup_ai_info:
  assumes "db_err e = (\<lambda>s k. None)"
  shows "file_ai_info (propagate_dup e orig origAI originalID dup w) =
           (if ai_FileID origAI \<noteq> []
            then upsert_ai_info (dup_ai_info origAI (f_id dup)) (file_ai_info w)
            else file_ai_info w)"
  by (simp add: propagate_dup_def Let_def assms)

lemma propagate_dup_relations:
  assumes "db_err e = (\<lambda>s k. None)"
  shows "file_global_tag_relation (propagate_dup e orig origAI originalID dup w) =
           copy_relations originalID (f_id dup) (file_global_tag_relation w)"
  by (simp add: propagate_dup_def Let_def assms copy_relations_def)

lemma propagate_dup_files:
  assumes "db_err e = (\<lambda>s k. None)"
  shows "files (propagate_dup e orig origAI originalID dup w) =
           map (\<lambda>r. if f_id r = f_id dup then dup_file_row orig origAI r else r) (files w)"
proof -
  have two: "map (\<lambda>r. if f_id r = d
                        then (case f_category_id orig of
                                None \<Rightarrow> r\<lparr>f_ai_tagging_status := AITaggingStatusDone\<rparr>
                              | Some c \<Rightarrow>
                                  r\<lparr>f_ai_tagging_status := AITaggingStatusDone,
                                    f_category_id := Some c,
                                    f_category_source := f_category_source orig\<rparr>)
                        else r)
                 (if ai_FileID origAI \<noteq> [] \<and> ai_Description origAI \<noteq> []
                  then map (\<lambda>r. if f_id r = d
                                 then r\<lparr>f_description := ai_Description origAI\<rparr> else r) fs
                  else fs) =
               map (\<lambda>r. if f_id r = d then dup_file_row orig origAI r else r) fs" for fs d
    by (induction fs) (simp_all add: dup_file_row_def Let_def split: option.splits)
  have "files (propagate_dup e orig origAI originalID dup w) =
        map (\<lambda>r. if f_id r = f_id dup
                        then (case f_category_id orig of
                                None \<Rightarrow> r\<lparr>f_ai_tagging_status := AITaggingStatusDone\<rparr>
                              | Some c \<Rightarrow>
                                  r\<lparr>f_ai_tagging_status := AITaggingStatusDone,
                                    f_category_id := Some c,
                                    f_category_source := f_category_source orig\<rparr>)
                        else r)
                 (if ai_FileID origAI \<noteq> [] \<and> ai_Description origAI \<noteq> []
                  then map (\<lambda>r. if f_id r = f_id dup
                                 then r\<lparr>f_description := ai_Description origAI\<rparr> else r)
                         (files w)
                  else files w)"
    by (simp add: propagate_dup_def Let_def assms dup_ai_info_def del: map_map cong: if_cong)
  then show ?thesis by (simp only: two)
qed

lemma fold_propagate_frame [simp]:
  "calls (fold (propagate_dup e orig origAI originalID) dups w) = calls w"
  "global_tag (fold (propagate_dup e orig origAI originalID) dups w) = global_tag w"
  "file_tagging_log (fold (propagate_dup e orig origAI originalID) dups w) = file_tagging_log w"
  "globalTaggingService (fold (propagate_dup e orig origAI originalID) dups w) =
     globalTaggingService w"
  by (induction dups arbitrary: w) simp_all

lemma map_update_twice:
  assumes "\<And>r. f_id (F r) = f_id r" and "\<And>r. F (F r) = F r"
  shows "map (\<lambda>r. if f_id r \<in> S then F r else r)
           (map (\<lambda>r. if f_id r = d then F r else r) fs) =
         map (\<lambda>r. if f_id r \<in> insert d S then F r else r) fs"
  by (induction fs) (auto simp: assms)

lemma fold_propagate_files:
  assumes "db_err e = (\<lambda>s k. None)"
  shows "files (fold (propagate_dup e orig origAI originalID) dups w) =
           map (\<lambda>r. if f_id r \<in> f_id ` set dups then dup_file_row orig origAI r else r)
             (files w)"
proof (induction dups arbitrary: w)
  case Nil
  show ?case by simp
next
  case (Cons d ds)
  have "files (fold (propagate_dup e orig origAI originalID) (d # ds) w) =
        map (\<lambda>r. if f_id r \<in> f_id ` set ds then dup_file_row orig origAI r else r)
          (map (\<lambda>r. if f_id r = f_id d then dup_file_row orig origAI r else r) (files w))"
    by (simp add: Cons.IH propagate_dup_files [OF assms] del: map_map)
  also have "\<dots> = map (\<lambda>r. if f_id r \<in> insert (f_id d) (f_id ` set ds)
                             then dup_file_row orig origAI r else r) (files w)"
    by (rule map_update_twice) simp_all
  finally show ?case by simp
qed

lemma fold_propagate_ai_info:
  assumes "db_err e = (\<lambda>s k. None)"
  shows "file_ai_info (fold (propagate_dup e orig origAI originalID) dups w) =
           (if ai_FileID origAI \<noteq> []
            then fold (\<lambda>d. upsert_ai_info (dup_ai_info origAI d)) (map f_id dups) (file_ai_info w)
            else file_ai_info w)"
  by (induction dups arbitrary: w) (simp_all add: propagate_dup_ai_info [OF assms])

lemma fold_propagate_relations:
  assumes "db_err e = (\<lambda>s k. None)"
  shows "file_global_tag_relation (fold (propagate_dup e orig origAI originalID) dups w) =
           fold (copy_relations originalID) (map f_id dups) (file_global_tag_relation w)"
  by (induction dups arbitrary: w) (simp_all add: propagate_dup_relations [OF assms])

subsection \<open>The upsert of an AI record\<close>

lemma upsert_same_key:
  assumes "a \<in> set (upsert_ai_info new rows)" and "ai_FileID a = ai_FileID new"
  shows "a\<lparr>ai_ID := 0\<rparr> = new\<lparr>ai_ID := 0\<rparr>"
proof (cases "list_ex (\<lambda>r. ai_FileID r = ai_FileID new) rows")
  case True
  with assms(1)
  have "a \<in> (\<lambda>r. if ai_FileID r = ai_FileID new then new\<lparr>ai_ID := ai_ID r\<rparr> else r) ` set rows"
    by (simp add: upsert_ai_info_def)
  then obtain r where
    a: "a = (if ai_FileID r = ai_FileID new then new\<lparr>ai_ID := ai_ID r\<rparr> else r)"
    by (rule imageE)
  show ?thesis
  proof (cases "ai_FileID r = ai_FileID new")
    case True
    with a show ?thesis by simp
  next
    case False
    with a assms(2) show ?thesis by simp
  qed
next
  case False
  with assms have "a = new\<lparr>ai_ID := next_id (map ai_ID rows)\<rparr>"
    by (auto simp: upsert_ai_info_def list_ex_iff)
  then show ?thesis by simp
qed

lemma upsert_other_key:
  assumes "ai_FileID a \<noteq> ai_FileID new"
  shows "a \<in> set (upsert_ai_info new rows) \<longleftrightarrow> a \<in> set rows"
proof (cases "list_ex (\<lambda>r. ai_FileID r = ai_FileID new) rows")
  case True
  have "a \<in> (\<lambda>r. if ai_FileID r = ai_FileID new then new\<lparr>ai_ID := ai_ID r\<rparr> else r) ` set rows
        \<longleftrightarrow> a \<in> set rows"
  proof
    assume "a \<in> (\<lambda>r. if ai_FileID r = ai_FileID new then new\<lparr>ai_ID := ai_ID r\<rparr> else r) ` set rows"
    then obtain r where r: "r \<in> set rows"
      and a: "a = (if ai_FileID r = ai_FileID new then new\<lparr>ai_ID := ai_ID r\<rparr> else r)"
      by (rule imageE)
    show "a \<in> set rows"
    proof (cases "ai_FileID r = ai_FileID new")
      case True
      with a assms show ?thesis by simp
    next
      case False
      with a r show ?thesis by simp
    qed
  next
    assume "a \<in> set rows"
    with assms show "a \<in> (\<lambda>r. if ai_FileID r = ai_FileID new then new\<lparr>ai_ID := ai_ID r\<rparr> else r) ` set rows"
      by (intro image_eqI [where x = a]) simp_all
  qed
  with True show ?thesis by (simp add: upsert_ai_info_def)
next
  case False
  with assms show ?thesis by (auto simp: upsert_ai_info_def)
qed

lemma upsert_key_exists:
  "\<exists>a \<in> set (upsert_ai_info new rows). ai_FileID a = ai_FileID new"
proof (cases "list_ex (\<lambda>r. ai_FileID r = ai_FileID new) rows")
  case True
  then obtain r where r: "r \<in> set rows" "ai_FileID r = ai_FileID new"
    by (auto simp: list_ex_iff)
  then have "new\<lparr>ai_ID := ai_ID r\<rparr> \<in> set (upsert_ai_info new rows)"
    using True by (simp add: upsert_ai_info_def image_iff) (rule bexI [where x = r], simp_all)
  then show ?thesis by (rule bexI [rotated]) simp
next
  case False
  then show ?thesis by (simp add: upsert_ai_info_def)
qed

lemma dup_ai_info_simps [simp]:
  "ai_FileID (dup_ai_info origAI d) = d"
  "ai_ID (dup_ai_info origAI d) = 0"
  "(dup_ai_info origAI d)\<lparr>ai_ID := 0\<rparr> = dup_ai_info origAI d"
  by (simp_all add: dup_ai_info_def)

lemma has_clone_upsert: "has_clone origAI d (upsert_ai_info (dup_ai_info origAI d) rows)"
proof -
  have "\<exists>a \<in> set (upsert_ai_info (dup_ai_info origAI d) rows). ai_FileID a = d"
    using upsert_key_exists [of "dup_ai_info origAI d" rows] by simp
  moreover have "a\<lparr>ai_ID := 0\<rparr> = dup_ai_info origAI d"
    if "a \<in> set (upsert_ai_info (dup_ai_info origAI d) rows)" "ai_FileID a = d" for a
    using upsert_same_key [of a "dup_ai_info origAI d" rows] that by simp
  ultimately show ?thesis by (simp add: has_clone_def list_ex_iff list_all_iff)
qed

lemma has_clone_upsert_other:
  assumes "has_clone origAI d rows"
  shows "has_clone origAI d (upsert_ai_info (dup_ai_info origAI d') rows)"
proof (cases "d' = d")
  case True
  then show ?thesis by (simp add: has_clone_upsert)
next
  case False
  have "a \<in> set (upsert_ai_info (dup_ai_info origAI d') rows) \<longleftrightarrow> a \<in> set rows"
    if "ai_FileID a = d" for a
    using upsert_other_key [of a "dup_ai_info origAI d'" rows] that False by simp
  with assms show ?thesis
    unfolding has_clone_def list_ex_iff list_all_iff by blast
qed

lemma has_clone_fold_keep:
  "has_clone origAI d rows \<Longrightarrow>
   has_clone origAI d (fold (\<lambda>d. upsert_ai_info (dup_ai_info origAI d)) ds rows)"
  by (induction ds arbitrary: rows) (simp_all add: has_clone_upsert_other)

lemma has_clone_fold:
  "d \<in> set ds \<Longrightarrow>
   has_clone origAI d (fold (\<lambda>d. upsert_ai_info (dup_ai_info origAI d)) ds rows)"
proof (induction ds arbitrary: rows)
  case Nil
  then show ?case by simp
next
  case (Cons x xs)
  show ?case
  proof (cases "d = x")
    case True
    then show ?thesis by (simp add: has_clone_fold_keep has_clone_upsert)
  next
    case False
    with Cons show ?thesis by simp
  qed
qed

lemma upsert_has_clone_id:
  assumes "has_clone origAI d rows"
  shows "upsert_ai_info (dup_ai_info origAI d) rows = rows"
proof -
  from assms have ex: "list_ex (\<lambda>r. ai_FileID r = d) rows"
    and all: "\<And>r. r \<in> set rows \<Longrightarrow> ai_FileID r = d \<Longrightarrow> r\<lparr>ai_ID := 0\<rparr> = dup_ai_info origAI d"
    by (simp_all add: has_clone_def list_all_iff)
  have "(if ai_FileID r = d then (dup_ai_info origAI d)\<lparr>ai_ID := ai_ID r\<rparr> else r) = r"
    if "r \<in> set rows" for r
  proof (cases "ai_FileID r = d")
    case True
    from all [OF that True] have "(dup_ai_info origAI d)\<lparr>ai_ID := ai_ID r\<rparr> = r\<lparr>ai_ID := 0, ai_ID := ai_ID r\<rparr>"
      by simp
    with True show ?thesis by simp
  next
    case False
    then show ?thesis by simp
  qed
  then have "map (\<lambda>r. if ai_FileID r = d then (dup_ai_info origAI d)\<lparr>ai_ID := ai_ID r\<rparr> else r) rows = rows"
    by (simp add: map_idI)
  with ex show ?thesis by (simp add: upsert_ai_info_def)
qed

lemma fold_upsert_has_clone_id:
  "(\<And>d. d \<in> set ds \<Longrightarrow> has_clone origAI d rows) \<Longrightarrow>
   fold (\<lambda>d. upsert_ai_info (dup_ai_info origAI d)) ds rows = rows"
  by (induction ds) (simp_all add: upsert_has_clone_id)

lemma fold_upsert_twice:
  "fold (\<lambda>d. upsert_ai_info (dup_ai_info origAI d)) ds
     (fold (\<lambda>d. upsert_ai_info (dup_ai_info origAI d)) ds rows) =
   fold (\<lambda>d. upsert_ai_info (dup_ai_info origAI d)) ds rows"
  by (rule fold_upsert_has_clone_id) (rule has_clone_fold)

lemma filter_upsert_other:
  assumes "\<And>a. P a \<Longrightarrow> ai_FileID a \<noteq> ai_FileID new"
  shows "filter P (upsert_ai_info new rows) = filter P rows"
proof -
  have notP: "\<not> P (new\<lparr>ai_ID := n\<rparr>)" for n
    using assms [of "new\<lparr>ai_ID := n\<rparr>"] by auto
  have "filter P (map (\<lambda>r. if ai_FileID r = ai_FileID new then new\<lparr>ai_ID := ai_ID r\<rparr> else r) xs) =
        filter P xs" for xs
    using assms notP by (induction xs) auto
  with notP show ?thesis by (simp add: upsert_ai_info_def)
qed

lemma filter_fold_upsert_other:
  assumes "\<And>a. P a \<Longrightarrow> ai_FileID a \<notin> set ds"
  shows "filter P (fold (\<lambda>d. upsert_ai_info (dup_ai_info origAI d)) ds rows) = filter P rows"
  using assms
proof (induction ds arbitrary: rows)
  case Nil
  show ?case by simp
next
  case (Cons x xs)
  have "filter P (upsert_ai_info (dup_ai_info origAI x) rows) = filter P rows"
    by (rule filter_upsert_other) (use Cons.prems in auto)
  moreover have "filter P (fold (\<lambda>d. upsert_ai_info (dup_ai_info origAI d)) xs
                             (upsert_ai_info (dup_ai_info origAI x) rows)) =
                 filter P (upsert_ai_info (dup_ai_info origAI x) rows)"
    by (rule Cons.IH) (use Cons.prems in auto)
  ultimately show ?case by simp
qed

lemma find_by_filter:
  "find P xs = (case filter P xs of [] \<Rightarrow> None | x # ys \<Rightarrow> Some x)"
  by (induction xs) simp_all

lemma find_SomeD: "find P xs = Some x \<Longrightarrow> x \<in> set xs \<and> P x"
  by (induction xs) (auto split: if_splits)

lemma find_fold_upsert_other:
  assumes "k \<notin> set ds"
  shows "find (\<lambda>a. ai_FileID a = k) (fold (\<lambda>d. upsert_ai_info (dup_ai_info origAI d)) ds rows) =
         find (\<lambda>a. ai_FileID a = k) rows"
proof -
  have "filter (\<lambda>a. ai_FileID a = k) (fold (\<lambda>d. upsert_ai_info (dup_ai_info origAI d)) ds rows) =
        filter (\<lambda>a. ai_FileID a = k) rows"
    by (rule filter_fold_upsert_other) (use assms in auto)
  then show ?thesis by (simp add: find_by_filter)
qed

lemma find_upsert_self:
  assumes "find (\<lambda>a. ai_FileID a = k) rows = Some origAI"
  shows "find (\<lambda>a. ai_FileID a = k) (upsert_ai_info (dup_ai_info origAI d) rows) = Some origAI"
proof (cases "d = k")
  case False
  have "filter (\<lambda>a. ai_FileID a = k) (upsert_ai_info (dup_ai_info origAI d) rows) =
        filter (\<lambda>a. ai_FileID a = k) rows"
    by (rule filter_upsert_other) (use False in auto)
  with assms show ?thesis by (simp add: find_by_filter)
next
  case True
  from assms have key: "ai_FileID origAI = k"
    by (auto dest: find_SomeD)
  have self: "(dup_ai_info origAI k)\<lparr>ai_ID := ai_ID origAI\<rparr> = origAI"
    using key by (simp add: dup_ai_info_def)
  have ex: "list_ex (\<lambda>r. ai_FileID r = k) rows"
    using assms by (auto simp: list_ex_iff dest: find_SomeD)
  have "find (\<lambda>a. ai_FileID a = k)
          (map (\<lambda>r. if ai_FileID r = k then (dup_ai_info origAI k)\<lparr>ai_ID := ai_ID r\<rparr> else r) xs) =
        Some origAI"
    if "find (\<lambda>a. ai_FileID a = k) xs = Some origAI" for xs
    using that self by (induction xs) (auto split: if_splits)
  with assms ex True show ?thesis by (simp add: upsert_ai_info_def)
qed

lemma find_fold_upsert_self:
  "find (\<lambda>a. ai_FileID a = k) rows = Some origAI \<Longrightarrow>
   find (\<lambda>a. ai_FileID a = k) (fold (\<lambda>d. upsert_ai_info (dup_ai_info origAI d)) ds rows) =
     Some origAI"
  by (induction ds arbitrary: rows) (simp_all add: find_upsert_self)

subsection \<open>The copy of the tag associations\<close>

lemma dup_relation_FileID [simp]: "rel_FileID (dup_relation d r) = d"
  by (simp add: dup_relation_def)

lemma filter_dup_relations:
  "filter (\<lambda>r. rel_FileID r = x) (map (dup_relation d) rs) =
     (if x = d then map (dup_relation d) rs else [])"
  by (induction rs) auto

lemma filter_copy_relations:
  "filter (\<lambda>r. rel_FileID r = x) (copy_relations originalID d rels) =
     (if x = d \<and> filter (\<lambda>r. rel_FileID r = d) rels = []
      then map (dup_relation d) (filter (\<lambda>r. rel_FileID r = originalID) rels)
      else filter (\<lambda>r. rel_FileID r = x) rels)"
  by (simp add: copy_relations_def filter_dup_relations)

lemma filter_original_copy_relations:
  "filter (\<lambda>r. rel_FileID r = originalID) (copy_relations originalID d rels) =
   filter (\<lambda>r. rel_FileID r = originalID) rels"
  by (simp add: filter_copy_relations)

lemma filter_fold_copy_relations:
  "filter (\<lambda>r. rel_FileID r = x) (fold (copy_relations originalID) ds rels) =
     (if x \<in> set ds \<and> filter (\<lambda>r. rel_FileID r = x) rels = []
      then map (dup_relation x) (filter (\<lambda>r. rel_FileID r = originalID) rels)
      else filter (\<lambda>r. rel_FileID r = x) rels)"
proof (induction ds arbitrary: rels)
  case Nil
  show ?case by simp
next
  case (Cons d ds)
  let ?rels1 = "copy_relations originalID d rels"
  have step: "filter (\<lambda>r. rel_FileID r = x) (fold (copy_relations originalID) (d # ds) rels) =
     (if x \<in> set ds \<and> filter (\<lambda>r. rel_FileID r = x) ?rels1 = []
      then map (dup_relation x) (filter (\<lambda>r. rel_FileID r = originalID) rels)
      else filter (\<lambda>r. rel_FileID r = x) ?rels1)"
    using Cons.IH [of ?rels1] by (simp add: filter_original_copy_relations)
  show ?case
  proof (cases "x = d \<and> filter (\<lambda>r. rel_FileID r = d) rels = []")
    case True
    then have 1: "filter (\<lambda>r. rel_FileID r = x) ?rels1 =
                  map (dup_relation x) (filter (\<lambda>r. rel_FileID r = originalID) rels)"
      by (simp add: filter_copy_relations)
    show ?thesis unfolding step 1 using True by auto
  next
    case False
    then have 1: "filter (\<lambda>r. rel_FileID r = x) ?rels1 = filter (\<lambda>r. rel_FileID r = x) rels"
      by (auto simp: filter_copy_relations)
    show ?thesis unfolding step 1 using False by auto
  qed
qed

lemma fold_copy_relations_id:
  "(\<And>d. d \<in> set ds \<Longrightarrow> filter (\<lambda>r. rel_FileID r = d) rels = [] \<Longrightarrow>
         filter (\<lambda>r. rel_FileID r = originalID) rels = []) \<Longrightarrow>
   fold (copy_relations originalID) ds rels = rels"
proof (induction ds)
  case Nil
  show ?case by simp
next
  case (Cons d ds)
  have 1: "copy_relations originalID d rels = rels"
    using Cons.prems [of d] by (simp add: copy_relations_def)
  have 2: "fold (copy_relations originalID) ds rels = rels"
    by (rule Cons.IH) (rule Cons.prems, simp_all)
  show ?case by (simp add: 1 2)
qed

lemma fold_copy_relations_twice:
  "fold (copy_relations originalID) ds (fold (copy_relations originalID) ds rels) =
   fold (copy_relations originalID) ds rels"
proof (rule fold_copy_relations_id)
  fix d
  assume d: "d \<in> set ds"
    and empty: "filter (\<lambda>r. rel_FileID r = d) (fold (copy_relations originalID) ds rels) = []"
  from empty d have "filter (\<lambda>r. rel_FileID r = originalID) rels = []"
    by (simp add: filter_fold_copy_relations split: if_splits)
  then show "filter (\<lambda>r. rel_FileID r = originalID) (fold (copy_relations originalID) ds rels) = []"
    by (simp add: filter_fold_copy_relations)
qed

subsection \<open>The propagation as a whole\<close>

lemma propagate_dup_files_any:
  "files (propagate_dup e orig origAI originalID dup w) =
     map (\<lambda>r. if db_err e S_propUpdate (f_id dup) = None \<and> f_id r = f_id dup
               then (case f_category_id orig of
                       None \<Rightarrow> r\<lparr>f_ai_tagging_status := AITaggingStatusDone\<rparr>
                     | Some c \<Rightarrow>
                         r\<lparr>f_ai_tagging_status := AITaggingStatusDone, f_category_id := Some c,
                           f_category_source := f_category_source orig\<rparr>)
               else r)
       (map (\<lambda>r. if ai_FileID origAI \<noteq> [] \<and> ai_Description origAI \<noteq> [] \<and>
                     db_err e S_propDescription (f_id dup) = None \<and> f_id r = f_id dup
                  then r\<lparr>f_description := ai_Description origAI\<rparr> else r)
          (files w))"
proof -
  have id: "map (\<lambda>r. if False \<and> P r then F r else r) xs = xs" for P F and xs :: "file_row list"
    by simp
  show ?thesis
    by (cases "db_err e S_propUpdate (f_id dup)"; cases "db_err e S_propDescription (f_id dup)";
        cases "db_err e S_propUpsert (f_id dup)"; cases "db_err e S_propRels (f_id dup)")
      (simp_all add: propagate_dup_def Let_def dup_ai_info_def del: map_map cong: if_cong)
qed


lemma propagate_dup_keeps:
  "map f_ai_tagging_tries (files (propagate_dup e orig origAI originalID dup w)) =
     map f_ai_tagging_tries (files w)"
  "list_all2 (\<lambda>r r'. f_ai_tagging_status r' = f_ai_tagging_status r \<or>
                       f_ai_tagging_status r' = AITaggingStatusDone)
     (files w) (files (propagate_dup e orig origAI originalID dup w))"
  by (auto simp: propagate_dup_files_any list_all2_map2 list_all2_same split: option.splits)

lemma fold_propagate_keeps:
  "map f_ai_tagging_tries (files (fold (propagate_dup e orig origAI originalID) dups w)) =
     map f_ai_tagging_tries (files w)"
  "list_all2 (\<lambda>r r'. f_ai_tagging_status r' = f_ai_tagging_status r \<or>
                       f_ai_tagging_status r' = AITaggingStatusDone)
     (files w) (files (fold (propagate_dup e orig origAI originalID) dups w))"
proof (induction dups arbitrary: w)
  case Nil
  {
    case 1
    show ?case by simp
  next
    case 2
    show ?case by (simp add: list_all2_same)
  }
next
  case (Cons d ds)
  {
    case 1
    show ?case by (simp add: Cons.IH(1) propagate_dup_keeps(1))
  next
    case 2
    have "list_all2 (\<lambda>r r'. f_ai_tagging_status r' = f_ai_tagging_status r \<or>
                       f_ai_tagging_status r' = AITaggingStatusDone)
            (files w)
            (files (fold (propagate_dup e orig origAI originalID) ds
                      (propagate_dup e orig origAI originalID d w)))"
      by (rule list_all2_trans [OF _ propagate_dup_keeps(2) Cons.IH(2)]) auto
    then show ?case by simp
  }
qed

lemma propagate_shape:
  "propagateAIToDuplicates e w originalID = w \<or>
   (\<exists>orig origAI. propagateAIToDuplicates e w originalID =
      fold (propagate_dup e orig origAI originalID) (duplicates_of w originalID) w)"
  by (cases "find (\<lambda>r. f_id r = originalID) (files w)") (auto simp: propagateAIToDuplicates_def Let_def)

lemma propagate_any:
  "calls (propagateAIToDuplicates e w originalID) = calls w"
  "map f_ai_tagging_tries (files (propagateAIToDuplicates e w originalID)) =
     map f_ai_tagging_tries (files w)"
  "list_all2 (\<lambda>r r'. f_ai_tagging_status r' = f_ai_tagging_status r \<or>
                       f_ai_tagging_status r' = AITaggingStatusDone)
     (files w) (files (propagateAIToDuplicates e w originalID))"
  using propagate_shape [of e w originalID]
  by (auto simp: fold_propagate_keeps list_all2_same)

lemma propagate_healthy:
  assumes "db_available e" and "db_err e = (\<lambda>s k. None)"
    and "find (\<lambda>r. f_id r = originalID) (files w) = Some orig"
  shows "propagateAIToDuplicates e w originalID =
           fold (propagate_dup e orig (original_ai_info w originalID) originalID)
             (duplicates_of w originalID) w"
  by (simp add: propagateAIToDuplicates_def Let_def assms original_ai_info_def)

lemma propagate_unavailable:
  "\<not> db_available e \<or> find (\<lambda>r. f_id r = originalID) (files w) = None \<Longrightarrow>
   propagateAIToDuplicates e w originalID = w"
  by (auto simp: propagateAIToDuplicates_def)

subsection \<open>What the propagation does for the duplicates\<close>

lemma unsuccessful_not_None:
  "processAIResponse_unsuccessful e w file aiResp cde mode \<noteq> (None, w')"
  by (simp add: processAIResponse_unsuccessful_def Let_def split: option.splits)










subsection \<open>The tags of a flagged file under \<open>auto_delete\<close>\<close>

lemma tags_stage_ai:
  assumes "processAIResponse_tags e w file result cde mode = (None, w')"
  shows "file_ai_info w' = file_ai_info w"
proof -
  have tags: "file_ai_info w1 = file_ai_info w0"
    if "processAndSaveTags e w0 file (Tags result) = (None, w1)" for w0 w1
    using processAndSaveTags_frame(3) [of e w0 "file" "Tags result"] that by simp
  show ?thesis
  proof (cases "\<not> cde \<or> \<not> IsNSFW (ContentSafety result)")
    case True
    with assms show ?thesis
      by (auto simp: processAIResponse_tags_def save_failed_not_None
          split: prod.splits option.splits dest: tags)
  next
    case False
    with assms show ?thesis
      by (auto simp: processAIResponse_tags_def save_failed_not_None
          split: prod.splits option.splits if_splits dest: tags)
  qed
qed

lemma finish_ai:
  assumes "processAIResponse_finish e w file r result cde = (None, w')"
  shows "file_ai_info w' = file_ai_info w"
  using assms
  by (auto simp: processAIResponse_finish_def save_failed_not_None Let_def
      split: prod.splits option.splits if_splits dest!: pair_eqD)

lemma saveFileAIInfo_None:
  assumes "saveFileAIInfo e w i result usage = (None, w1)"
  shows "file_ai_info w1 = upsert_ai_info (ai_info_of i result usage) (file_ai_info w)"
  using assms by (auto simp: saveFileAIInfo_def split: option.splits)

lemma processAIResponse_ai_info:
  assumes "Success r" and "parseAITaggingResult e (Data r) = Inr parsed"
    and "processAIResponse e w file (Some r) cde mode = (None, w')"
  shows "file_ai_info w' =
           upsert_ai_info
             (ai_info_of (f_id file)
                (if f_resolution file \<noteq> []
                 then parsed\<lparr>BasicInfo := (BasicInfo parsed)\<lparr>Resolution := f_resolution file\<rparr>\<rparr>
                 else parsed)
                (Usage r))
             (file_ai_info w)"
proof -
  define result where
    "result = (if f_resolution file \<noteq> []
               then parsed\<lparr>BasicInfo := (BasicInfo parsed)\<lparr>Resolution := f_resolution file\<rparr>\<rparr>
               else parsed)"
  from assms result_def
  have "file_ai_info w' = upsert_ai_info (ai_info_of (f_id file) result (Usage r)) (file_ai_info w)"
  proof (rule processAIResponse_success_decomp)
    fix w1 w2 w3
    assume 1: "saveFileAIInfo e w (f_id file) result (Usage r) = (None, w1)"
      and 2: "processAIResponse_recommended e w1 file result = (None, w2)"
      and 3: "processAIResponse_tags e w2 file result cde mode = (None, w3)"
      and 4: "processAIResponse_finish e w3 file r result cde = (None, w')"
    show ?thesis
      by (simp add: finish_ai [OF 4] tags_stage_ai [OF 3] recommended_frame(2) [OF 2]
          saveFileAIInfo_None [OF 1])
  qed
  then show ?thesis by (simp only: result_def)
qed

lemma ai_info_of_simps [simp]:
  "ai_FileID (ai_info_of i result usage) = i"
  "ai_Tags (ai_info_of i result usage) = Tags result"
  by (simp_all add: ai_info_of_def)


text \<open>
  What the \<open>auto_delete\<close> branch leaves out is the tag tables: no tag row and no
  tag association is written for the flagged file. Its tags are kept in the AI record only.
\<close>

lemma auto_delete_writes_no_tag_rows:
  assumes "Success r" and "parseAITaggingResult e (Data r) = Inr parsed"
    and "contentDetectionEnabled" and "IsNSFW (ContentSafety parsed)"
    and "processAIResponse e w file (Some r) contentDetectionEnabled ''auto_delete'' = (None, w')"
  shows "file_global_tag_relation w' = file_global_tag_relation w \<and>
         global_tag w' = global_tag w"
proof -
  define result where
    "result = (if f_resolution file \<noteq> []
               then parsed\<lparr>BasicInfo := (BasicInfo parsed)\<lparr>Resolution := f_resolution file\<rparr>\<rparr>
               else parsed)"
  have f: "ContentSafety result = ContentSafety parsed" by (simp add: result_def)
  from assms(1,2,5) result_def
  show "file_global_tag_relation w' = file_global_tag_relation w \<and> global_tag w' = global_tag w"
  proof (rule processAIResponse_success_decomp)
    fix w1 w2 w3
    assume a: "saveFileAIInfo e w (f_id file) result (Usage r) = (None, w1)"
      and b: "processAIResponse_recommended e w1 file result = (None, w2)"
      and c: "processAIResponse_tags e w2 file result contentDetectionEnabled ''auto_delete'' =
                (None, w3)"
      and d: "processAIResponse_finish e w3 file r result contentDetectionEnabled = (None, w')"
    have r1: "file_global_tag_relation w1 = file_global_tag_relation w"
      "global_tag w1 = global_tag w"
      using saveFileAIInfo_frame(3,4) [of e w "f_id file" result "Usage r"] a by simp_all
    show ?thesis
      using tags_stage_rels(1) [OF c assms(3)] assms(4)
      by (simp add: f r1 recommended_frame(3,4) [OF b] finish_calls(2,3) [OF d])
  qed
qed



subsection \<open>Every status write and the tries counter\<close>

lemma InitGlobalTaggingQueue_files:
  "files (snd (InitGlobalTaggingQueue e w)) = files w"
  by (simp add: InitGlobalTaggingQueue_def Let_def split: option.splits)

lemma mark_pending_tries:
  "map f_ai_tagging_tries
     (map (\<lambda>r. if f_id r = i
               then r\<lparr>f_ai_tagging_status := s, f_ai_last_heartbeat_at := t\<rparr>
               else r) xs) = map f_ai_tagging_tries xs"
  by (induction xs) simp_all

lemma AddFileToQueue_tries:
  "map f_ai_tagging_tries (files (snd (AddFileToQueue e w file))) =
   map f_ai_tagging_tries (files w)"
proof -
  define w0 where "w0 = (case globalTaggingService w of
                           None \<Rightarrow> snd (InitGlobalTaggingQueue e w) | Some s \<Rightarrow> w)"
  have f0: "files w0 = files w"
    by (simp add: w0_def InitGlobalTaggingQueue_files split: option.splits)
  show ?thesis
  proof (cases "globalTaggingService w0")
    case None
    then have "AddFileToQueue e w file = (None, w0)"
      by (simp add: AddFileToQueue_def Let_def w0_def)
    then show ?thesis by (simp add: f0)
  next
    case (Some svc)
    show ?thesis
    proof (cases "db_available e")
      case False
      with Some have "AddFileToQueue e w file = (Some ErrNoDB, w0)"
        by (simp add: AddFileToQueue_def Let_def w0_def)
      then show ?thesis by (simp add: f0)
    next
      case True
      have same: "AddFileToQueue e w file = AddFileToQueue e w0 file"
      proof (cases "globalTaggingService w")
        case None
        have "(case globalTaggingService w0 of
                 None \<Rightarrow> snd (InitGlobalTaggingQueue e w0) | Some s \<Rightarrow> w0) = w0"
          by (simp add: Some)
        then show ?thesis
          unfolding AddFileToQueue_def [of e w] AddFileToQueue_def [of e w0]
          by (simp add: w0_def [symmetric])
      next
        case (Some s)
        then show ?thesis by (simp add: w0_def)
      qed
      show ?thesis
        unfolding same AddFileToQueue_service(3) [OF Some True]
        by (simp add: f0 mark_pending_tries split: option.splits)
    qed
  qed
qed

text \<open>
  C6 (amended). A status write by \<open>updateFileStatus\<close> adds one to the tries counter of the
  job record exactly when the write goes through and the status written is \<open>failed\<close>; a
  write of another status through it leaves every counter as it was, so a sequence of such
  writes to a file adds the number of writes of \<open>failed\<close>. The statements that write the
  status column alone (\<open>skipped\<close> and \<open>done\<close> by the executor), the enqueueing (\<open>pending\<close>)
  and the propagation to duplicates (\<open>done\<close>) leave every counter as it was. The startup
  recovery is the exception: it writes \<open>none\<close> to the selected rows and sets their counter
  to 0.
\<close>

theorem C6_status_writes_and_tries:
  "map f_ai_tagging_tries (files (snd (updateFileStatus e w fileID status))) =
     map (\<lambda>r. if fst (updateFileStatus e w fileID status) = None \<and> f_id r = fileID \<and>
                  status = AITaggingStatusFailed
               then f_ai_tagging_tries r + 1 else f_ai_tagging_tries r) (files w) \<and>
   (status \<noteq> AITaggingStatusFailed \<longrightarrow>
      map f_ai_tagging_tries (files (snd (updateFileStatus e w fileID status))) =
      map f_ai_tagging_tries (files w)) \<and>
   (db_err e S_updateFileStatus fileID = None \<longrightarrow>
      map f_ai_tagging_tries
        (files (fold (\<lambda>status w. snd (updateFileStatus e w fileID status)) statuses w)) =
      map (\<lambda>r. if f_id r = fileID
                then f_ai_tagging_tries r + int (count_list statuses AITaggingStatusFailed)
                else f_ai_tagging_tries r) (files w)) \<and>
   map f_ai_tagging_tries (files (set_ai_tagging_status w fileID status)) =
     map f_ai_tagging_tries (files w) \<and>
   map f_ai_tagging_tries (files (snd (AddFileToQueue e w file))) =
     map f_ai_tagging_tries (files w) \<and>
   map f_ai_tagging_tries (files (propagateAIToDuplicates e w fileID)) =
     map f_ai_tagging_tries (files w) \<and>
   (RecoverPendingOnStartup e w limit = ((n, None), w') \<longrightarrow>
      files w' =
        map (\<lambda>r. if f_id r \<in> set (map f_id
                       (if 0 < limit
                        then take (nat limit)
                               (filter (\<lambda>r. f_ai_tagging_status r = AITaggingStatusPending)
                                  (files w))
                        else filter (\<lambda>r. f_ai_tagging_status r = AITaggingStatusPending)
                               (files w)))
                  then r\<lparr>f_ai_tagging_status := AITaggingStatusNone, f_ai_tagging_tries := 0\<rparr>
                  else r) (files w))"
proof -
  have 1: "map f_ai_tagging_tries (files (snd (updateFileStatus e w fileID status))) =
     map (\<lambda>r. if fst (updateFileStatus e w fileID status) = None \<and> f_id r = fileID \<and>
                  status = AITaggingStatusFailed
               then f_ai_tagging_tries r + 1 else f_ai_tagging_tries r) (files w)"
    by (rule updateFileStatus_tries)
  have 2: "map f_ai_tagging_tries (files (snd (updateFileStatus e w fileID status))) =
      map f_ai_tagging_tries (files w)" if "status \<noteq> AITaggingStatusFailed"
    using that by (simp add: 1 cong: map_cong)
  have 7: "files w' =
        map (\<lambda>r. if f_id r \<in> set (map f_id
                       (if 0 < limit
                        then take (nat limit)
                               (filter (\<lambda>r. f_ai_tagging_status r = AITaggingStatusPending)
                                  (files w))
                        else filter (\<lambda>r. f_ai_tagging_status r = AITaggingStatusPending)
                               (files w)))
                  then r\<lparr>f_ai_tagging_status := AITaggingStatusNone, f_ai_tagging_tries := 0\<rparr>
                  else r) (files w)"
    if "RecoverPendingOnStartup e w limit = ((n, None), w')"
    using RecoverPendingOnStartup_result(1) [OF that refl refl refl] by (rule conjunct2)
  show ?thesis
    using 1 2 7 updateFileStatus_seq_tries [of e fileID statuses w]
      set_ai_tagging_status_frame(2) [of w fileID status]
      AddFileToQueue_tries [of e w "file"] propagate_any(2) [of e w fileID]
    by (intro conjI impI) assumption+
qed

theorem C6_status_writes_and_tries_witness:
  "AITaggingStatusDone \<noteq> AITaggingStatusFailed \<and>
   db_err env0 S_updateFileStatus ''A'' = None \<and>
   map f_ai_tagging_tries (files world_pending) = [2, 1, 3] \<and>
   map f_ai_tagging_tries
     (files (snd (updateFileStatus env0 world_pending ''A'' AITaggingStatusDone))) = [2, 1, 3] \<and>
   map f_ai_tagging_tries
     (files (fold (\<lambda>status w. snd (updateFileStatus env0 w ''A'' status))
               [AITaggingStatusFailed, AITaggingStatusProcessing, AITaggingStatusFailed,
                AITaggingStatusDone] world_pending)) = [4, 1, 3] \<and>
   RecoverPendingOnStartup env0 world_pending 1 =
     ((1, None),
      world0\<lparr>files := [mk_file ''A'' [] ''active'' ''none'' 0,
                        mk_file ''B'' [] ''active'' ''pending'' 1,
                        mk_file ''C'' [] ''active'' ''failed'' 3]\<rparr>) \<and>
   map f_ai_tagging_tries
     (files (world0\<lparr>files := [mk_file ''A'' [] ''active'' ''none'' 0,
                               mk_file ''B'' [] ''active'' ''pending'' 1,
                               mk_file ''C'' [] ''active'' ''failed'' 3]\<rparr>)) = [0, 1, 3]"
proof -
  note t = C6_status_writes_and_tries
    [where e = env0 and w = world_pending and fileID = "''A''" and status = AITaggingStatusDone
       and statuses = "[AITaggingStatusFailed, AITaggingStatusProcessing,
                        AITaggingStatusFailed, AITaggingStatusDone]"
       and limit = 1 and n = 1
       and w' = "world0\<lparr>files := [mk_file ''A'' [] ''active'' ''none'' 0,
                                  mk_file ''B'' [] ''active'' ''pending'' 1,
                                  mk_file ''C'' [] ''active'' ''failed'' 3]\<rparr>"]
  have a: "AITaggingStatusDone \<noteq> AITaggingStatusFailed" by (simp add: AITaggingStatus_defs)
  have b: "db_err env0 S_updateFileStatus ''A'' = None" by (simp add: env0_def)
  have c: "map f_ai_tagging_tries (files world_pending) = [2, 1, 3]"
    by (simp add: world_pending_def world0_def mk_file_def)
  have d: "map f_ai_tagging_tries
     (files (snd (updateFileStatus env0 world_pending ''A'' AITaggingStatusDone))) = [2, 1, 3]"
    using t [THEN conjunct2, THEN conjunct1, THEN mp, OF a] by (simp only: c)
  have e: "map f_ai_tagging_tries
     (files (fold (\<lambda>status w. snd (updateFileStatus env0 w ''A'' status))
               [AITaggingStatusFailed, AITaggingStatusProcessing, AITaggingStatusFailed,
                AITaggingStatusDone] world_pending)) = [4, 1, 3]"
    using t [THEN conjunct2, THEN conjunct2, THEN conjunct1, THEN mp, OF b]
    by (simp add: world_pending_def world0_def mk_file_def AITaggingStatus_defs)
  have f: "map f_ai_tagging_tries
     (files (world0\<lparr>files := [mk_file ''A'' [] ''active'' ''none'' 0,
                               mk_file ''B'' [] ''active'' ''pending'' 1,
                               mk_file ''C'' [] ''active'' ''failed'' 3]\<rparr>)) = [0, 1, 3]"
    by (simp add: mk_file_def)
  from a b c d e f eval_recover_limit_1 show ?thesis by (intro conjI)
qed

text \<open>
  The claim as the spec states it fails for the startup recovery: it writes \<open>none\<close> to
  \<open>A\<close>, not \<open>failed\<close>, and the counter of \<open>A\<close> goes from 2 to 0.
\<close>

theorem C6_recovery_writes_none_and_resets_tries:
  "map f_ai_tagging_status (files world_pending) = [''pending'', ''pending'', ''failed''] \<and>
   map f_ai_tagging_tries (files world_pending) = [2, 1, 3] \<and>
   fst (RecoverPendingOnStartup env0 world_pending 1) = (1, None) \<and>
   map f_ai_tagging_status (files (snd (RecoverPendingOnStartup env0 world_pending 1))) =
     [''none'', ''pending'', ''failed''] \<and>
   map f_ai_tagging_tries (files (snd (RecoverPendingOnStartup env0 world_pending 1))) =
     [0, 1, 3]"
  by (simp add: eval_recover_limit_1) (simp add: world_pending_def world0_def mk_file_def)

subsection \<open>Persisting a result twice\<close>

text \<open>The writes to the three tables are idempotent.\<close>

lemma ai_info_of_is_clone: "dup_ai_info (ai_info_of i res u) i = ai_info_of i res u"
  by (simp add: ai_info_of_def dup_ai_info_def)

lemma upsert_ai_info_of_twice:
  "upsert_ai_info (ai_info_of i res u) (upsert_ai_info (ai_info_of i res u) rows) =
   upsert_ai_info (ai_info_of i res u) rows"
  using upsert_has_clone_id [OF has_clone_upsert, of "ai_info_of i res u" i rows]
  by (simp add: ai_info_of_is_clone)

lemma filter_key_map_upsert:
  "ai_FileID new = k \<Longrightarrow>
   length (filter (\<lambda>a. ai_FileID a = k)
             (map (\<lambda>r. if ai_FileID r = k then new\<lparr>ai_ID := ai_ID r\<rparr> else r) rows)) =
   length (filter (\<lambda>a. ai_FileID a = k) rows)"
  by (induction rows) auto

lemma upsert_count:
  "length (filter (\<lambda>a. ai_FileID a = ai_FileID new) (upsert_ai_info new rows)) =
     (if filter (\<lambda>a. ai_FileID a = ai_FileID new) rows = [] then 1
      else length (filter (\<lambda>a. ai_FileID a = ai_FileID new) rows))"
proof (cases "list_ex (\<lambda>r. ai_FileID r = ai_FileID new) rows")
  case True
  then have "filter (\<lambda>a. ai_FileID a = ai_FileID new) rows \<noteq> []"
    by (simp add: list_ex_iff filter_empty_conv)
  with True show ?thesis
    by (simp add: upsert_ai_info_def filter_key_map_upsert del: length_filter_map)
next
  case False
  then have "filter (\<lambda>a. ai_FileID a = ai_FileID new) rows = []"
    by (simp add: list_ex_iff filter_empty_conv)
  with False show ?thesis by (simp add: upsert_ai_info_def)
qed

lemma find_append_Some: "find P xs = Some x \<Longrightarrow> find P (xs @ ys) = Some x"
  by (induction xs) (auto split: if_splits)

lemma find_append_None: "find P xs = None \<Longrightarrow> find P (xs @ ys) = find P ys"
  by (induction xs) (auto split: if_splits)

lemma create_tags_Cons_Some:
  "find (\<lambda>t. tag_Name t = n) T = Some t \<Longrightarrow>
   create_tags (n # ns) T = (tag_ID t # fst (create_tags ns T), snd (create_tags ns T))"
  by (simp add: split_beta)

lemma create_tags_Cons_None:
  "find (\<lambda>t. tag_Name t = n) T = None \<Longrightarrow>
   create_tags (n # ns) T =
     (next_id (map tag_ID T) #
        fst (create_tags ns (T @ [\<lparr>tag_ID = next_id (map tag_ID T), tag_Name = n\<rparr>])),
      snd (create_tags ns (T @ [\<lparr>tag_ID = next_id (map tag_ID T), tag_Name = n\<rparr>])))"
  by (simp add: split_beta Let_def)

lemma create_tags_extends: "\<exists>add. snd (create_tags ns T) = T @ add"
proof (induction ns arbitrary: T)
  case Nil
  show ?case by simp
next
  case (Cons n ns)
  show ?case
  proof (cases "find (\<lambda>t. tag_Name t = n) T")
    case None
    from Cons [of "T @ [\<lparr>tag_ID = next_id (map tag_ID T), tag_Name = n\<rparr>]"]
    obtain add where
      "snd (create_tags ns (T @ [\<lparr>tag_ID = next_id (map tag_ID T), tag_Name = n\<rparr>])) =
         (T @ [\<lparr>tag_ID = next_id (map tag_ID T), tag_Name = n\<rparr>]) @ add" ..
    then show ?thesis by (simp add: create_tags_Cons_None [OF None] del: create_tags.simps)
  next
    case (Some t)
    from Cons [of T] show ?thesis by (simp add: create_tags_Cons_Some [OF Some] del: create_tags.simps)
  qed
qed

lemma create_tags_keeps_found:
  assumes "find P T = Some t"
  shows "find P (snd (create_tags ns T)) = Some t"
proof -
  obtain add where "snd (create_tags ns T) = T @ add" using create_tags_extends by blast
  then show ?thesis by (simp add: find_append_Some [OF assms])
qed

lemma create_tags_found:
  "(\<And>n. n \<in> set ns \<Longrightarrow> \<exists>t. find (\<lambda>t. tag_Name t = n) T = Some t) \<Longrightarrow>
   create_tags ns T = (map (\<lambda>n. tag_ID (the (find (\<lambda>t. tag_Name t = n) T))) ns, T)"
proof (induction ns)
  case Nil
  show ?case by simp
next
  case (Cons n ns)
  from Cons.prems [of n] obtain t where t: "find (\<lambda>t. tag_Name t = n) T = Some t" by auto
  have "create_tags ns T = (map (\<lambda>n. tag_ID (the (find (\<lambda>t. tag_Name t = n) T))) ns, T)"
    by (rule Cons.IH) (simp add: Cons.prems)
  then show ?case by (simp add: create_tags_Cons_Some [OF t] t del: create_tags.simps)
qed

lemma create_tags_result:
  "fst (create_tags ns T) =
     map (\<lambda>n. tag_ID (the (find (\<lambda>t. tag_Name t = n) (snd (create_tags ns T))))) ns \<and>
   (\<forall>n \<in> set ns. \<exists>t. find (\<lambda>t. tag_Name t = n) (snd (create_tags ns T)) = Some t)"
proof (induction ns arbitrary: T)
  case Nil
  show ?case by simp
next
  case (Cons n ns)
  show ?case
  proof (cases "find (\<lambda>t. tag_Name t = n) T")
    case (Some t)
    have k: "find (\<lambda>t. tag_Name t = n) (snd (create_tags ns T)) = Some t"
      by (rule create_tags_keeps_found [OF Some])
    from Cons [of T] show ?thesis
      by (simp add: create_tags_Cons_Some [OF Some] k del: create_tags.simps)
  next
    case None
    define new where "new = \<lparr>tag_ID = next_id (map tag_ID T), tag_Name = n\<rparr>"
    have "find (\<lambda>t. tag_Name t = n) (T @ [new]) = Some new"
      by (simp add: find_append_None [OF None] new_def)
    then have k: "find (\<lambda>t. tag_Name t = n) (snd (create_tags ns (T @ [new]))) = Some new"
      by (rule create_tags_keeps_found)
    have i: "tag_ID new = next_id (map tag_ID T)" by (simp add: new_def)
    from Cons [of "T @ [new]"] show ?thesis
      by (simp add: create_tags_Cons_None [OF None] new_def [symmetric] k i del: create_tags.simps)
  qed
qed

lemma create_tags_stable:
  "create_tags ns (snd (create_tags ns T)) = create_tags ns T"
proof -
  have "create_tags ns (snd (create_tags ns T)) =
          (map (\<lambda>n. tag_ID (the (find (\<lambda>t. tag_Name t = n) (snd (create_tags ns T))))) ns,
           snd (create_tags ns T))"
    by (rule create_tags_found) (simp add: create_tags_result)
  also have "\<dots> = create_tags ns T"
    using create_tags_result [of ns T] by (simp add: prod_eq_iff)
  finally show ?thesis .
qed

lemma replace_rows_twice:
  "filter (\<lambda>r. rel_FileID r \<noteq> i)
     (filter (\<lambda>r. rel_FileID r \<noteq> i) R @
      map (\<lambda>t. \<lparr>rel_FileID = i, rel_TagID = t, rel_UserID = u, rel_AccessLevel = a,
                rel_Source = s, rel_Confidence = c\<rparr>) ids) =
   filter (\<lambda>r. rel_FileID r \<noteq> i) R"
  by (simp add: filter_map comp_def)


text \<open>
  A second run: whether a stage of \<open>processAIResponse\<close> goes on depends on the failing
  statements and on the ids of the file rows only, and what it writes to the three tables
  depends on those tables only.
\<close>

lemma fileExists_ids:
  assumes "map f_id (files v) = map f_id (files w)"
  shows "fileExists e v i = fileExists e w i"
proof -
  have "length (filter (\<lambda>r. f_id r = i) xs) = length (filter (\<lambda>x. x = i) (map f_id xs))"
    for xs :: "file_row list"
    by (induction xs) simp_all
  note aux = this
  have "length (filter (\<lambda>r. f_id r = i) (files v)) =
          length (filter (\<lambda>x. x = i) (map f_id (files v)))"
    by (rule aux)
  also have "\<dots> = length (filter (\<lambda>x. x = i) (map f_id (files w)))"
    by (simp only: assms)
  also have "\<dots> = length (filter (\<lambda>r. f_id r = i) (files w))"
    by (rule aux [symmetric])
  finally show ?thesis by (auto simp: fileExists_def split: option.splits)
qed

lemma recommended_ids:
  "map f_id (files (snd (processAIResponse_recommended e w file result))) = map f_id (files w)"
  by (auto simp: processAIResponse_recommended_def split: option.splits)

lemma recommended_fst:
  assumes "map f_id (files v) = map f_id (files w)"
  shows "fst (processAIResponse_recommended e v file result) =
         fst (processAIResponse_recommended e w file result)"
  by (simp add: processAIResponse_recommended_def fileExists_ids [OF assms] split: option.splits)

lemma processAndSaveTags_fst:
  "fst (processAndSaveTags e w file tags) =
     (if tags = [] then None
      else case db_err e S_CreateTagsFromNames ''ai'' of
             Some m \<Rightarrow> Some m
           | None \<Rightarrow> db_err e S_ReplaceFileTagsTx (f_id file))"
  by (simp add: processAndSaveTags_def CreateTagsFromNames_def ReplaceFileTagsTx_def split_beta
      split: option.splits)

lemma save_failed_fst: "fst (save_failed e w i m) \<noteq> None"
  by (simp add: save_failed_def)

lemma tags_or_failed_fst:
  "fst (case p of (Some m, w1) \<Rightarrow> save_failed e w1 i m | (None, w1) \<Rightarrow> (None, w1)) = None \<longleftrightarrow>
   fst p = None"
  by (cases p; cases "fst p") (auto simp: save_failed_fst)

lemma tags_stage_fst_None:
  "fst (processAIResponse_tags e v file result cde mode) = None \<longleftrightarrow>
   (cde \<and> IsNSFW (ContentSafety result) \<and> mode = ''auto_delete'') \<or>
   Tags result = [] \<or>
   (db_err e S_CreateTagsFromNames ''ai'' = None \<and>
    db_err e S_ReplaceFileTagsTx (f_id file) = None)"
  unfolding processAIResponse_tags_def
  by (auto simp: tags_or_failed_fst processAndSaveTags_fst split: option.splits)

lemma processAndSaveTags_tables:
  assumes "processAndSaveTags e w0 file tags = (None, w1)"
  shows "global_tag w1 =
           (if tags = [] then global_tag w0 else snd (create_tags tags (global_tag w0)))"
    and "file_global_tag_relation w1 =
           (if tags = [] then file_global_tag_relation w0
            else filter (\<lambda>rel. rel_FileID rel \<noteq> f_id file) (file_global_tag_relation w0) @
                 map (\<lambda>t. \<lparr>rel_FileID = f_id file, rel_TagID = t, rel_UserID = 0,
                           rel_AccessLevel = [], rel_Source = ''ai'',
                           rel_Confidence = AIDefaultConfidence e\<rparr>)
                   (fst (create_tags tags (global_tag w0))))"
    and "files w1 = files w0"
  using assms
  by (auto simp: processAndSaveTags_def CreateTagsFromNames_def ReplaceFileTagsTx_def
      split: prod.splits sum.splits option.splits if_splits)

lemma tags_stage_tables:
  assumes "processAIResponse_tags e w file result cde mode = (None, w')"
  shows "global_tag w' =
           (if (cde \<and> IsNSFW (ContentSafety result) \<and> mode = ''auto_delete'') \<or>
               Tags result = []
            then global_tag w else snd (create_tags (Tags result) (global_tag w)))"
    and "file_global_tag_relation w' =
           (if (cde \<and> IsNSFW (ContentSafety result) \<and> mode = ''auto_delete'') \<or>
               Tags result = []
            then file_global_tag_relation w
            else filter (\<lambda>rel. rel_FileID rel \<noteq> f_id file) (file_global_tag_relation w) @
                 map (\<lambda>t. \<lparr>rel_FileID = f_id file, rel_TagID = t, rel_UserID = 0,
                           rel_AccessLevel = [], rel_Source = ''ai'',
                           rel_Confidence = AIDefaultConfidence e\<rparr>)
                   (fst (create_tags (Tags result) (global_tag w))))"
    and "files w' = files w"
proof -
  let ?skip = "cde \<and> IsNSFW (ContentSafety result) \<and> mode = ''auto_delete''"
  have "?skip \<and> w' = invoke (MarkFileForDeletion (f_id file)) w \<or>
        \<not> ?skip \<and> (\<exists>w0. processAndSaveTags e w0 file (Tags result) = (None, w') \<and>
                     global_tag w0 = global_tag w \<and>
                     file_global_tag_relation w0 = file_global_tag_relation w \<and>
                     files w0 = files w)"
  proof (cases ?skip)
    case True
    with assms show ?thesis by (simp add: processAIResponse_tags_def)
  next
    case False
    define w0 where
      "w0 = (if cde \<and> IsNSFW (ContentSafety result) \<and> mode = ''pending_review''
             then invoke (MarkFileForReview (f_id file) (NSFWReason (ContentSafety result))) w
             else w)"
    have eq: "processAIResponse_tags e w file result cde mode =
            (case processAndSaveTags e w0 file (Tags result) of
               (Some m, w1) \<Rightarrow> save_failed e w1 (f_id file) m
             | (None, w1) \<Rightarrow> (None, w1))"
      using False by (auto simp: processAIResponse_tags_def w0_def)
    have "fst (processAndSaveTags e w0 file (Tags result)) = None"
      using assms tags_or_failed_fst
        [where p = "processAndSaveTags e w0 file (Tags result)" and e = e and i = "f_id file"]
      by (simp add: eq)
    then obtain w1 where p: "processAndSaveTags e w0 file (Tags result) = (None, w1)"
      by (cases "processAndSaveTags e w0 file (Tags result)") simp
    with assms have "w1 = w'" by (simp add: eq)
    with p have "processAndSaveTags e w0 file (Tags result) = (None, w')" by simp
    moreover have "global_tag w0 = global_tag w"
      "file_global_tag_relation w0 = file_global_tag_relation w" "files w0 = files w"
      by (simp_all add: w0_def)
    ultimately show ?thesis using False by blast
  qed
  then consider (skip) "?skip" "w' = invoke (MarkFileForDeletion (f_id file)) w"
    | (save) w0 where "\<not> ?skip" "processAndSaveTags e w0 file (Tags result) = (None, w')"
        "global_tag w0 = global_tag w" "file_global_tag_relation w0 = file_global_tag_relation w"
        "files w0 = files w"
    by blast
  note cases = this
  show "global_tag w' =
           (if ?skip \<or> Tags result = []
            then global_tag w else snd (create_tags (Tags result) (global_tag w)))"
  proof (cases rule: cases)
    case skip
    then show ?thesis by simp
  next
    case (save w0)
    then show ?thesis using processAndSaveTags_tables(1) [OF save(2)] by auto
  qed
  show "file_global_tag_relation w' =
           (if ?skip \<or> Tags result = []
            then file_global_tag_relation w
            else filter (\<lambda>rel. rel_FileID rel \<noteq> f_id file) (file_global_tag_relation w) @
                 map (\<lambda>t. \<lparr>rel_FileID = f_id file, rel_TagID = t, rel_UserID = 0,
                           rel_AccessLevel = [], rel_Source = ''ai'',
                           rel_Confidence = AIDefaultConfidence e\<rparr>)
                   (fst (create_tags (Tags result) (global_tag w))))"
  proof (cases rule: cases)
    case skip
    then show ?thesis by simp
  next
    case (save w0)
    then show ?thesis using processAndSaveTags_tables(2) [OF save(2)] by auto
  qed
  show "files w' = files w"
  proof (cases rule: cases)
    case skip
    then show ?thesis by simp
  next
    case (save w0)
    then show ?thesis using processAndSaveTags_tables(3) [OF save(2)] by auto
  qed
qed

lemma finish_fst_None:
  "fst (processAIResponse_finish e v file r result cde) = None \<longleftrightarrow>
   \<not> (cde \<and> IsNSFW (ContentSafety result)) \<or>
   db_err e S_updateFileNSFWStatus (f_id file) = None"
  by (simp add: processAIResponse_finish_def updateFileNSFWStatus_def Let_def save_failed_fst
      split: option.splits)

lemma finish_ids:
  assumes "processAIResponse_finish e w file r result cde = (None, w')"
  shows "map f_id (files w') = map f_id (files w)"
proof -
  define w1 where "w1 = (if cde \<and> IsNSFW (ContentSafety result)
                         then snd (updateFileNSFWStatus e w (f_id file) True) else w)"
  have ids1: "map f_id (files w1) = map f_id (files w)" by (simp add: w1_def)
  have "files w' = files (snd (updateFileStatus e w1 (f_id file) AITaggingStatusDone))"
    using assms
    by (auto simp: processAIResponse_finish_def Let_def w1_def save_failed_not_None
        split: prod.splits option.splits if_splits dest!: pair_eqD)
  then show ?thesis by (simp add: ids1)
qed

lemma processAIResponse_None_success:
  assumes "processAIResponse e w file (Some r) cde mode = (None, w')"
  shows "Success r" and "\<exists>parsed. parseAITaggingResult e (Data r) = Inr parsed"
proof -
  show s: "Success r"
    using assms unsuccessful_not_None [of e w "file" "Some r" cde mode w']
    by (cases "Success r") (simp_all add: processAIResponse_def)
  show "\<exists>parsed. parseAITaggingResult e (Data r) = Inr parsed"
    using assms s by (cases "parseAITaggingResult e (Data r)") (simp_all add: processAIResponse_def)
qed

lemma processAIResponse_success_intro:
  assumes "Success r" and "parseAITaggingResult e (Data r) = Inr parsed"
    and "result = (if f_resolution file \<noteq> []
                   then parsed\<lparr>BasicInfo := (BasicInfo parsed)\<lparr>Resolution := f_resolution file\<rparr>\<rparr>
                   else parsed)"
    and "saveFileAIInfo e w (f_id file) result (Usage r) = (None, w1)"
    and "processAIResponse_recommended e w1 file result = (None, w2)"
    and "processAIResponse_tags e w2 file result cde mode = (None, w3)"
    and "processAIResponse_finish e w3 file r result cde = (None, w4)"
  shows "processAIResponse e w file (Some r) cde mode = (None, w4)"
  using assms(4-7) unfolding assms(3)
  by (simp add: processAIResponse_def assms(1,2)  Let_def)


lemma processAIResponse_ids:
  assumes "processAIResponse e w file (Some r) cde mode = (None, w')"
  shows "map f_id (files w') = map f_id (files w)"
proof -
  note s = processAIResponse_None_success [OF assms]
  from s(2) obtain parsed where p: "parseAITaggingResult e (Data r) = Inr parsed" ..
  define result where
    "result = (if f_resolution file \<noteq> []
               then parsed\<lparr>BasicInfo := (BasicInfo parsed)\<lparr>Resolution := f_resolution file\<rparr>\<rparr>
               else parsed)"
  from s(1) p assms result_def show ?thesis
  proof (rule processAIResponse_success_decomp)
    fix w1 w2 w3
    assume a: "saveFileAIInfo e w (f_id file) result (Usage r) = (None, w1)"
      and b: "processAIResponse_recommended e w1 file result = (None, w2)"
      and c: "processAIResponse_tags e w2 file result cde mode = (None, w3)"
      and d: "processAIResponse_finish e w3 file r result cde = (None, w')"
    have 1: "files w1 = files w"
      using saveFileAIInfo_frame(2) [of e w "f_id file" result "Usage r"] a by simp
    have 2: "map f_id (files w2) = map f_id (files w1)"
      using recommended_ids [of e w1 "file" result] b by simp
    show ?thesis
      by (simp add: finish_ids [OF d] tags_stage_tables(3) [OF c] 2 1)
  qed
qed

lemma processAIResponse_tables:
  assumes "Success r" and "parseAITaggingResult e (Data r) = Inr parsed"
    and "processAIResponse e w file (Some r) cde mode = (None, w')"
  shows "file_ai_info w' =
           upsert_ai_info
             (ai_info_of (f_id file)
                (if f_resolution file \<noteq> []
                 then parsed\<lparr>BasicInfo := (BasicInfo parsed)\<lparr>Resolution := f_resolution file\<rparr>\<rparr>
                 else parsed)
                (Usage r))
             (file_ai_info w)"
    and "global_tag w' =
           (if (cde \<and> IsNSFW (ContentSafety parsed) \<and> mode = ''auto_delete'') \<or>
               Tags parsed = []
            then global_tag w else snd (create_tags (Tags parsed) (global_tag w)))"
    and "file_global_tag_relation w' =
           (if (cde \<and> IsNSFW (ContentSafety parsed) \<and> mode = ''auto_delete'') \<or>
               Tags parsed = []
            then file_global_tag_relation w
            else filter (\<lambda>rel. rel_FileID rel \<noteq> f_id file) (file_global_tag_relation w) @
                 map (\<lambda>t. \<lparr>rel_FileID = f_id file, rel_TagID = t, rel_UserID = 0,
                           rel_AccessLevel = [], rel_Source = ''ai'',
                           rel_Confidence = AIDefaultConfidence e\<rparr>)
                   (fst (create_tags (Tags parsed) (global_tag w))))"
proof -
  show "file_ai_info w' =
           upsert_ai_info
             (ai_info_of (f_id file)
                (if f_resolution file \<noteq> []
                 then parsed\<lparr>BasicInfo := (BasicInfo parsed)\<lparr>Resolution := f_resolution file\<rparr>\<rparr>
                 else parsed)
                (Usage r))
             (file_ai_info w)"
    by (rule processAIResponse_ai_info [OF assms])
  define result where
    "result = (if f_resolution file \<noteq> []
               then parsed\<lparr>BasicInfo := (BasicInfo parsed)\<lparr>Resolution := f_resolution file\<rparr>\<rparr>
               else parsed)"
  have f: "ContentSafety result = ContentSafety parsed" "Tags result = Tags parsed"
    by (simp_all add: result_def)
  from assms result_def
  have "global_tag w' =
           (if (cde \<and> IsNSFW (ContentSafety result) \<and> mode = ''auto_delete'') \<or>
               Tags result = []
            then global_tag w else snd (create_tags (Tags result) (global_tag w))) \<and>
        file_global_tag_relation w' =
           (if (cde \<and> IsNSFW (ContentSafety result) \<and> mode = ''auto_delete'') \<or>
               Tags result = []
            then file_global_tag_relation w
            else filter (\<lambda>rel. rel_FileID rel \<noteq> f_id file) (file_global_tag_relation w) @
                 map (\<lambda>t. \<lparr>rel_FileID = f_id file, rel_TagID = t, rel_UserID = 0,
                           rel_AccessLevel = [], rel_Source = ''ai'',
                           rel_Confidence = AIDefaultConfidence e\<rparr>)
                   (fst (create_tags (Tags result) (global_tag w))))"
  proof (rule processAIResponse_success_decomp)
    fix w1 w2 w3
    assume a: "saveFileAIInfo e w (f_id file) result (Usage r) = (None, w1)"
      and b: "processAIResponse_recommended e w1 file result = (None, w2)"
      and c: "processAIResponse_tags e w2 file result cde mode = (None, w3)"
      and d: "processAIResponse_finish e w3 file r result cde = (None, w')"
    have r1: "file_global_tag_relation w1 = file_global_tag_relation w"
      "global_tag w1 = global_tag w"
      using saveFileAIInfo_frame(3,4) [of e w "f_id file" result "Usage r"] a by simp_all
    have g2: "global_tag w2 = global_tag w" "file_global_tag_relation w2 = file_global_tag_relation w"
      by (simp_all add: recommended_frame(3,4) [OF b] r1)
    show ?thesis
      unfolding finish_calls(2,3) [OF d] tags_stage_tables(1,2) [OF c] g2 by simp
  qed
  then show "global_tag w' =
           (if (cde \<and> IsNSFW (ContentSafety parsed) \<and> mode = ''auto_delete'') \<or>
               Tags parsed = []
            then global_tag w else snd (create_tags (Tags parsed) (global_tag w)))"
    and "file_global_tag_relation w' =
           (if (cde \<and> IsNSFW (ContentSafety parsed) \<and> mode = ''auto_delete'') \<or>
               Tags parsed = []
            then file_global_tag_relation w
            else filter (\<lambda>rel. rel_FileID rel \<noteq> f_id file) (file_global_tag_relation w) @
                 map (\<lambda>t. \<lparr>rel_FileID = f_id file, rel_TagID = t, rel_UserID = 0,
                           rel_AccessLevel = [], rel_Source = ''ai'',
                           rel_Confidence = AIDefaultConfidence e\<rparr>)
                   (fst (create_tags (Tags parsed) (global_tag w))))"
    by (simp_all only: f)
qed

lemma processAIResponse_again:
  assumes run: "processAIResponse e w file (Some r) cde mode = (None, w')"
  shows "fst (processAIResponse e w' file (Some r) cde mode) = None"
proof -
  note s = processAIResponse_None_success [OF run]
  from s(2) obtain parsed where p: "parseAITaggingResult e (Data r) = Inr parsed" ..
  define result where
    "result = (if f_resolution file \<noteq> []
               then parsed\<lparr>BasicInfo := (BasicInfo parsed)\<lparr>Resolution := f_resolution file\<rparr>\<rparr>
               else parsed)"
  have ids: "map f_id (files w') = map f_id (files w)" by (rule processAIResponse_ids [OF run])
  from s(1) p run result_def show ?thesis
  proof (rule processAIResponse_success_decomp)
    fix w1 w2 w3
    assume a: "saveFileAIInfo e w (f_id file) result (Usage r) = (None, w1)"
      and b: "processAIResponse_recommended e w1 file result = (None, w2)"
      and c: "processAIResponse_tags e w2 file result cde mode = (None, w3)"
      and d: "processAIResponse_finish e w3 file r result cde = (None, w')"
    define v1 where "v1 = snd (saveFileAIInfo e w' (f_id file) result (Usage r))"
    define v2 where "v2 = snd (processAIResponse_recommended e v1 file result)"
    define v3 where "v3 = snd (processAIResponse_tags e v2 file result cde mode)"
    define v4 where "v4 = snd (processAIResponse_finish e v3 file r result cde)"
    from a have ok: "db_err e S_saveFileAIInfo (f_id file) = None"
      by (auto simp: saveFileAIInfo_def split: option.splits)
    have "fst (saveFileAIInfo e w' (f_id file) result (Usage r)) = None"
      by (simp add: saveFileAIInfo_def ok)
    then have a': "saveFileAIInfo e w' (f_id file) result (Usage r) = (None, v1)"
      by (simp add: v1_def prod_eq_iff)
    have 1: "files w1 = files w"
      using saveFileAIInfo_frame(2) [of e w "f_id file" result "Usage r"] a by simp
    have "files v1 = files w'" by (simp add: v1_def)
    then have "map f_id (files v1) = map f_id (files w1)" by (simp add: ids 1)
    then have "fst (processAIResponse_recommended e v1 file result) =
               fst (processAIResponse_recommended e w1 file result)"
      by (rule recommended_fst)
    then have b': "processAIResponse_recommended e v1 file result = (None, v2)"
      by (simp add: v2_def prod_eq_iff b)
    have "fst (processAIResponse_tags e w2 file result cde mode) = None" by (simp add: c)
    then have "fst (processAIResponse_tags e v2 file result cde mode) = None"
      by (simp only: tags_stage_fst_None)
    then have c': "processAIResponse_tags e v2 file result cde mode = (None, v3)"
      by (simp add: v3_def prod_eq_iff)
    have "fst (processAIResponse_finish e w3 file r result cde) = None" by (simp add: d)
    then have "fst (processAIResponse_finish e v3 file r result cde) = None"
      by (simp only: finish_fst_None)
    then have d': "processAIResponse_finish e v3 file r result cde = (None, v4)"
      by (simp add: v4_def prod_eq_iff)
    have "processAIResponse e w' file (Some r) cde mode = (None, v4)"
      by (rule processAIResponse_success_intro [OF s(1) p result_def a' b' c' d'])
    then show ?thesis by simp
  qed
qed

lemma processAIResponse_twice_tables:
  assumes run: "processAIResponse e w file (Some r) cde mode = (None, w')"
    and again: "processAIResponse e w' file (Some r) cde mode = (None, w'')"
  shows "file_ai_info w'' = file_ai_info w'"
    and "global_tag w'' = global_tag w'"
    and "file_global_tag_relation w'' = file_global_tag_relation w'"
proof -
  note s = processAIResponse_None_success [OF run]
  from s(2) obtain parsed where p: "parseAITaggingResult e (Data r) = Inr parsed" ..
  note t1 = processAIResponse_tables [OF s(1) p run]
  note t2 = processAIResponse_tables [OF s(1) p again]
  show "file_ai_info w'' = file_ai_info w'"
    unfolding t2(1) unfolding t1(1) by (rule upsert_ai_info_of_twice)
  show "global_tag w'' = global_tag w'"
    unfolding t2(2) unfolding t1(2) by (simp add: create_tags_stable)
  show "file_global_tag_relation w'' = file_global_tag_relation w'"
    unfolding t2(3) unfolding t1(2,3) by (simp add: create_tags_stable replace_rows_twice)
qed

text \<open>Propagating to the duplicates a second time, when no statement fails.\<close>

lemma find_map_ids:
  assumes "\<And>r. f_id (g r) = f_id r"
  shows "find (\<lambda>r. f_id r = k) (map g xs) = map_option g (find (\<lambda>r. f_id r = k) xs)"
  by (induction xs) (simp_all add: assms)

lemma filter_map_invariant:
  assumes "\<And>r. P (g r) = P r"
  shows "filter P (map g xs) = map g (filter P xs)"
  by (induction xs) (simp_all add: assms)

lemma dup_file_row_orig_cong:
  "f_category_id o2 = f_category_id o1 \<Longrightarrow> f_category_source o2 = f_category_source o1 \<Longrightarrow>
   dup_file_row o2 A r = dup_file_row o1 A r"
  by (simp add: dup_file_row_def Let_def split: option.splits)

lemma dup_file_row_category:
  "f_category_id (dup_file_row orig A orig) = f_category_id orig"
  "f_category_source (dup_file_row orig A orig) = f_category_source orig"
  by (simp_all add: dup_file_row_def Let_def split: option.splits)

lemma original_ai_info_after:
  assumes rows: "rows' = (if ai_FileID (original_ai_info w k) \<noteq> []
                          then fold (\<lambda>d. upsert_ai_info (dup_ai_info (original_ai_info w k) d)) ds
                                 (file_ai_info w)
                          else file_ai_info w)"
    and w': "file_ai_info w' = rows'"
  shows "original_ai_info w' k = original_ai_info w k"
proof (cases "ai_FileID (original_ai_info w k) \<noteq> []")
  case False
  with rows w' have "file_ai_info w' = file_ai_info w" by simp
  then show ?thesis by (simp add: original_ai_info_def)
next
  case True
  have z: "ai_FileID zero_ai_info = []" by (simp add: zero_ai_info_def)
  from True z have f: "find (\<lambda>a. ai_FileID a = k) (file_ai_info w) = Some (original_ai_info w k)"
    by (cases "find (\<lambda>a. ai_FileID a = k) (file_ai_info w)")
      (auto simp: original_ai_info_def)
  have "find (\<lambda>a. ai_FileID a = k) (file_ai_info w') = Some (original_ai_info w k)"
    using find_fold_upsert_self [OF f, of ds] True by (simp add: w' rows)
  then show ?thesis by (simp add: original_ai_info_def [of w'])
qed

lemma propagate_twice:
  assumes ok: "db_err e = (\<lambda>s k. None)"
  shows "propagateAIToDuplicates e (propagateAIToDuplicates e w k) k =
         propagateAIToDuplicates e w k"
proof (cases "db_available e \<and> find (\<lambda>r. f_id r = k) (files w) \<noteq> None")
  case False
  then have "propagateAIToDuplicates e w k = w"
    by (intro propagate_unavailable) auto
  then show ?thesis by simp
next
  case True
  then obtain orig where db: "db_available e"
    and orig: "find (\<lambda>r. f_id r = k) (files w) = Some orig" by auto
  define A where "A = original_ai_info w k"
  define dups where "dups = duplicates_of w k"
  define g where "g = (\<lambda>r. if f_id r \<in> f_id ` set dups then dup_file_row orig A r else r)"
  define w' where "w' = propagateAIToDuplicates e w k"
  have h: "w' = fold (propagate_dup e orig A k) dups w"
    unfolding w'_def A_def dups_def by (rule propagate_healthy [OF db ok orig])
  have files': "files w' = map g (files w)"
    unfolding h g_def by (rule fold_propagate_files [OF ok])
  have ai': "file_ai_info w' =
               (if ai_FileID A \<noteq> []
                then fold (\<lambda>d. upsert_ai_info (dup_ai_info A d)) (map f_id dups) (file_ai_info w)
                else file_ai_info w)"
    unfolding h by (rule fold_propagate_ai_info [OF ok])
  have rels': "file_global_tag_relation w' =
                 fold (copy_relations k) (map f_id dups) (file_global_tag_relation w)"
    unfolding h by (rule fold_propagate_relations [OF ok])
  have g_id: "f_id (g r) = f_id r" for r by (simp add: g_def)
  have g_P: "(f_original_file_id (g r) = k \<and> f_status (g r) \<noteq> ''pending_deletion'') =
             (f_original_file_id r = k \<and> f_status r \<noteq> ''pending_deletion'')" for r
    by (simp add: g_def)
  have orig': "find (\<lambda>r. f_id r = k) (files w') = Some (g orig)"
    by (simp add: files' find_map_ids [of g, OF g_id] orig)
  have A': "original_ai_info w' k = A"
    unfolding A_def
    by (rule original_ai_info_after [where ds = "map f_id dups", OF refl]) (simp add: ai' A_def)
  have dups': "duplicates_of w' k = map g dups"
    unfolding duplicates_of_def files' dups_def
    by (rule filter_map_invariant) (rule g_P)
  have ids': "map f_id (map g dups) = map f_id dups" by (simp add: g_id)
  have set': "f_id ` set (map g dups) = f_id ` set dups"
    using ids' by (metis list.set_map)
  have cat: "dup_file_row (g orig) A r = dup_file_row orig A r" for r
    by (rule dup_file_row_orig_cong) (simp_all add: g_def dup_file_row_category)
  have h2: "propagateAIToDuplicates e w' k = fold (propagate_dup e (g orig) A k) (map g dups) w'"
    using propagate_healthy [OF db ok orig'] by (simp add: A' dups')
  have g_g: "g (g r) = g r" for r by (simp add: g_def)
  have 1: "files (propagateAIToDuplicates e w' k) = files w'"
    unfolding h2 fold_propagate_files [OF ok] set' cat
    by (simp add: files' g_def [symmetric] g_g)
  have 2: "file_ai_info (propagateAIToDuplicates e w' k) = file_ai_info w'"
    unfolding h2 fold_propagate_ai_info [OF ok] ids'
    by (simp add: ai' fold_upsert_twice)
  have 3: "file_global_tag_relation (propagateAIToDuplicates e w' k) =
           file_global_tag_relation w'"
    unfolding h2 fold_propagate_relations [OF ok] ids'
    by (simp add: rels' fold_copy_relations_twice)
  have 4: "calls (propagateAIToDuplicates e w' k) = calls w'"
    "global_tag (propagateAIToDuplicates e w' k) = global_tag w'"
    "file_tagging_log (propagateAIToDuplicates e w' k) = file_tagging_log w'"
    "globalTaggingService (propagateAIToDuplicates e w' k) = globalTaggingService w'"
    unfolding h2 by simp_all
  have "propagateAIToDuplicates e w' k = w'"
    by (rule world.equality) (simp_all add: 1 2 3 4)
  then show ?thesis by (simp add: w'_def)
qed

text \<open>
  C5. Let a run of \<open>processAIResponse\<close> over a response return nil. Then a second run over
  the same response, from the state that the first run left, returns nil too, and it leaves
  the table of AI records, the table of tag associations and the tag table exactly as the
  first run left them. After the first run the file has one AI record if it had none
  before, and as many as before otherwise. And when no statement fails, propagating to the
  duplicates a second time changes nothing.
\<close>

theorem C5_persisting_twice_is_persisting_once:
  assumes "processAIResponse e w file (Some r) cde mode = (None, w1)"
  shows "fst (processAIResponse e w1 file (Some r) cde mode) = None \<and>
         file_ai_info (snd (processAIResponse e w1 file (Some r) cde mode)) = file_ai_info w1 \<and>
         file_global_tag_relation (snd (processAIResponse e w1 file (Some r) cde mode)) =
           file_global_tag_relation w1 \<and>
         global_tag (snd (processAIResponse e w1 file (Some r) cde mode)) = global_tag w1 \<and>
         length (filter (\<lambda>a. ai_FileID a = f_id file) (file_ai_info w1)) =
           (if filter (\<lambda>a. ai_FileID a = f_id file) (file_ai_info w) = [] then 1
            else length (filter (\<lambda>a. ai_FileID a = f_id file) (file_ai_info w))) \<and>
         (db_err e = (\<lambda>s k. None) \<longrightarrow>
            propagateAIToDuplicates e (propagateAIToDuplicates e v originalID) originalID =
            propagateAIToDuplicates e v originalID)"
proof -
  have 1: "fst (processAIResponse e w1 file (Some r) cde mode) = None"
    by (rule processAIResponse_again [OF assms])
  then have again: "processAIResponse e w1 file (Some r) cde mode =
                      (None, snd (processAIResponse e w1 file (Some r) cde mode))"
    by (simp add: prod_eq_iff)
  note t = processAIResponse_twice_tables [OF assms again]
  note s = processAIResponse_None_success [OF assms]
  from s(2) obtain parsed where p: "parseAITaggingResult e (Data r) = Inr parsed" ..
  have 5: "length (filter (\<lambda>a. ai_FileID a = f_id file) (file_ai_info w1)) =
           (if filter (\<lambda>a. ai_FileID a = f_id file) (file_ai_info w) = [] then 1
            else length (filter (\<lambda>a. ai_FileID a = f_id file) (file_ai_info w)))"
    unfolding processAIResponse_tables(1) [OF s(1) p assms]
    using upsert_count
      [of "ai_info_of (f_id file)
             (if f_resolution file \<noteq> []
              then parsed\<lparr>BasicInfo := (BasicInfo parsed)\<lparr>Resolution := f_resolution file\<rparr>\<rparr>
              else parsed) (Usage r)" "file_ai_info w"]
    by (simp only: ai_info_of_simps)
  have 6: "propagateAIToDuplicates e (propagateAIToDuplicates e v originalID) originalID =
           propagateAIToDuplicates e v originalID" if "db_err e = (\<lambda>s k. None)"
    by (rule propagate_twice [OF that])
  from 1 t 5 6 show ?thesis by (intro conjI impI)
qed

theorem C5_persisting_twice_is_persisting_once_witness:
  "fst (processAIResponse env0 world0 file_A (Some resp_unflagged) True ''auto_delete'') = None \<and>
   fst (processAIResponse env0
          (snd (processAIResponse env0 world0 file_A (Some resp_unflagged) True ''auto_delete''))
          file_A (Some resp_unflagged) True ''auto_delete'') = None \<and>
   map ai_FileID
     (file_ai_info
        (snd (processAIResponse env0
                (snd (processAIResponse env0 world0 file_A (Some resp_unflagged) True
                        ''auto_delete''))
                file_A (Some resp_unflagged) True ''auto_delete''))) = [''A''] \<and>
   map (\<lambda>r. (rel_FileID r, rel_TagID r))
     (file_global_tag_relation
        (snd (processAIResponse env0
                (snd (processAIResponse env0 world0 file_A (Some resp_unflagged) True
                        ''auto_delete''))
                file_A (Some resp_unflagged) True ''auto_delete''))) = [(''A'', 1)] \<and>
   map tag_Name
     (global_tag
        (snd (processAIResponse env0
                (snd (processAIResponse env0 world0 file_A (Some resp_unflagged) True
                        ''auto_delete''))
                file_A (Some resp_unflagged) True ''auto_delete''))) = [''cat''] \<and>
   db_err env0 = (\<lambda>s k. None) \<and>
   propagateAIToDuplicates env0 (propagateAIToDuplicates env0 world_dups ''A'') ''A'' =
     propagateAIToDuplicates env0 world_dups ''A''"
proof -
  note t = C5_persisting_twice_is_persisting_once
    [OF eval_unflagged_auto_delete, where v = world_dups and originalID = "''A''"]
  have 1: "fst (processAIResponse env0 world0 file_A (Some resp_unflagged) True ''auto_delete'') =
             None"
    by (simp add: eval_unflagged_auto_delete)
  have 2: "fst (processAIResponse env0
          (snd (processAIResponse env0 world0 file_A (Some resp_unflagged) True ''auto_delete''))
          file_A (Some resp_unflagged) True ''auto_delete'') = None"
    unfolding eval_unflagged_auto_delete snd_conv by (rule t [THEN conjunct1])
  have 3: "map ai_FileID
     (file_ai_info
        (snd (processAIResponse env0
                (snd (processAIResponse env0 world0 file_A (Some resp_unflagged) True
                        ''auto_delete''))
                file_A (Some resp_unflagged) True ''auto_delete''))) = [''A'']"
    unfolding eval_unflagged_auto_delete snd_conv
    unfolding t [THEN conjunct2, THEN conjunct1]
    by simp
  have 4: "map (\<lambda>r. (rel_FileID r, rel_TagID r))
     (file_global_tag_relation
        (snd (processAIResponse env0
                (snd (processAIResponse env0 world0 file_A (Some resp_unflagged) True
                        ''auto_delete''))
                file_A (Some resp_unflagged) True ''auto_delete''))) = [(''A'', 1)]"
    unfolding eval_unflagged_auto_delete snd_conv
    unfolding t [THEN conjunct2, THEN conjunct2, THEN conjunct1]
    by simp
  have 5: "map tag_Name
     (global_tag
        (snd (processAIResponse env0
                (snd (processAIResponse env0 world0 file_A (Some resp_unflagged) True
                        ''auto_delete''))
                file_A (Some resp_unflagged) True ''auto_delete''))) = [''cat'']"
    unfolding eval_unflagged_auto_delete snd_conv
    unfolding t [THEN conjunct2, THEN conjunct2, THEN conjunct2, THEN conjunct1]
    by simp
  have 6: "db_err env0 = (\<lambda>s k. None)" by (simp add: env0_def)
  have 7: "propagateAIToDuplicates env0 (propagateAIToDuplicates env0 world_dups ''A'') ''A'' =
     propagateAIToDuplicates env0 world_dups ''A''"
    by (rule t [THEN conjunct2, THEN conjunct2, THEN conjunct2, THEN conjunct2, THEN conjunct2,
                THEN mp, OF 6])
  from 1 2 3 4 5 6 7 show ?thesis by (intro conjI)
qed

end
